theory Spec2Isabelle
  imports
    Complex_Main
    "HOL-Library.Word"
    "HOL-Library.Char_ord"
    "HOL-Library.List_Lexorder"
    "HOL-Library.Product_Lexorder"
begin

section \<open>The Superstore dashboard scripts\<close>

text \<open>
  The repository holds two scripts, \<^verbatim>\<open>hello.py\<close> and
  \<^verbatim>\<open>superstore_analysis.py\<close>. Each loads the transaction table, prepares it
  (type coercion, derived columns) and then alternates aggregation with chart output,
  top to bottom. Both are embedded here statement by statement. The calls into the
  dataframe library are modelled by the functions of the next subsections, the calls
  into the charting library only by the columns they read and the data they are given.
  The static narration (\<^verbatim>\<open>text(...)\<close>) carries no data and is left out.
\<close>

subsection \<open>Numbers of a numeric column\<close>

text \<open>
  A numeric column has one of two types. A float column holds floating-point values:
  they are modelled by exact rationals extended with the two infinities and NaN (which
  is also the missing value of a numeric column). An integer column holds 64-bit signed
  integers, modelled by machine words, whose arithmetic wraps around.

  Of floating-point arithmetic the rounding and the sign of zero are abstracted: a
  quotient and the conversion of an integer are exact. The special values, the rules by
  which they arise and propagate, and the overflow of a sum to an infinity are kept.
\<close>

datatype num = Fin rat | PInf | NInf | NaN | I64 "64 word"

fun is_int :: "num \<Rightarrow> bool" where
  "is_int (I64 w) = True"
| "is_int x = False"

fun word_of :: "num \<Rightarrow> 64 word" where
  "word_of (I64 w) = w"
| "word_of x = 0"

text \<open>The conversion of an integer to a float, which leaves a float as it is.\<close>

definition to_float :: "num \<Rightarrow> num" where
  "to_float x = (case x of I64 w \<Rightarrow> Fin (of_int (sint w)) | _ \<Rightarrow> x)"

text \<open>
  Division of two floats: never raises, a zero divisor gives an infinity or NaN. The
  operands of \<open>float_div\<close> are floats; its last two equations only make it total.
\<close>

fun float_div :: "num \<Rightarrow> num \<Rightarrow> num" where
  "float_div NaN y = NaN"
| "float_div x NaN = NaN"
| "float_div (Fin a) (Fin b) =
     (if b \<noteq> 0 then Fin (a / b)
      else if 0 < a then PInf else if a < 0 then NInf else NaN)"
| "float_div (Fin a) PInf = Fin 0"
| "float_div (Fin a) NInf = Fin 0"
| "float_div PInf (Fin b) = (if 0 \<le> b then PInf else NInf)"
| "float_div NInf (Fin b) = (if 0 \<le> b then NInf else PInf)"
| "float_div PInf PInf = NaN"
| "float_div PInf NInf = NaN"
| "float_div NInf PInf = NaN"
| "float_div NInf NInf = NaN"
| "float_div (I64 a) y = NaN"
| "float_div x (I64 b) = NaN"

text \<open>
  \<^verbatim>\<open>a / b\<close> is true division: integer operands are converted to floats, the result
  is a float.
\<close>

definition fdiv :: "num \<Rightarrow> num \<Rightarrow> num" where
  "fdiv x y = float_div (to_float x) (to_float y)"

text \<open>
  The exact sum of two floats, and the float that an exact result becomes: at the
  distance of half a unit in the last place beyond the largest finite double, which is
  \<^verbatim>\<open>2^1024 - 2^970\<close>, it is an infinity.
\<close>

fun exact_add :: "num \<Rightarrow> num \<Rightarrow> num" where
  "exact_add NaN y = NaN"
| "exact_add x NaN = NaN"
| "exact_add (Fin a) (Fin b) = Fin (a + b)"
| "exact_add (Fin a) PInf = PInf"
| "exact_add (Fin a) NInf = NInf"
| "exact_add PInf (Fin b) = PInf"
| "exact_add NInf (Fin b) = NInf"
| "exact_add PInf PInf = PInf"
| "exact_add NInf NInf = NInf"
| "exact_add PInf NInf = NaN"
| "exact_add NInf PInf = NaN"
| "exact_add (I64 a) y = NaN"
| "exact_add x (I64 b) = NaN"

definition overflow_bound :: rat where
  "overflow_bound = 2 ^ 1024 - 2 ^ 970"

fun overflow :: "num \<Rightarrow> num" where
  "overflow (Fin r) =
     (if overflow_bound \<le> r then PInf else if r \<le> - overflow_bound then NInf else Fin r)"
| "overflow x = x"

text \<open>Addition of floats: the exact sum, overflowing to an infinity.\<close>

definition fadd :: "num \<Rightarrow> num \<Rightarrow> num" where
  "fadd x y = overflow (exact_add (to_float x) (to_float y))"

text \<open>
  The absolute value. On an integer it is the machine operation: the negation of the
  least integer, \<^verbatim>\<open>-2^63\<close>, wraps around to itself.
\<close>

definition int64_min :: "64 word" where
  "int64_min = 2 ^ 63"

fun fabs :: "num \<Rightarrow> num" where
  "fabs (Fin a) = Fin \<bar>a\<bar>"
| "fabs PInf = PInf"
| "fabs NInf = PInf"
| "fabs NaN = NaN"
| "fabs (I64 w) = I64 (if sint w < 0 then - w else w)"

text \<open>The comparisons \<open>x < 0\<close> and \<open>0 \<le> x\<close>: both false for NaN.\<close>

fun negative :: "num \<Rightarrow> bool" where
  "negative (Fin a) = (a < 0)"
| "negative NInf = True"
| "negative PInf = False"
| "negative NaN = False"
| "negative (I64 w) = (sint w < 0)"

fun nonneg :: "num \<Rightarrow> bool" where
  "nonneg (Fin a) = (0 \<le> a)"
| "nonneg NInf = False"
| "nonneg PInf = True"
| "nonneg NaN = False"
| "nonneg (I64 w) = (0 \<le> sint w)"

definition isna :: "num \<Rightarrow> bool" where
  "isna v = (v = NaN)"

subsection \<open>Cells, columns and the transaction table\<close>

text \<open>
  A timestamp is year, month, day and the nanosecond of the day; tuples are compared
  lexicographically, which is the order of time.
\<close>

type_synonym timestamp = "int \<times> nat \<times> nat \<times> nat"

text \<open>
  A cell of the \<^verbatim>\<open>Order Date\<close> column is text as loaded or a datetime value, where
  \<open>None\<close> is NaT. A cell of a numeric column is text as loaded or a number. A label
  (\<^verbatim>\<open>Category\<close>, \<^verbatim>\<open>Region\<close>) is a string or missing.
\<close>

datatype date_cell = DText string | DVal "timestamp option"

datatype num_cell = NText string | NVal num

type_synonym label = "string option"

datatype error = KeyError string | ValueError | TypeError

text \<open>
  The table has the fixed schema of the dataset; a column that the loaded table lacks is
  \<open>None\<close>. The two derived columns are float columns, absent in the loaded table.
\<close>

record frame =
  Order_Date :: "date_cell list option"
  Sales :: "num_cell list option"
  Profit :: "num_cell list option"
  Discount :: "num_cell list option"
  Category :: "label list option"
  Region :: "label list option"
  Profit_Margin :: "num list option"
  Absolute_Profit :: "num list option"

text \<open>Every column of a table has the table's number of rows.\<close>

definition col_rows :: "nat \<Rightarrow> 'a list option \<Rightarrow> bool" where
  "col_rows n c = (case c of None \<Rightarrow> True | Some xs \<Rightarrow> length xs = n)"

definition aligned :: "frame \<Rightarrow> nat \<Rightarrow> bool" where
  "aligned d n =
     (col_rows n (Order_Date d) \<and> col_rows n (Sales d) \<and> col_rows n (Profit d) \<and>
      col_rows n (Discount d) \<and> col_rows n (Category d) \<and> col_rows n (Region d) \<and>
      col_rows n (Profit_Margin d) \<and> col_rows n (Absolute_Profit d))"

fun has_column :: "frame \<Rightarrow> string \<Rightarrow> bool" where
  "has_column d c =
     (if c = ''Order Date'' then Order_Date d \<noteq> None
      else if c = ''Sales'' then Sales d \<noteq> None
      else if c = ''Profit'' then Profit d \<noteq> None
      else if c = ''Discount'' then Discount d \<noteq> None
      else if c = ''Category'' then Category d \<noteq> None
      else if c = ''Region'' then Region d \<noteq> None
      else if c = ''Profit Margin'' then Profit_Margin d \<noteq> None
      else if c = ''Absolute Profit'' then Absolute_Profit d \<noteq> None
      else False)"

subsection \<open>Errors\<close>

definition and_then :: "error + 'a \<Rightarrow> ('a \<Rightarrow> error + 'b) \<Rightarrow> error + 'b" where
  "and_then r f = (case r of Inl e \<Rightarrow> Inl e | Inr v \<Rightarrow> f v)"

fun traverse :: "('a \<Rightarrow> error + 'b) \<Rightarrow> 'a list \<Rightarrow> error + 'b list" where
  "traverse f [] = Inr []"
| "traverse f (x # xs) =
     and_then (f x) (\<lambda>y. and_then (traverse f xs) (\<lambda>ys. Inr (y # ys)))"

text \<open>\<^verbatim>\<open>df[name]\<close>: a KeyError when the table has no such column.\<close>

definition getcol :: "string \<Rightarrow> 'a option \<Rightarrow> error + 'a" where
  "getcol name c = (case c of None \<Rightarrow> Inl (KeyError name) | Some xs \<Rightarrow> Inr xs)"

subsection \<open>The dataframe library\<close>

text \<open>
  The scripts compute through calls into the dataframe library, which is not part of
  the repository. Each call is modelled by a function of its own, following the
  library's behaviour under the defaults that the scripts leave in place
  (\<^verbatim>\<open>errors='raise'\<close>, \<^verbatim>\<open>skipna\<close>, \<^verbatim>\<open>dropna=True\<close>, \<^verbatim>\<open>sort=True\<close>).

  How the library reads a date or a number out of a string is left open: the two string
  parsers are parameters. \<open>None\<close> is a string the parser rejects; the date parser may
  also return NaT, the number parser NaN.
\<close>

record parsers =
  parse_date :: "string \<Rightarrow> timestamp option option"
  parse_num :: "string \<Rightarrow> num option"

text \<open>\<^verbatim>\<open>pd.to_datetime(column)\<close>: one string that does not parse fails the column.\<close>

fun to_datetime_cell :: "parsers \<Rightarrow> date_cell \<Rightarrow> error + date_cell" where
  "to_datetime_cell P (DVal t) = Inr (DVal t)"
| "to_datetime_cell P (DText s) =
     (case parse_date P s of None \<Rightarrow> Inl ValueError | Some t \<Rightarrow> Inr (DVal t))"

definition to_datetime :: "parsers \<Rightarrow> date_cell list \<Rightarrow> error + date_cell list" where
  "to_datetime P col = traverse (to_datetime_cell P) col"

text \<open>
  \<^verbatim>\<open>pd.to_numeric(column)\<close>, with its default \<^verbatim>\<open>errors='raise'\<close>. The result has
  one type: it is an integer column when every value is an integer, and a float column
  otherwise, with the integers converted.
\<close>

fun to_numeric_cell :: "parsers \<Rightarrow> num_cell \<Rightarrow> error + num_cell" where
  "to_numeric_cell P (NVal v) = Inr (NVal v)"
| "to_numeric_cell P (NText s) =
     (case parse_num P s of None \<Rightarrow> Inl ValueError | Some v \<Rightarrow> Inr (NVal v))"

fun int_cell :: "num_cell \<Rightarrow> bool" where
  "int_cell (NVal v) = is_int v"
| "int_cell (NText s) = False"

fun as_float_cell :: "num_cell \<Rightarrow> num_cell" where
  "as_float_cell (NVal v) = NVal (to_float v)"
| "as_float_cell (NText s) = NText s"

definition as_dtype :: "num_cell list \<Rightarrow> num_cell list" where
  "as_dtype cells = (if list_all int_cell cells then cells else map as_float_cell cells)"

definition to_numeric :: "parsers \<Rightarrow> num_cell list \<Rightarrow> error + num_cell list" where
  "to_numeric P col =
     and_then (traverse (to_numeric_cell P) col) (\<lambda>cells. Inr (as_dtype cells))"

text \<open>
  Arithmetic on a column works on numbers; on a column that still holds text the
  operator raises a TypeError.
\<close>

fun float_cell :: "num_cell \<Rightarrow> error + num" where
  "float_cell (NVal v) = Inr v"
| "float_cell (NText s) = Inl TypeError"

definition floats :: "num_cell list \<Rightarrow> error + num list" where
  "floats col = traverse float_cell col"

text \<open>\<^verbatim>\<open>a / b\<close> on two columns of one table, row by row.\<close>

definition series_div :: "num_cell list \<Rightarrow> num_cell list \<Rightarrow> error + num list" where
  "series_div a b =
     and_then (floats a) (\<lambda>xs. and_then (floats b) (\<lambda>ys. Inr (map2 fdiv xs ys)))"

text \<open>\<^verbatim>\<open>np.abs(column)\<close>.\<close>

definition np_abs :: "num_cell list \<Rightarrow> error + num list" where
  "np_abs a = and_then (floats a) (\<lambda>xs. Inr (map fabs xs))"

text \<open>
  The group reductions. \<^verbatim>\<open>sum\<close> on the values of an integer column adds them as
  64-bit integers, wrapping around; on a float column it adds the values that are not
  NaN, in row order, starting from zero. \<^verbatim>\<open>mean\<close> works on floats: it converts
  integers, divides the sum of the values that are not NaN by their number, and is NaN
  when there is none.
\<close>

definition gsum :: "num list \<Rightarrow> num" where
  "gsum xs =
     (if xs \<noteq> [] \<and> list_all is_int xs then I64 (foldl (+) 0 (map word_of xs))
      else foldl fadd (Fin 0) (filter (\<lambda>v. \<not> isna v) xs))"

definition gmean :: "num list \<Rightarrow> num" where
  "gmean xs =
     (let ys = filter (\<lambda>v. \<not> isna v) (map to_float xs)
      in if ys = [] then NaN else fdiv (foldl fadd (Fin 0) ys) (Fin (of_nat (length ys))))"

text \<open>
  \<^verbatim>\<open>groupby\<close>: a row whose key is missing belongs to no group (the default
  \<^verbatim>\<open>dropna=True\<close>); the groups come sorted by key (the default \<^verbatim>\<open>sort=True\<close>),
  one per key that occurs. \<open>members\<close> are the values of a column in the rows of one
  group, in row order.
\<close>

definition present :: "'k option list \<Rightarrow> 'k list" where
  "present ks = concat (map (\<lambda>k. case k of None \<Rightarrow> [] | Some x \<Rightarrow> [x]) ks)"

definition group_keys :: "('k::linorder) option list \<Rightarrow> 'k list" where
  "group_keys ks = sort (remdups (present ks))"

definition members :: "'k option list \<Rightarrow> 'v list \<Rightarrow> 'k \<Rightarrow> 'v list" where
  "members ks vs k = map snd (filter (\<lambda>kv. fst kv = Some k) (zip ks vs))"

text \<open>
  The month-end bucket of \<^verbatim>\<open>pd.Grouper(key='Order Date', freq='M')\<close>: the last day
  of the timestamp's calendar month, at midnight.
\<close>

definition leap_year :: "int \<Rightarrow> bool" where
  "leap_year y = (y mod 4 = 0 \<and> (y mod 100 \<noteq> 0 \<or> y mod 400 = 0))"

definition days_in_month :: "int \<Rightarrow> nat \<Rightarrow> nat" where
  "days_in_month y m =
     (if m = 2 then (if leap_year y then 29 else 28)
      else if m = 4 \<or> m = 6 \<or> m = 9 \<or> m = 11 then 30 else 31)"

fun month_end :: "timestamp \<Rightarrow> timestamp" where
  "month_end (y, m, d, ns) = (y, m, days_in_month y m, 0)"

text \<open>A datetime column as group key; a cell that is still text is a TypeError.\<close>

fun stamp_cell :: "date_cell \<Rightarrow> error + timestamp option" where
  "stamp_cell (DVal t) = Inr t"
| "stamp_cell (DText s) = Inl TypeError"

definition stamps :: "date_cell list \<Rightarrow> error + timestamp option list" where
  "stamps col = traverse stamp_cell col"

subsection \<open>The aggregate views\<close>

datatype variant = Hello | Analysis

record metric_row =
  m_category :: string
  m_sales :: num
  m_profit :: num
  m_margin :: num
  m_abs :: "num option"

record trend_row =
  t_bucket :: timestamp
  t_category :: string
  t_sales :: num

text \<open>
  \<^verbatim>\<open>df.groupby("Category").agg({...}).reset_index()\<close>: sum of Sales, sum of Profit,
  mean of Profit Margin and, in \<^verbatim>\<open>hello.py\<close> only, mean of Absolute Profit.
\<close>

definition category_metrics :: "variant \<Rightarrow> frame \<Rightarrow> error + metric_row list" where
  "category_metrics v d =
     and_then (getcol ''Category'' (Category d)) (\<lambda>cat.
     and_then (and_then (getcol ''Sales'' (Sales d)) floats) (\<lambda>ss.
     and_then (and_then (getcol ''Profit'' (Profit d)) floats) (\<lambda>ps.
     and_then (getcol ''Profit Margin'' (Profit_Margin d)) (\<lambda>ms.
     (case v of
        Analysis \<Rightarrow>
          Inr (map (\<lambda>k. \<lparr>m_category = k, m_sales = gsum (members cat ss k),
                         m_profit = gsum (members cat ps k),
                         m_margin = gmean (members cat ms k), m_abs = None\<rparr>)
                 (group_keys cat))
      | Hello \<Rightarrow>
          and_then (getcol ''Absolute Profit'' (Absolute_Profit d)) (\<lambda>as.
          Inr (map (\<lambda>k. \<lparr>m_category = k, m_sales = gsum (members cat ss k),
                         m_profit = gsum (members cat ps k),
                         m_margin = gmean (members cat ms k),
                         m_abs = Some (gmean (members cat as k))\<rparr>)
                 (group_keys cat))))))))"

text \<open>
  The time bucket of a row: the month end in \<^verbatim>\<open>hello.py\<close>
  (\<^verbatim>\<open>pd.Grouper(key='Order Date', freq='M')\<close>), the order date itself in
  \<^verbatim>\<open>superstore_analysis.py\<close> (\<^verbatim>\<open>groupby(["Order Date", "Category"])\<close>).
\<close>

fun bucket :: "variant \<Rightarrow> timestamp \<Rightarrow> timestamp" where
  "bucket Hello t = month_end t"
| "bucket Analysis t = t"

fun pair_key :: "variant \<Rightarrow> timestamp option \<Rightarrow> label \<Rightarrow> (timestamp \<times> string) option" where
  "pair_key v (Some t) (Some c) = Some (bucket v t, c)"
| "pair_key v t c = None"

definition row_keys :: "variant \<Rightarrow> timestamp option list \<Rightarrow> label list \<Rightarrow> (timestamp \<times> string) option list" where
  "row_keys v ts cat = map2 (pair_key v) ts cat"

definition temporal :: "variant \<Rightarrow> frame \<Rightarrow> error + trend_row list" where
  "temporal v d =
     and_then (and_then (getcol ''Order Date'' (Order_Date d)) stamps) (\<lambda>ts.
     and_then (getcol ''Category'' (Category d)) (\<lambda>cat.
     and_then (and_then (getcol ''Sales'' (Sales d)) floats) (\<lambda>ss.
     Inr (map (\<lambda>k. \<lparr>t_bucket = fst k, t_category = snd k,
                    t_sales = gsum (members (row_keys v ts cat) ss k)\<rparr>)
            (group_keys (row_keys v ts cat))))))"

text \<open>\<^verbatim>\<open>df.groupby("Category").size().reset_index()\<close>.\<close>

definition category_counts :: "frame \<Rightarrow> error + (string \<times> nat) list" where
  "category_counts d =
     and_then (getcol ''Category'' (Category d)) (\<lambda>cat.
     Inr (map (\<lambda>k. (k, length (members cat cat k))) (group_keys cat)))"

subsection \<open>The scripts\<close>

text \<open>
  A script runs its statements in order on the table \<open>df\<close> and the list of what has
  been handed to the dashboard so far. An exception ends the run where it is raised:
  what was shown before stays shown.
\<close>

datatype view =
    Whole frame
  | Counts "(string \<times> nat) list"
  | Metrics "metric_row list"
  | Trend "trend_row list"

datatype figure = Chart string view | Table frame

record pstate =
  df :: frame
  shown :: "figure list"

type_synonym stmt = "pstate \<Rightarrow> error + pstate"

fun exec :: "stmt list \<Rightarrow> pstate \<Rightarrow> error option \<times> pstate" where
  "exec [] s = (None, s)"
| "exec (f # fs) s = (case f s of Inl e \<Rightarrow> (Some e, s) | Inr s' \<Rightarrow> exec fs s')"

text \<open>A chart of the table itself reads the named columns and fails without them.\<close>

definition px :: "string \<Rightarrow> string list \<Rightarrow> frame \<Rightarrow> error + figure" where
  "px title cols d =
     (if list_all (has_column d) cols then Inr (Chart title (Whole d)) else Inl ValueError)"

definition plotly :: "pstate \<Rightarrow> figure \<Rightarrow> error + pstate" where
  "plotly s fig = Inr (s\<lparr>shown := shown s @ [fig]\<rparr>)"

text \<open>\<^verbatim>\<open>df["Order Date"] = pd.to_datetime(df["Order Date"])\<close>\<close>

definition assign_order_date :: "parsers \<Rightarrow> stmt" where
  "assign_order_date P s =
     and_then (getcol ''Order Date'' (Order_Date (df s))) (\<lambda>c.
     and_then (to_datetime P c) (\<lambda>c'.
     Inr (s\<lparr>df := (df s)\<lparr>Order_Date := Some c'\<rparr>\<rparr>)))"

text \<open>\<^verbatim>\<open>df["Sales"] = pd.to_numeric(df["Sales"])\<close>\<close>

definition assign_sales :: "parsers \<Rightarrow> stmt" where
  "assign_sales P s =
     and_then (getcol ''Sales'' (Sales (df s))) (\<lambda>c.
     and_then (to_numeric P c) (\<lambda>c'.
     Inr (s\<lparr>df := (df s)\<lparr>Sales := Some c'\<rparr>\<rparr>)))"

text \<open>\<^verbatim>\<open>df["Profit"] = pd.to_numeric(df["Profit"])\<close>\<close>

definition assign_profit :: "parsers \<Rightarrow> stmt" where
  "assign_profit P s =
     and_then (getcol ''Profit'' (Profit (df s))) (\<lambda>c.
     and_then (to_numeric P c) (\<lambda>c'.
     Inr (s\<lparr>df := (df s)\<lparr>Profit := Some c'\<rparr>\<rparr>)))"

text \<open>\<^verbatim>\<open>df["Profit Margin"] = df["Profit"] / df["Sales"]\<close>\<close>

definition assign_profit_margin :: stmt where
  "assign_profit_margin s =
     and_then (getcol ''Profit'' (Profit (df s))) (\<lambda>p.
     and_then (getcol ''Sales'' (Sales (df s))) (\<lambda>sa.
     and_then (series_div p sa) (\<lambda>m.
     Inr (s\<lparr>df := (df s)\<lparr>Profit_Margin := Some m\<rparr>\<rparr>))))"

text \<open>\<^verbatim>\<open>df["Absolute Profit"] = np.abs(df["Profit"])\<close>\<close>

definition assign_absolute_profit :: stmt where
  "assign_absolute_profit s =
     and_then (getcol ''Profit'' (Profit (df s))) (\<lambda>p.
     and_then (np_abs p) (\<lambda>a.
     Inr (s\<lparr>df := (df s)\<lparr>Absolute_Profit := Some a\<rparr>\<rparr>)))"

definition chart_sales :: stmt where
  "chart_sales s =
     and_then (px ''Distribution of Sales'' [''Sales''] (df s)) (plotly s)"

definition chart_profit :: stmt where
  "chart_profit s =
     and_then (px ''Distribution of Profits'' [''Profit''] (df s)) (plotly s)"

definition chart_category :: stmt where
  "chart_category s =
     and_then (category_counts (df s)) (\<lambda>t.
     plotly s (Chart ''Product Distribution Across Categories'' (Counts t)))"

fun chart_sales_profit :: "variant \<Rightarrow> stmt" where
  "chart_sales_profit Hello s =
     and_then (px ''Sales vs Profit Relationship'' [''Sales'', ''Profit'', ''Category''] (df s))
       (plotly s)"
| "chart_sales_profit Analysis s =
     and_then (px ''Sales vs Profit Relationship'' [''Sales'', ''Profit''] (df s)) (plotly s)"

definition chart_region :: stmt where
  "chart_region s =
     and_then (px ''Profit Margins by Region'' [''Region'', ''Profit Margin''] (df s)) (plotly s)"

definition chart_category_performance :: "variant \<Rightarrow> stmt" where
  "chart_category_performance v s =
     and_then (category_metrics v (df s)) (\<lambda>t.
     plotly s (Chart ''Category Performance Overview'' (Metrics t)))"

fun temporal_title :: "variant \<Rightarrow> string" where
  "temporal_title Hello = ''Monthly Sales Trends by Category''"
| "temporal_title Analysis = ''Sales Trends by Category''"

definition chart_temporal :: "variant \<Rightarrow> stmt" where
  "chart_temporal v s =
     and_then (temporal v (df s)) (\<lambda>t. plotly s (Chart (temporal_title v) (Trend t)))"

fun chart_matrix :: "variant \<Rightarrow> stmt" where
  "chart_matrix Hello s =
     and_then (px ''Strategic Performance Matrix''
        [''Sales'', ''Profit Margin'', ''Absolute Profit'', ''Category'', ''Region''] (df s))
       (plotly s)"
| "chart_matrix Analysis s =
     and_then (px ''Strategic Performance Matrix''
        [''Sales'', ''Profit Margin'', ''Profit'', ''Category'', ''Region''] (df s))
       (plotly s)"

text \<open>\<^verbatim>\<open>table(df)\<close>\<close>

definition show_table :: stmt where
  "show_table s = plotly s (Table (df s))"

text \<open>
  The data loading and preprocessing block: the type coercion, then the derived
  columns. \<^verbatim>\<open>superstore_analysis.py\<close> converts the order date only and derives the
  profit margin only.
\<close>

fun coercion :: "variant \<Rightarrow> parsers \<Rightarrow> stmt list" where
  "coercion Hello P = [assign_order_date P, assign_sales P, assign_profit P]"
| "coercion Analysis P = [assign_order_date P]"

fun derive :: "variant \<Rightarrow> stmt list" where
  "derive Hello = [assign_profit_margin, assign_absolute_profit]"
| "derive Analysis = [assign_profit_margin]"

definition preprocessing :: "variant \<Rightarrow> parsers \<Rightarrow> stmt list" where
  "preprocessing v P = coercion v P @ derive v"

fun closing :: "variant \<Rightarrow> stmt list" where
  "closing Hello = [show_table]"
| "closing Analysis = []"

definition charts :: "variant \<Rightarrow> stmt list" where
  "charts v =
     [chart_sales, chart_profit, chart_category, chart_sales_profit v, chart_region,
      chart_category_performance v, chart_temporal v, chart_matrix v] @ closing v"

definition script :: "variant \<Rightarrow> parsers \<Rightarrow> stmt list" where
  "script v P = preprocessing v P @ charts v"

text \<open>
  A run starts with nothing shown from the loaded table, the result of
  \<^verbatim>\<open>get_df('superstore')\<close> or \<^verbatim>\<open>pd.read_csv(...)\<close>: loading itself is outside
  the model.
\<close>

definition loaded :: "frame \<Rightarrow> pstate" where
  "loaded d = \<lparr>df = d, shown = []\<rparr>"

definition run :: "variant \<Rightarrow> parsers \<Rightarrow> frame \<Rightarrow> error option \<times> pstate" where
  "run v P d = exec (script v P) (loaded d)"

subsection \<open>Vocabulary of the properties\<close>

text \<open>
  The plain arithmetic sum and mean of a list of values, every value counted and nothing
  wrapping or overflowing: what ``the arithmetic sum'' and ``the arithmetic mean'' of
  the per-row values say. An integer counts with its value.
\<close>

definition arith_sum :: "num list \<Rightarrow> num" where
  "arith_sum xs = foldl (\<lambda>x y. exact_add (to_float x) (to_float y)) (Fin 0) xs"

definition arith_mean :: "num list \<Rightarrow> num" where
  "arith_mean xs = fdiv (arith_sum xs) (Fin (of_nat (length xs)))"

text \<open>
  A numeric column has one type: its values are all integers or all floats. The result
  of \<^verbatim>\<open>pd.to_numeric\<close> is such a column, and so is a numeric column that
  \<^verbatim>\<open>pd.read_csv\<close> has read.
\<close>

definition unified :: "num list \<Rightarrow> bool" where
  "unified vs = (list_all is_int vs \<or> list_all (\<lambda>v. \<not> is_int v) vs)"

text \<open>The values of a list that are not missing.\<close>

definition valid :: "num list \<Rightarrow> num list" where
  "valid xs = filter (\<lambda>v. \<not> isna v) xs"

text \<open>
  The value of an integer, and the rational value of a finite number; an infinity or
  NaN counts as zero.
\<close>

fun int_of :: "num \<Rightarrow> int" where
  "int_of (I64 w) = sint w"
| "int_of x = 0"

fun rat_of :: "num \<Rightarrow> rat" where
  "rat_of (Fin q) = q"
| "rat_of (I64 w) = of_int (sint w)"
| "rat_of x = 0"

text \<open>
  A list whose finite values are small enough for no sum of any of them to overflow the
  floats: their magnitudes add up to less than \<open>overflow_bound\<close>. Likewise a list of
  integers small enough for no such sum to wrap around: their magnitudes add up to less
  than \<^verbatim>\<open>2^63\<close>.
\<close>

definition float_safe :: "num list \<Rightarrow> bool" where
  "float_safe xs = (sum_list (map (\<lambda>x. \<bar>rat_of x\<bar>) xs) < overflow_bound)"

definition int_safe :: "num list \<Rightarrow> bool" where
  "int_safe xs =
     (list_all is_int xs \<and> sum_list (map (\<lambda>x. \<bar>rat_of x\<bar>) xs) < 2 ^ 63)"

text \<open>A list of floats each of which is a finite number or missing.\<close>

fun is_fin :: "num \<Rightarrow> bool" where
  "is_fin (Fin q) = True"
| "is_fin x = False"

definition finite_floats :: "num list \<Rightarrow> bool" where
  "finite_floats xs = list_all (\<lambda>x. is_fin x \<or> isna x) xs"

text \<open>The exact absolute value of a number.\<close>

fun magnitude :: "num \<Rightarrow> num" where
  "magnitude (Fin a) = Fin \<bar>a\<bar>"
| "magnitude PInf = PInf"
| "magnitude NInf = PInf"
| "magnitude NaN = NaN"
| "magnitude (I64 w) = Fin \<bar>of_int (sint w)\<bar>"

text \<open>The values of a column in the rows that have a key.\<close>

definition keyed :: "'k option list \<Rightarrow> 'v list \<Rightarrow> 'v list" where
  "keyed ks vs = map snd (filter (\<lambda>kv. fst kv \<noteq> None) (zip ks vs))"

text \<open>The row numbers of the group of key \<open>k\<close>, in row order.\<close>

definition group_rows :: "'k option list \<Rightarrow> 'k \<Rightarrow> nat list" where
  "group_rows ks k = filter (\<lambda>i. ks ! i = Some k) [0..<length ks]"

text \<open>The groups (by key) that a row belongs to.\<close>

definition groups_of_row :: "('k::linorder) option list \<Rightarrow> nat \<Rightarrow> 'k list" where
  "groups_of_row ks i = filter (\<lambda>k. i \<in> set (group_rows ks k)) (group_keys ks)"

fun same_month :: "timestamp \<Rightarrow> timestamp \<Rightarrow> bool" where
  "same_month (y, m, d, ns) (y', m', d', ns') = (y = y' \<and> m = m')"

text \<open>The month-end key that belongs to a key of order date and category.\<close>

definition month_key :: "timestamp \<times> string \<Rightarrow> timestamp \<times> string" where
  "month_key k = (month_end (fst k), snd k)"

text \<open>A column all of whose cells are datetime values, or floats.\<close>

definition datetime_column :: "date_cell list option \<Rightarrow> bool" where
  "datetime_column c =
     (case c of None \<Rightarrow> False
      | Some xs \<Rightarrow> list_all (\<lambda>x. case x of DVal t \<Rightarrow> True | DText s \<Rightarrow> False) xs)"

definition numeric_column :: "num_cell list option \<Rightarrow> bool" where
  "numeric_column c =
     (case c of None \<Rightarrow> False
      | Some xs \<Rightarrow> list_all (\<lambda>x. case x of NVal v \<Rightarrow> True | NText s \<Rightarrow> False) xs)"

text \<open>The columns that the pipeline expects of the loaded table.\<close>

definition expected_columns :: "string list" where
  "expected_columns = [''Order Date'', ''Sales'', ''Profit'', ''Category'', ''Region'', ''Discount'']"

text \<open>
  The faults of the loaded table that the preprocessing block meets: one of the three
  columns it reads is missing, an order date is text that does not parse, or a Sales or
  Profit cell is not a number. For \<^verbatim>\<open>hello.py\<close> that is text which
  \<^verbatim>\<open>pd.to_numeric\<close> rejects, for \<^verbatim>\<open>superstore_analysis.py\<close>, which
  divides the columns as loaded, any text.
\<close>

fun unparseable_date :: "parsers \<Rightarrow> date_cell \<Rightarrow> bool" where
  "unparseable_date P (DText s) = (parse_date P s = None)"
| "unparseable_date P (DVal t) = False"

fun non_numeric :: "variant \<Rightarrow> parsers \<Rightarrow> num_cell \<Rightarrow> bool" where
  "non_numeric Hello P (NText s) = (parse_num P s = None)"
| "non_numeric Analysis P (NText s) = True"
| "non_numeric v P (NVal x) = False"

definition column_has :: "('a \<Rightarrow> bool) \<Rightarrow> 'a list option \<Rightarrow> bool" where
  "column_has bad c = (case c of None \<Rightarrow> False | Some xs \<Rightarrow> list_ex bad xs)"

definition preparation_fault :: "variant \<Rightarrow> parsers \<Rightarrow> frame \<Rightarrow> bool" where
  "preparation_fault v P d =
     (Order_Date d = None \<or> Sales d = None \<or> Profit d = None \<or>
      column_has (unparseable_date P) (Order_Date d) \<or>
      column_has (non_numeric v P) (Sales d) \<or>
      column_has (non_numeric v P) (Profit d))"

subsection \<open>Sample tables\<close>

text \<open>A parser for the strings of the samples; the empty string is a missing value.\<close>

definition sample_parsers :: parsers where
  "sample_parsers =
     \<lparr>parse_date = (\<lambda>s.
        if s = ''2023-01-05'' then Some (Some (2023, 1, 5, 0))
        else if s = ''2023-01-20'' then Some (Some (2023, 1, 20, 0))
        else if s = ''2023-02-01'' then Some (Some (2023, 2, 1, 0))
        else if s = [] then Some None else None),
      parse_num = (\<lambda>s.
        if s = ''100'' then Some (I64 100)
        else if s = ''50'' then Some (I64 50)
        else if s = ''200'' then Some (I64 200)
        else if s = ''1'' then Some (I64 1)
        else if s = ''9223372036854775807'' then Some (I64 9223372036854775807)
        else if s = ''-9223372036854775808'' then Some (I64 int64_min)
        else if s = [] then Some NaN else None)\<rparr>"

text \<open>The three transactions of the end-to-end scenario, dates and sales as text.\<close>

definition store :: frame where
  "store =
     \<lparr>Order_Date = Some [DText ''2023-01-05'', DText ''2023-01-20'', DText ''2023-02-01''],
      Sales = Some [NText ''100'', NText ''50'', NText ''200''],
      Profit = Some [NVal (Fin 20), NVal (Fin (- 10)), NVal (Fin 40)],
      Discount = Some [NVal (Fin 0), NVal (Fin 0), NVal (Fin 0)],
      Category = Some [Some ''Tech'', Some ''Tech'', Some ''Office''],
      Region = Some [Some ''West'', Some ''East'', Some ''West''],
      Profit_Margin = None, Absolute_Profit = None\<rparr>"

definition january :: "timestamp option list" where
  "january = [Some (2023, 1, 5, 0), Some (2023, 1, 20, 0), Some (2023, 2, 1, 0)]"

text \<open>The same table after the preprocessing of \<^verbatim>\<open>hello.py\<close>.\<close>

definition store_ready :: frame where
  "store_ready =
     \<lparr>Order_Date = Some (map DVal january),
      Sales = Some [NVal (I64 100), NVal (I64 50), NVal (I64 200)],
      Profit = Some [NVal (Fin 20), NVal (Fin (- 10)), NVal (Fin 40)],
      Discount = Some [NVal (Fin 0), NVal (Fin 0), NVal (Fin 0)],
      Category = Some [Some ''Tech'', Some ''Tech'', Some ''Office''],
      Region = Some [Some ''West'', Some ''East'', Some ''West''],
      Profit_Margin = Some [Fin (1 / 5), Fin (- (1 / 5)), Fin (1 / 5)],
      Absolute_Profit = Some [Fin 20, Fin 10, Fin 40]\<rparr>"

text \<open>
  A table with zero sales: a Tech row without sales and profit beside an ordinary one,
  and an Office category whose only row has no sales.
\<close>

definition store_zero :: frame where
  "store_zero =
     \<lparr>Order_Date = Some [DText ''2023-01-05'', DText ''2023-01-20'', DText ''2023-02-01''],
      Sales = Some [NVal (Fin 0), NVal (Fin 2), NVal (Fin 0)],
      Profit = Some [NVal (Fin 0), NVal (Fin 1), NVal (Fin 5)],
      Discount = Some [NVal (Fin 0), NVal (Fin 0), NVal (Fin 0)],
      Category = Some [Some ''Tech'', Some ''Tech'', Some ''Office''],
      Region = Some [Some ''West'', Some ''East'', Some ''West''],
      Profit_Margin = None, Absolute_Profit = None\<rparr>"

text \<open>The same table after the preprocessing of \<^verbatim>\<open>superstore_analysis.py\<close>.\<close>

definition store_zero_ready :: frame where
  "store_zero_ready =
     store_zero\<lparr>Order_Date := Some (map DVal january),
                Profit_Margin := Some [NaN, Fin (1 / 2), PInf]\<rparr>"

text \<open>
  A table with gaps: the second row has no order date, the third no category. First
  as loaded, then as the preprocessing of \<^verbatim>\<open>hello.py\<close> leaves it.
\<close>

definition store_gaps_loaded :: frame where
  "store_gaps_loaded =
     \<lparr>Order_Date = Some [DText ''2023-01-05'', DText [], DText ''2023-02-01''],
      Sales = Some [NText ''100'', NText ''50'', NText ''200''],
      Profit = Some [NVal (Fin 20), NVal (Fin (- 10)), NVal (Fin 40)],
      Discount = Some [NVal (Fin 0), NVal (Fin 0), NVal (Fin 0)],
      Category = Some [Some ''Tech'', Some ''Tech'', None],
      Region = Some [Some ''West'', Some ''East'', Some ''West''],
      Profit_Margin = None, Absolute_Profit = None\<rparr>"

definition store_gaps :: frame where
  "store_gaps =
     \<lparr>Order_Date = Some [DVal (Some (2023, 1, 5, 0)), DVal None, DVal (Some (2023, 2, 1, 0))],
      Sales = Some [NVal (I64 100), NVal (I64 50), NVal (I64 200)],
      Profit = Some [NVal (Fin 20), NVal (Fin (- 10)), NVal (Fin 40)],
      Discount = Some [NVal (Fin 0), NVal (Fin 0), NVal (Fin 0)],
      Category = Some [Some ''Tech'', Some ''Tech'', None],
      Region = Some [Some ''West'', Some ''East'', Some ''West''],
      Profit_Margin = Some [Fin (1 / 5), Fin (- (1 / 5)), Fin (1 / 5)],
      Absolute_Profit = Some [Fin 20, Fin 10, Fin 40]\<rparr>"

text \<open>The scenario with a Sales cell that is no number.\<close>

definition store_bad_sales :: frame where
  "store_bad_sales = store\<lparr>Sales := Some [NText ''100'', NText ''abc'', NText ''200'']\<rparr>"

text \<open>The scenario loaded without its Category column.\<close>

definition store_no_category :: frame where
  "store_no_category = store\<lparr>Category := None\<rparr>"

text \<open>
  Two Tech transactions with extreme integers: the Sales are the greatest 64-bit integer
  and 1, the first Profit is the least 64-bit integer. First as loaded, then as the
  preprocessing of \<^verbatim>\<open>hello.py\<close> leaves it.
\<close>

definition store_extreme :: frame where
  "store_extreme =
     \<lparr>Order_Date = Some [DText ''2023-01-05'', DText ''2023-01-20''],
      Sales = Some [NText ''9223372036854775807'', NText ''1''],
      Profit = Some [NText ''-9223372036854775808'', NText ''1''],
      Discount = Some [NVal (Fin 0), NVal (Fin 0)],
      Category = Some [Some ''Tech'', Some ''Tech''],
      Region = Some [Some ''West'', Some ''East''],
      Profit_Margin = None, Absolute_Profit = None\<rparr>"

definition store_extreme_ready :: frame where
  "store_extreme_ready =
     \<lparr>Order_Date = Some [DVal (Some (2023, 1, 5, 0)), DVal (Some (2023, 1, 20, 0))],
      Sales = Some [NVal (I64 9223372036854775807), NVal (I64 1)],
      Profit = Some [NVal (I64 int64_min), NVal (I64 1)],
      Discount = Some [NVal (Fin 0), NVal (Fin 0)],
      Category = Some [Some ''Tech'', Some ''Tech''],
      Region = Some [Some ''West'', Some ''East''],
      Profit_Margin = Some [Fin (- 9223372036854775808 / 9223372036854775807), Fin 1],
      Absolute_Profit = Some [I64 int64_min, I64 1]\<rparr>"

text \<open>The scenario with a missing Profit in its second row.\<close>

definition store_no_profit :: frame where
  "store_no_profit = store\<lparr>Profit := Some [NVal (Fin 20), NVal NaN, NVal (Fin 40)]\<rparr>"

section \<open>Facts about the model\<close>

subsection \<open>Number operations\<close>

lemma to_float_simps [simp]:
  "to_float (Fin a) = Fin a" "to_float PInf = PInf" "to_float NInf = NInf"
  "to_float NaN = NaN" "to_float (I64 w) = Fin (of_int (sint w))"
  by (simp_all add: to_float_def)

lemma to_float_idem [simp]: "to_float (to_float x) = to_float x"
  by (cases x) simp_all

lemma to_float_id: "\<not> is_int x \<Longrightarrow> to_float x = x"
  by (cases x) simp_all

lemma is_int_to_float [simp]: "\<not> is_int (to_float x)"
  by (cases x) simp_all

lemma fdiv_simps [simp]:
  "fdiv NaN y = NaN"
  "fdiv x NaN = NaN"
  "fdiv (Fin a) (Fin b) =
     (if b \<noteq> 0 then Fin (a / b)
      else if 0 < a then PInf else if a < 0 then NInf else NaN)"
  "fdiv (Fin a) PInf = Fin 0"
  "fdiv (Fin a) NInf = Fin 0"
  "fdiv PInf (Fin b) = (if 0 \<le> b then PInf else NInf)"
  "fdiv NInf (Fin b) = (if 0 \<le> b then NInf else PInf)"
  "fdiv PInf PInf = NaN"
  "fdiv PInf NInf = NaN"
  "fdiv NInf PInf = NaN"
  "fdiv NInf NInf = NaN"
  "fdiv (I64 w) y = fdiv (Fin (of_int (sint w))) y"
  "fdiv x (I64 w) = fdiv x (Fin (of_int (sint w)))"
  by (cases x; cases y; simp add: fdiv_def)+

lemma fdiv_to_float [simp]:
  "fdiv (to_float x) y = fdiv x y" "fdiv x (to_float y) = fdiv x y"
  by (simp_all add: fdiv_def)

lemma fdiv_is_float [simp]: "\<not> is_int (fdiv x y)"
  by (cases "to_float x"; cases "to_float y") (simp_all add: fdiv_def)

lemma fdiv_zero_sales: "fdiv p (Fin 0) \<in> {PInf, NInf, NaN}"
  by (cases p) auto

lemma fdiv_zero_int_sales: "fdiv p (I64 0) \<in> {PInf, NInf, NaN}"
  using fdiv_zero_sales [of p] by simp

lemma fadd_simps [simp]:
  "fadd NaN y = NaN"
  "fadd x NaN = NaN"
  "fadd (Fin a) (Fin b) = overflow (Fin (a + b))"
  "fadd (Fin a) PInf = PInf"
  "fadd (Fin a) NInf = NInf"
  "fadd PInf (Fin b) = PInf"
  "fadd NInf (Fin b) = NInf"
  "fadd PInf PInf = PInf"
  "fadd NInf NInf = NInf"
  "fadd PInf NInf = NaN"
  "fadd NInf PInf = NaN"
  "fadd (I64 w) y = fadd (Fin (of_int (sint w))) y"
  "fadd x (I64 w) = fadd x (Fin (of_int (sint w)))"
  by (cases x; cases y; simp add: fadd_def)+

lemma overflow_in_range:
  "\<bar>r\<bar> < overflow_bound \<Longrightarrow> overflow (Fin r) = Fin r"
  by auto

lemma fabs_isna: "isna (fabs x) \<longleftrightarrow> isna x"
  by (cases x) (simp_all add: isna_def)

lemma sint_int64_min: "sint int64_min = - (2 ^ 63)"
  by (simp add: int64_min_def)

lemma fabs_int64_min: "fabs (I64 int64_min) = I64 int64_min"
  by (simp add: int64_min_def)

lemma negative_int64_min: "negative (I64 int64_min)"
  by (simp add: int64_min_def)

lemma sint_neg:
  fixes w :: "64 word"
  assumes "w \<noteq> int64_min"
  shows "sint (- w) = - sint w"
proof -
  have "sint w \<noteq> sint int64_min"
    using assms signed_word_eqI [of w int64_min] by blast
  then have ne: "sint w \<noteq> - (2 ^ 63)" unfolding sint_int64_min .
  have "- (2 ^ 63) \<le> sint w" "sint w < 2 ^ 63"
    using sint_range_size [of w] by (simp_all add: word_size)
  with ne have "- (2 ^ 63) \<le> - sint w" "- sint w < 2 ^ 63" by linarith+
  then have "signed_take_bit 63 (- sint w) = - sint w"
    by (intro signed_take_bit_int_eq_self) simp_all
  then show ?thesis by (simp add: sint_word_minus)
qed

lemma fabs_magnitude: "x \<noteq> I64 int64_min \<Longrightarrow> to_float (fabs x) = magnitude x"
proof (cases x)
  case (I64 w)
  assume "x \<noteq> I64 int64_min"
  with I64 have "w \<noteq> int64_min" by simp
  then have "sint (- w) = - sint w" by (rule sint_neg)
  then have "(of_int (sint (- w)) :: rat) = - of_int (sint w)" by simp
  with I64 show ?thesis by (simp del: of_int_sint)
qed simp_all

lemma fabs_nonneg: "x \<noteq> I64 int64_min \<Longrightarrow> \<not> isna x \<Longrightarrow> nonneg (fabs x)"
  by (cases x) (auto simp: sint_neg isna_def)

lemma nonneg_not_negative: "nonneg x \<Longrightarrow> \<not> negative x"
  by (cases x) auto

lemma not_nonneg_int64_min: "\<not> nonneg (I64 int64_min)"
  by (simp add: int64_min_def)

lemma not_nonneg_isna: "isna x \<Longrightarrow> \<not> nonneg x"
  by (simp add: isna_def)

subsection \<open>Errors, coercion and the statements of the preprocessing block\<close>

lemma map_NVal_eq [simp]: "map NVal xs = map NVal ys \<longleftrightarrow> xs = ys"
  by (rule inj_map_eq_map) (simp add: inj_def)

lemma map_DVal_eq [simp]: "map DVal xs = map DVal ys \<longleftrightarrow> xs = ys"
  by (rule inj_map_eq_map) (simp add: inj_def)

lemma and_then_Inr: "and_then r f = Inr y \<longleftrightarrow> (\<exists>v. r = Inr v \<and> f v = Inr y)"
  by (cases r) (simp_all add: and_then_def)

lemma and_then_Inl: "and_then r f = Inl e \<longleftrightarrow> (r = Inl e \<or> (\<exists>v. r = Inr v \<and> f v = Inl e))"
  by (cases r) (simp_all add: and_then_def)

lemma traverse_Inr:
  "traverse f xs = Inr ys \<longleftrightarrow> list_all2 (\<lambda>x y. f x = Inr y) xs ys"
proof (induction xs arbitrary: ys)
  case Nil
  then show ?case by auto
next
  case (Cons x xs)
  show ?case
    by (cases ys) (auto simp: and_then_Inr Cons.IH)
qed

lemma traverse_Inl:
  "traverse f xs = Inl e \<Longrightarrow> \<exists>x\<in>set xs. f x = Inl e"
  by (induction xs) (auto simp: and_then_Inl)

lemma floats_Inr: "floats col = Inr vs \<longleftrightarrow> col = map NVal vs"
proof -
  have "list_all2 (\<lambda>x y. float_cell x = Inr y) col vs \<longleftrightarrow> col = map NVal vs"
  proof (induction col arbitrary: vs)
    case Nil
    then show ?case by auto
  next
    case (Cons c col)
    show ?case
    proof (cases vs)
      case Nil
      then show ?thesis by simp
    next
      case (Cons w ws)
      then show ?thesis using Cons.IH [of ws] by (cases c) auto
    qed
  qed
  then show ?thesis by (simp add: floats_def traverse_Inr)
qed

lemma traverse_to_numeric:
  assumes "traverse (to_numeric_cell P) col = Inr cells"
  shows "\<exists>vs. cells = map NVal vs \<and> length vs = length col"
proof -
  from assms have "list_all2 (\<lambda>x y. to_numeric_cell P x = Inr y) col cells"
    by (simp add: traverse_Inr)
  then show ?thesis
  proof (induction rule: list_all2_induct)
    case Nil
    then show ?case by simp
  next
    case (Cons x xs y ys)
    then obtain vs where vs: "ys = map NVal vs" "length vs = length xs" by blast
    from Cons(1) obtain w where "y = NVal w"
      by (cases x) (auto split: option.splits)
    with vs have "y # ys = map NVal (w # vs) \<and> length (w # vs) = length (x # xs)" by simp
    then show ?case by (rule exI [of _ "w # vs"])
  qed
qed

lemma list_all_int_cell [simp]: "list_all int_cell (map NVal vs) = list_all is_int vs"
  by (induction vs) simp_all

lemma map_as_float_cell [simp]: "map as_float_cell (map NVal vs) = map NVal (map to_float vs)"
  by (induction vs) simp_all

lemma as_dtype_NVal:
  "as_dtype (map NVal vs) = map NVal (if list_all is_int vs then vs else map to_float vs)"
  by (simp add: as_dtype_def)

lemma unified_as_dtype: "unified (if list_all is_int vs then vs else map to_float vs)"
  by (simp add: unified_def list_all_iff)

lemma to_numeric_Inr:
  assumes "to_numeric P col = Inr col'"
  shows "\<exists>vs. col' = map NVal vs \<and> length vs = length col"
proof -
  from assms obtain cells where c: "traverse (to_numeric_cell P) col = Inr cells"
    "col' = as_dtype cells"
    by (auto simp: to_numeric_def and_then_Inr)
  from traverse_to_numeric [OF c(1)] obtain ws where ws: "cells = map NVal ws"
    "length ws = length col" by blast
  with c(2) have "col' = map NVal (if list_all is_int ws then ws else map to_float ws) \<and>
     length (if list_all is_int ws then ws else map to_float ws) = length col"
    by (simp add: as_dtype_NVal)
  then show ?thesis by blast
qed

lemma to_numeric_unified:
  assumes "to_numeric P col = Inr (map NVal vs)"
  shows "unified vs"
proof -
  from assms obtain cells where c: "traverse (to_numeric_cell P) col = Inr cells"
    "map NVal vs = as_dtype cells"
    by (auto simp: to_numeric_def and_then_Inr)
  from traverse_to_numeric [OF c(1)] obtain ws where "cells = map NVal ws" by blast
  with c(2) have "vs = (if list_all is_int ws then ws else map to_float ws)"
    by (simp add: as_dtype_NVal)
  then show ?thesis by (simp only: unified_as_dtype)
qed

lemma to_datetime_Inr:
  "to_datetime P col = Inr col' \<Longrightarrow> \<exists>ts. col' = map DVal ts \<and> length ts = length col"
proof -
  assume "to_datetime P col = Inr col'"
  then have "list_all2 (\<lambda>x y. to_datetime_cell P x = Inr y) col col'"
    by (simp add: to_datetime_def traverse_Inr)
  then show ?thesis
  proof (induction rule: list_all2_induct)
    case Nil
    then show ?case by simp
  next
    case (Cons x xs y ys)
    then obtain vs where vs: "ys = map DVal vs" "length vs = length xs" by blast
    from Cons(1) obtain w where "y = DVal w"
      by (cases x) (auto split: option.splits)
    with vs have "y # ys = map DVal (w # vs) \<and> length (w # vs) = length (x # xs)" by simp
    then show ?case by (rule exI [of _ "w # vs"])
  qed
qed

lemma exec_append:
  "exec (fs @ gs) s =
     (case exec fs s of (None, s') \<Rightarrow> exec gs s' | (Some e, s') \<Rightarrow> (Some e, s'))"
  by (induction fs arbitrary: s) (auto split: sum.splits)

lemma getcol_Inr: "getcol name c = Inr xs \<longleftrightarrow> c = Some xs"
  by (cases c) (simp_all add: getcol_def)

lemma floats_map_NVal: "floats (map NVal vs) = Inr vs"
  by (simp add: floats_Inr)

lemma assign_order_date_Inr:
  assumes "assign_order_date P s = Inr s'"
  shows "\<exists>c ts. Order_Date (df s) = Some c \<and> to_datetime P c = Inr (map DVal ts) \<and>
           length ts = length c \<and> s' = s\<lparr>df := (df s)\<lparr>Order_Date := Some (map DVal ts)\<rparr>\<rparr>"
proof -
  from assms obtain c c' where c: "Order_Date (df s) = Some c" "to_datetime P c = Inr c'"
      "s' = s\<lparr>df := (df s)\<lparr>Order_Date := Some c'\<rparr>\<rparr>"
    by (auto simp: assign_order_date_def and_then_Inr getcol_Inr)
  from to_datetime_Inr [OF c(2)] obtain ts where "c' = map DVal ts" "length ts = length c"
    by blast
  with c show ?thesis by blast
qed

lemma assign_sales_Inr:
  assumes "assign_sales P s = Inr s'"
  shows "\<exists>c vs. Sales (df s) = Some c \<and> to_numeric P c = Inr (map NVal vs) \<and>
           length vs = length c \<and> s' = s\<lparr>df := (df s)\<lparr>Sales := Some (map NVal vs)\<rparr>\<rparr>"
proof -
  from assms obtain c c' where c: "Sales (df s) = Some c" "to_numeric P c = Inr c'"
      "s' = s\<lparr>df := (df s)\<lparr>Sales := Some c'\<rparr>\<rparr>"
    by (auto simp: assign_sales_def and_then_Inr getcol_Inr)
  from to_numeric_Inr [OF c(2)] obtain vs where "c' = map NVal vs" "length vs = length c"
    by blast
  with c show ?thesis by blast
qed

lemma assign_profit_Inr:
  assumes "assign_profit P s = Inr s'"
  shows "\<exists>c vs. Profit (df s) = Some c \<and> to_numeric P c = Inr (map NVal vs) \<and>
           length vs = length c \<and> s' = s\<lparr>df := (df s)\<lparr>Profit := Some (map NVal vs)\<rparr>\<rparr>"
proof -
  from assms obtain c c' where c: "Profit (df s) = Some c" "to_numeric P c = Inr c'"
      "s' = s\<lparr>df := (df s)\<lparr>Profit := Some c'\<rparr>\<rparr>"
    by (auto simp: assign_profit_def and_then_Inr getcol_Inr)
  from to_numeric_Inr [OF c(2)] obtain vs where "c' = map NVal vs" "length vs = length c"
    by blast
  with c show ?thesis by blast
qed

lemma assign_profit_margin_Inr:
  "assign_profit_margin s = Inr s' \<longleftrightarrow>
     (\<exists>ps ss. Profit (df s) = Some (map NVal ps) \<and> Sales (df s) = Some (map NVal ss) \<and>
        s' = s\<lparr>df := (df s)\<lparr>Profit_Margin := Some (map2 fdiv ps ss)\<rparr>\<rparr>)"
  by (auto simp: assign_profit_margin_def series_div_def and_then_Inr getcol_Inr floats_Inr)

lemma assign_absolute_profit_Inr:
  "assign_absolute_profit s = Inr s' \<longleftrightarrow>
     (\<exists>ps. Profit (df s) = Some (map NVal ps) \<and>
        s' = s\<lparr>df := (df s)\<lparr>Absolute_Profit := Some (map fabs ps)\<rparr>\<rparr>)"
  by (auto simp: assign_absolute_profit_def np_abs_def and_then_Inr getcol_Inr floats_Inr)

lemma exec_Cons_None:
  "exec (f # fs) s = (None, s') \<longleftrightarrow> (\<exists>t. f s = Inr t \<and> exec fs t = (None, s'))"
  by (cases "f s") simp_all

lemma exec_Nil_None: "exec [] s = (None, s') \<longleftrightarrow> s' = s"
  by auto

lemma preprocessing_Hello:
  assumes "exec (preprocessing Hello P) s = (None, s')"
  shows "\<exists>od sa pr ts ss ps.
     Order_Date (df s) = Some od \<and> to_datetime P od = Inr (map DVal ts) \<and>
     length ts = length od \<and>
     Sales (df s) = Some sa \<and> to_numeric P sa = Inr (map NVal ss) \<and> length ss = length sa \<and>
     Profit (df s) = Some pr \<and> to_numeric P pr = Inr (map NVal ps) \<and> length ps = length pr \<and>
     s' = s\<lparr>df := (df s)\<lparr>Order_Date := Some (map DVal ts), Sales := Some (map NVal ss),
                Profit := Some (map NVal ps), Profit_Margin := Some (map2 fdiv ps ss),
                Absolute_Profit := Some (map fabs ps)\<rparr>\<rparr>"
proof -
  from assms obtain s1 s2 s3 s4 where
    1: "assign_order_date P s = Inr s1" and 2: "assign_sales P s1 = Inr s2" and
    3: "assign_profit P s2 = Inr s3" and 4: "assign_profit_margin s3 = Inr s4" and
    5: "assign_absolute_profit s4 = Inr s'"
    by (auto simp: preprocessing_def exec_Cons_None exec_Nil_None simp del: exec.simps)
  from assign_order_date_Inr [OF 1] obtain od ts where od: "Order_Date (df s) = Some od"
    "to_datetime P od = Inr (map DVal ts)" "length ts = length od"
    "s1 = s\<lparr>df := (df s)\<lparr>Order_Date := Some (map DVal ts)\<rparr>\<rparr>" by blast
  from assign_sales_Inr [OF 2] obtain sa ss where sa: "Sales (df s1) = Some sa"
    "to_numeric P sa = Inr (map NVal ss)" "length ss = length sa"
    "s2 = s1\<lparr>df := (df s1)\<lparr>Sales := Some (map NVal ss)\<rparr>\<rparr>" by blast
  from assign_profit_Inr [OF 3] obtain pr ps where pr: "Profit (df s2) = Some pr"
    "to_numeric P pr = Inr (map NVal ps)" "length ps = length pr"
    "s3 = s2\<lparr>df := (df s2)\<lparr>Profit := Some (map NVal ps)\<rparr>\<rparr>" by blast
  from 4 od(4) sa(4) pr(4) have s4: "s4 = s3\<lparr>df := (df s3)\<lparr>Profit_Margin := Some (map2 fdiv ps ss)\<rparr>\<rparr>"
    by (auto simp: assign_profit_margin_Inr)
  from 5 od(4) sa(4) pr(4) s4 have s5: "s' = s4\<lparr>df := (df s4)\<lparr>Absolute_Profit := Some (map fabs ps)\<rparr>\<rparr>"
    by (auto simp: assign_absolute_profit_Inr)
  from od sa pr s4 s5 show ?thesis
    by (intro exI [of _ od] exI [of _ sa] exI [of _ pr] exI [of _ ts] exI [of _ ss] exI [of _ ps]) simp
qed

lemma preprocessing_Analysis:
  assumes "exec (preprocessing Analysis P) s = (None, s')"
  shows "\<exists>od ts ss ps.
     Order_Date (df s) = Some od \<and> to_datetime P od = Inr (map DVal ts) \<and>
     length ts = length od \<and>
     Sales (df s) = Some (map NVal ss) \<and> Profit (df s) = Some (map NVal ps) \<and>
     s' = s\<lparr>df := (df s)\<lparr>Order_Date := Some (map DVal ts),
                Profit_Margin := Some (map2 fdiv ps ss)\<rparr>\<rparr>"
proof -
  from assms obtain s1 where
    1: "assign_order_date P s = Inr s1" and 2: "assign_profit_margin s1 = Inr s'"
    by (auto simp: preprocessing_def exec_Cons_None exec_Nil_None simp del: exec.simps)
  from assign_order_date_Inr [OF 1] obtain od ts where od: "Order_Date (df s) = Some od"
    "to_datetime P od = Inr (map DVal ts)" "length ts = length od"
    "s1 = s\<lparr>df := (df s)\<lparr>Order_Date := Some (map DVal ts)\<rparr>\<rparr>" by blast
  from 2 od(4) obtain ps ss where "Profit (df s) = Some (map NVal ps)"
    "Sales (df s) = Some (map NVal ss)"
    "s' = s1\<lparr>df := (df s1)\<lparr>Profit_Margin := Some (map2 fdiv ps ss)\<rparr>\<rparr>"
    by (auto simp: assign_profit_margin_Inr)
  with od show ?thesis
    by (intro exI [of _ od] exI [of _ ts] exI [of _ ss] exI [of _ ps]) simp
qed

text \<open>What both preprocessing blocks establish.\<close>

lemma preprocessing_columns:
  assumes "exec (preprocessing v P) s = (None, s')"
  shows "\<exists>ts ss ps sa pr od.
     Order_Date (df s) = Some od \<and> Sales (df s) = Some sa \<and> Profit (df s) = Some pr \<and>
     length ts = length od \<and> length ss = length sa \<and> length ps = length pr \<and>
     Order_Date (df s') = Some (map DVal ts) \<and>
     Sales (df s') = Some (map NVal ss) \<and> Profit (df s') = Some (map NVal ps) \<and>
     Profit_Margin (df s') = Some (map2 fdiv ps ss) \<and>
     Category (df s') = Category (df s) \<and> Region (df s') = Region (df s) \<and>
     Discount (df s') = Discount (df s) \<and> shown s' = shown s"
proof (cases v)
  case Hello
  with assms obtain od sa pr ts ss ps where
     "Order_Date (df s) = Some od" "length ts = length od"
     "Sales (df s) = Some sa" "length ss = length sa"
     "Profit (df s) = Some pr" "length ps = length pr"
     "s' = s\<lparr>df := (df s)\<lparr>Order_Date := Some (map DVal ts), Sales := Some (map NVal ss),
                Profit := Some (map NVal ps), Profit_Margin := Some (map2 fdiv ps ss),
                Absolute_Profit := Some (map fabs ps)\<rparr>\<rparr>"
    using preprocessing_Hello [of P s s'] by blast
  then show ?thesis
    by (intro exI [of _ ts] exI [of _ ss] exI [of _ ps] exI [of _ sa] exI [of _ pr]
          exI [of _ od]) simp
next
  case Analysis
  with assms obtain od ts ss ps where
     "Order_Date (df s) = Some od" "length ts = length od"
     "Sales (df s) = Some (map NVal ss)" "Profit (df s) = Some (map NVal ps)"
     "s' = s\<lparr>df := (df s)\<lparr>Order_Date := Some (map DVal ts),
                Profit_Margin := Some (map2 fdiv ps ss)\<rparr>\<rparr>"
    using preprocessing_Analysis [of P s s'] by blast
  then show ?thesis
    by (intro exI [of _ ts] exI [of _ ss] exI [of _ ps] exI [of _ "map NVal ss"]
          exI [of _ "map NVal ps"] exI [of _ od]) simp
qed

lemma aligned_prepared:
  assumes "exec (preprocessing v P) (loaded d) = (None, s)" and "aligned d n"
  shows "\<exists>ps ss. Profit (df s) = Some (map NVal ps) \<and> Sales (df s) = Some (map NVal ss) \<and>
           Profit_Margin (df s) = Some (map2 fdiv ps ss) \<and> length ps = n \<and> length ss = n"
proof -
  from preprocessing_columns [OF assms(1)] obtain ts ss ps sa pr od where
    h: "Sales (df (loaded d)) = Some sa" "Profit (df (loaded d)) = Some pr"
     "length ss = length sa" "length ps = length pr"
     "Sales (df s) = Some (map NVal ss)" "Profit (df s) = Some (map NVal ps)"
     "Profit_Margin (df s) = Some (map2 fdiv ps ss)"
    by blast
  from h(1,2) assms(2) have "length sa = n" "length pr = n"
    by (simp_all add: loaded_def aligned_def col_rows_def)
  with h show ?thesis by simp
qed

subsection \<open>Groups and their reductions\<close>

lemma set_present: "set (present ks) = {k. Some k \<in> set ks}"
  by (induction ks) (auto simp: present_def split: option.splits)

lemma set_group_keys: "set (group_keys ks) = {k. Some k \<in> set ks}"
  by (simp add: group_keys_def set_present)

lemma distinct_group_keys: "distinct (group_keys ks)"
  by (simp add: group_keys_def)

lemma sorted_group_keys: "sorted (group_keys ks)"
  by (simp add: group_keys_def)

lemma length_group_keys: "length (group_keys ks) = card {k. Some k \<in> set ks}"
proof -
  have "length (group_keys ks) = card (set (group_keys ks))"
    by (rule distinct_card [symmetric]) (rule distinct_group_keys)
  then show ?thesis by (simp add: set_group_keys)
qed

lemma set_group_rows: "set (group_rows ks k) = {i. i < length ks \<and> ks ! i = Some k}"
  by (auto simp: group_rows_def)

lemma zip_as_map: "length ks = length vs \<Longrightarrow> zip ks vs = map (\<lambda>i. (ks ! i, vs ! i)) [0..<length ks]"
  by (rule nth_equalityI) simp_all

lemma members_nth:
  assumes "length vs = length ks"
  shows "members ks vs k = map (nth vs) (group_rows ks k)"
proof -
  have "zip ks vs = map (\<lambda>i. (ks ! i, vs ! i)) [0..<length ks]"
    using assms by (simp add: zip_as_map)
  then show ?thesis
    by (simp add: members_def group_rows_def filter_map comp_def)
qed

lemma filter_eq_distinct:
  "distinct xs \<Longrightarrow> filter (\<lambda>x. x = k) xs = (if k \<in> set xs then [k] else [])"
  by (induction xs) auto

lemma groups_of_row_Some:
  assumes "i < length ks" and "ks ! i = Some k"
  shows "groups_of_row ks i = [k]"
proof -
  have "filter (\<lambda>k'. i \<in> set (group_rows ks k')) (group_keys ks) =
        filter (\<lambda>k'. k' = k) (group_keys ks)"
    using assms by (intro filter_cong) (auto simp: set_group_rows)
  moreover have "k \<in> set (group_keys ks)"
    using assms by (auto simp: set_group_keys dest: nth_mem)
  ultimately show ?thesis
    by (simp add: groups_of_row_def filter_eq_distinct distinct_group_keys)
qed

lemma groups_of_row_None:
  assumes "ks ! i = None"
  shows "groups_of_row ks i = []"
  using assms by (simp add: groups_of_row_def set_group_rows)

lemma group_rows_nonempty:
  "k \<in> set (group_keys ks) \<Longrightarrow> group_rows ks k \<noteq> []"
proof -
  assume "k \<in> set (group_keys ks)"
  then have "Some k \<in> set ks" by (simp add: set_group_keys)
  then obtain i where "i < length ks" "ks ! i = Some k" by (auto simp: in_set_conv_nth)
  then have "i \<in> set (group_rows ks k)" by (simp add: set_group_rows)
  then show ?thesis by auto
qed

lemma group_rows_single:
  assumes "i < length ks" and "ks ! i = Some k" and "\<forall>j<length ks. ks ! j = Some k \<longrightarrow> j = i"
  shows "group_rows ks k = [i]"
proof -
  have "(ks ! j = Some k) = (j = i)" if "j \<in> set [0..<length ks]" for j
  proof
    assume "ks ! j = Some k"
    with that assms(3) show "j = i" by fastforce
  next
    assume "j = i"
    with assms(2) show "ks ! j = Some k" by blast
  qed
  then have "filter (\<lambda>j. ks ! j = Some k) [0..<length ks] = filter (\<lambda>j. j = i) [0..<length ks]"
    by (intro filter_cong) (rule refl)
  with assms(1) show ?thesis
    by (simp add: group_rows_def filter_eq_distinct)
qed

lemma card_image_less:
  assumes "finite A" and "x \<in> A" and "y \<in> A" and "x \<noteq> y" and "g x = g y"
  shows "card (g ` A) < card A"
proof -
  have "\<not> inj_on g A" using assms(2-5) by (auto simp: inj_on_def)
  then have "card (g ` A) \<noteq> card A" using assms(1) by (auto dest: eq_card_imp_inj_on)
  moreover have "card (g ` A) \<le> card A" using assms(1) by (rule card_image_le)
  ultimately show ?thesis by simp
qed

lemma keys_image:
  "{k. Some k \<in> map_option g ` set ks} = g ` {k. Some k \<in> set ks}"
proof
  show "{k. Some k \<in> map_option g ` set ks} \<subseteq> g ` {k. Some k \<in> set ks}"
  proof
    fix k assume "k \<in> {k. Some k \<in> map_option g ` set ks}"
    then obtain x where x: "x \<in> set ks" "Some k = map_option g x" by auto
    from x(2) obtain k' where "x = Some k'" "g k' = k" by (cases x) auto
    with x show "k \<in> g ` {k. Some k \<in> set ks}" by auto
  qed
  show "g ` {k. Some k \<in> set ks} \<subseteq> {k. Some k \<in> map_option g ` set ks}"
  proof
    fix k assume "k \<in> g ` {k. Some k \<in> set ks}"
    then obtain k' where "Some k' \<in> set ks" "k = g k'" by auto
    then have "Some k = map_option g (Some k')" "Some k' \<in> set ks" by simp_all
    then show "k \<in> {k. Some k \<in> map_option g ` set ks}" by blast
  qed
qed

lemma members_map: "members ks (map f vs) k = map f (members ks vs k)"
proof -
  have "zip ks (map f vs) = map (\<lambda>kv. (fst kv, f (snd kv))) (zip ks vs)"
    by (simp add: zip_map2 case_prod_beta)
  then show ?thesis
    by (simp add: members_def filter_map comp_def)
qed

lemma keyed_map: "keyed ks (map f vs) = map f (keyed ks vs)"
proof -
  have "zip ks (map f vs) = map (\<lambda>kv. (fst kv, f (snd kv))) (zip ks vs)"
    by (simp add: zip_map2 case_prod_beta)
  then show ?thesis
    by (simp add: keyed_def filter_map comp_def)
qed

lemma keyed_all:
  assumes "length ks = length vs" and "None \<notin> set ks"
  shows "keyed ks vs = vs"
proof -
  have "fst kv \<noteq> None" if "kv \<in> set (zip ks vs)" for kv
  proof -
    have "fst kv \<in> set ks"
      using that set_zip_leftD [of "fst kv" "snd kv" ks vs] by simp
    with assms(2) show ?thesis by metis
  qed
  then have "filter (\<lambda>kv. fst kv \<noteq> None) (zip ks vs) = zip ks vs"
    by (simp add: filter_id_conv)
  with assms(1) show ?thesis by (simp add: keyed_def)
qed

lemma set_members_keyed: "set (members ks vs k) \<subseteq> set (keyed ks vs)"
  by (auto simp: members_def keyed_def)

lemma keyed_empty: "group_keys ks = [] \<Longrightarrow> keyed ks vs = []"
proof -
  assume "group_keys ks = []"
  then have "set (group_keys ks) = {}" by simp
  then have "\<forall>k. Some k \<notin> set ks" by (simp add: set_group_keys)
  have "fst kv = None" if "kv \<in> set (zip ks vs)" for kv
  proof -
    have "fst kv \<in> set ks"
      using that set_zip_leftD [of "fst kv" "snd kv" ks vs] by simp
    with \<open>\<forall>k. Some k \<notin> set ks\<close> show ?thesis by (cases "fst kv") auto
  qed
  then show ?thesis by (simp add: keyed_def filter_empty_conv)
qed

text \<open>Sums over the groups of a list add up to the sum over its keyed rows.\<close>

lemma sum_list_indicator:
  "distinct ks \<Longrightarrow> k0 \<in> set ks \<Longrightarrow>
     sum_list (map (\<lambda>k. if k = k0 then a else (0::'a::comm_monoid_add)) ks) = a"
proof (induction ks)
  case Nil
  then show ?case by simp
next
  case (Cons k ks)
  show ?case
  proof (cases "k = k0")
    case True
    with Cons.prems have "k0 \<notin> set ks" by simp
    then have "sum_list (map (\<lambda>k. if k = k0 then a else (0::'a)) ks) = 0"
      by (induction ks) auto
    with True show ?thesis by simp
  next
    case False
    with Cons show ?thesis by simp
  qed
qed

lemma sum_groups:
  fixes f :: "'v \<Rightarrow> 'a::comm_monoid_add"
  assumes "distinct ks" and "\<forall>kv\<in>set kvs. \<forall>k. fst kv = Some k \<longrightarrow> k \<in> set ks"
  shows "sum_list (map (\<lambda>k. sum_list (map f (map snd (filter (\<lambda>kv. fst kv = Some k) kvs)))) ks)
       = sum_list (map f (map snd (filter (\<lambda>kv. fst kv \<noteq> None) kvs)))"
  using assms(2)
proof (induction kvs)
  case Nil
  then show ?case by simp
next
  case (Cons kv kvs)
  then have IH: "sum_list (map (\<lambda>k. sum_list (map f (map snd (filter (\<lambda>kv. fst kv = Some k) kvs)))) ks)
       = sum_list (map f (map snd (filter (\<lambda>kv. fst kv \<noteq> None) kvs)))"
    by simp
  show ?case
  proof (cases "fst kv")
    case None
    then show ?thesis using IH by simp
  next
    case (Some k0)
    with Cons.prems have k0: "k0 \<in> set ks" by simp
    have "(\<lambda>k. sum_list (map f (map snd (filter (\<lambda>kv. fst kv = Some k) (kv # kvs))))) =
          (\<lambda>k. (if k = k0 then f (snd kv) else 0) +
             sum_list (map f (map snd (filter (\<lambda>kv. fst kv = Some k) kvs))))"
      using Some by (auto simp: fun_eq_iff)
    then show ?thesis
      using Some IH by (simp add: sum_list_addf sum_list_indicator [OF assms(1) k0])
  qed
qed

lemma sum_members:
  fixes f :: "'v \<Rightarrow> 'a::comm_monoid_add"
  shows "sum_list (map (\<lambda>k. sum_list (map f (members ks vs k))) (group_keys ks)) =
         sum_list (map f (keyed ks vs))"
proof -
  have "\<forall>kv\<in>set (zip ks vs). \<forall>k. fst kv = Some k \<longrightarrow> k \<in> set (group_keys ks)"
    by (auto simp: set_group_keys dest: set_zip_leftD)
  from sum_groups [OF distinct_group_keys this, of f]
  show ?thesis by (simp add: members_def keyed_def)
qed

lemma sum_members_le:
  fixes f :: "'v \<Rightarrow> rat" and ks :: "'k option list"
  assumes "\<And>v. 0 \<le> f v"
  shows "sum_list (map f (members ks vs k)) \<le> sum_list (map f (keyed ks vs))"
proof -
  have "sum_list (map f (map snd (filter (\<lambda>kv. fst kv = Some k) kvs))) \<le>
        sum_list (map f (map snd (filter (\<lambda>kv. fst kv \<noteq> None) kvs)))" for kvs :: "('k option \<times> 'v) list"
  proof (induction kvs)
    case Nil
    then show ?case by simp
  next
    case (Cons kv kvs)
    then show ?case using assms [of "snd kv"] by (cases "fst kv") auto
  qed
  then show ?thesis by (simp add: members_def keyed_def)
qed

text \<open>The sum of an integer column wraps; it is exact while the values are small.\<close>

lemma foldl_add: "foldl (+) a xs = a + sum_list xs" for a :: "'a::monoid_add"
  by (induction xs arbitrary: a) (simp_all add: add.assoc)

lemma sint_in_range:
  fixes k :: int
  assumes "- (2 ^ 63) \<le> k" "k < 2 ^ 63"
  shows "sint (word_of_int k :: 64 word) = k"
  using assms by (simp add: sint_sbintrunc' signed_take_bit_int_eq_self)

lemma sum_list_word: "sum_list ws = (word_of_int (sum_list (map sint ws)) :: 64 word)"
  by (induction ws) simp_all

lemma abs_sum_list_le:
  "\<bar>sum_list (map f xs)\<bar> \<le> sum_list (map (\<lambda>x. \<bar>f x\<bar>) xs)" for f :: "'a \<Rightarrow> 'b::linordered_idom"
  by (induction xs) (simp_all add: order_trans [OF abs_triangle_ineq])

lemma gsum_I64: "ws \<noteq> [] \<Longrightarrow> gsum (map I64 ws) = I64 (sum_list ws)"
  by (simp add: gsum_def list_all_iff comp_def foldl_add)

lemma gsum_I64_wraps:
  "ws \<noteq> [] \<Longrightarrow> gsum (map I64 ws) = I64 (word_of_int (sum_list (map sint ws)))"
  using sum_list_word [of ws] by (simp add: gsum_I64)

lemma is_int_map_I64: "list_all is_int xs \<Longrightarrow> xs = map I64 (map word_of xs)"
proof (induction xs)
  case Nil
  then show ?case by simp
next
  case (Cons x xs)
  then show ?case by (cases x) simp_all
qed

lemma rat_of_I64_sum:
  "sum_list (map rat_of (map I64 ws)) = of_int (sum_list (map sint ws))"
  by (induction ws) simp_all

lemma rat_of_I64_abs_sum:
  "sum_list (map (\<lambda>x. \<bar>rat_of x\<bar>) (map I64 ws)) = of_int (sum_list (map (\<lambda>w. \<bar>sint w\<bar>) ws))"
  by (induction ws) simp_all

lemma int_of_word_of: "is_int x \<Longrightarrow> int_of x = sint (word_of x)"
  by (cases x) simp_all

lemma gsum_int:
  assumes "xs \<noteq> []" and "list_all is_int xs"
  shows "gsum xs = I64 (word_of_int (sum_list (map int_of xs)))"
proof -
  from assms(2) have xs: "xs = map I64 (map word_of xs)" by (rule is_int_map_I64)
  from assms(2) have "map int_of xs = map sint (map word_of xs)"
    by (simp add: list_all_iff int_of_word_of)
  moreover from assms(1) have "gsum (map I64 (map word_of xs)) =
      I64 (word_of_int (sum_list (map sint (map word_of xs))))"
    by (intro gsum_I64_wraps) simp
  ultimately show ?thesis using xs by metis
qed

lemma int_safe_sint:
  assumes "sum_list (map (\<lambda>w. \<bar>sint w\<bar>) ws) < 2 ^ 63"
  shows "sint (sum_list ws :: 64 word) = sum_list (map sint ws)"
proof -
  have "\<bar>sum_list (map sint ws)\<bar> \<le> sum_list (map (\<lambda>w. \<bar>sint w\<bar>) ws)"
    by (rule abs_sum_list_le)
  with assms have "- (2 ^ 63) \<le> sum_list (map sint ws)" "sum_list (map sint ws) < 2 ^ 63"
    by linarith+
  then have "sint (word_of_int (sum_list (map sint ws)) :: 64 word) = sum_list (map sint ws)"
    by (rule sint_in_range)
  then show ?thesis using sum_list_word [of ws] by simp
qed

lemma int_safe_words:
  assumes "int_safe xs"
  shows "sum_list (map (\<lambda>w. \<bar>sint w\<bar>) (map word_of xs)) < 2 ^ 63"
proof -
  from assms have xs: "xs = map I64 (map word_of xs)"
    by (intro is_int_map_I64) (simp add: int_safe_def)
  from assms have "sum_list (map (\<lambda>x. \<bar>rat_of x\<bar>) (map I64 (map word_of xs))) < 2 ^ 63"
    using xs by (simp add: int_safe_def)
  then have "(of_int (sum_list (map (\<lambda>w. \<bar>sint w\<bar>) (map word_of xs))) :: rat) < of_int (2 ^ 63)"
    by (simp only: rat_of_I64_abs_sum) simp
  then show ?thesis by (simp only: of_int_less_iff)
qed

text \<open>The sum of floats is exact (rounding aside) while the values are small.\<close>

lemma exact_add_is_float [simp]: "\<not> is_int (exact_add x y)"
  by (cases x; cases y) simp_all

lemma rat_of_exact_add:
  "\<bar>rat_of (exact_add (to_float a) (to_float x))\<bar> \<le> \<bar>rat_of a\<bar> + \<bar>rat_of x\<bar>"
  by (cases a; cases x) simp_all

lemma overflow_small: "\<bar>rat_of e\<bar> < overflow_bound \<Longrightarrow> overflow e = e"
  by (cases e) auto

lemma float_sum_exact:
  assumes "\<bar>rat_of acc\<bar> + sum_list (map (\<lambda>x. \<bar>rat_of x\<bar>) xs) < overflow_bound"
  shows "foldl fadd acc xs = foldl (\<lambda>x y. exact_add (to_float x) (to_float y)) acc xs"
  using assms
proof (induction xs arbitrary: acc)
  case Nil
  then show ?case by simp
next
  case (Cons x xs)
  let ?e = "exact_add (to_float acc) (to_float x)"
  have nn: "0 \<le> sum_list (map (\<lambda>x. \<bar>rat_of x\<bar>) xs)"
    by (rule sum_list_nonneg) auto
  have le: "\<bar>rat_of ?e\<bar> \<le> \<bar>rat_of acc\<bar> + \<bar>rat_of x\<bar>" by (rule rat_of_exact_add)
  with Cons.prems nn have "\<bar>rat_of ?e\<bar> < overflow_bound" by simp
  then have e: "fadd acc x = ?e" by (simp add: fadd_def overflow_small)
  from le Cons.prems have "\<bar>rat_of ?e\<bar> + sum_list (map (\<lambda>x. \<bar>rat_of x\<bar>) xs) < overflow_bound"
    by simp
  from Cons.IH [OF this] e show ?case by simp
qed

lemma rat_of_valid: "sum_list (map rat_of (valid xs)) = sum_list (map rat_of xs)"
  by (induction xs) (simp_all add: valid_def isna_def)

lemma abs_rat_of_valid:
  "sum_list (map (\<lambda>x. \<bar>rat_of x\<bar>) (valid xs)) = sum_list (map (\<lambda>x. \<bar>rat_of x\<bar>) xs)"
  by (induction xs) (simp_all add: valid_def isna_def)

lemma float_safe_valid: "float_safe (valid xs) = float_safe xs"
  by (simp add: float_safe_def abs_rat_of_valid)

lemma gsum_float:
  assumes "\<not> list_all is_int xs" and "float_safe xs"
  shows "gsum xs = arith_sum (valid xs)"
proof -
  from assms(2) have "\<bar>rat_of (Fin 0)\<bar> + sum_list (map (\<lambda>x. \<bar>rat_of x\<bar>) (valid xs)) < overflow_bound"
    by (simp add: float_safe_def abs_rat_of_valid)
  from float_sum_exact [OF this] assms(1) show ?thesis
    by (simp add: gsum_def arith_sum_def valid_def)
qed

lemma gsum_nil: "gsum [] = Fin 0"
  by (simp add: gsum_def)

lemma arith_sum_exact:
  assumes "list_all (\<lambda>x. is_fin x \<or> is_int x) xs"
  shows "arith_sum xs = Fin (sum_list (map rat_of xs))"
proof -
  have "foldl (\<lambda>x y. exact_add (to_float x) (to_float y)) (Fin a) xs =
        Fin (a + sum_list (map rat_of xs))" for a
    using assms
  proof (induction xs arbitrary: a)
    case Nil
    then show ?case by simp
  next
    case (Cons x xs)
    then show ?case by (cases x) (simp_all add: add.assoc)
  qed
  from this [of 0] show ?thesis by (simp add: arith_sum_def)
qed

lemma gsum_int_safe:
  assumes "xs \<noteq> []" and "int_safe xs"
  shows "to_float (gsum xs) = arith_sum xs"
proof -
  from assms(2) have int: "list_all is_int xs" by (simp add: int_safe_def)
  then have xs: "xs = map I64 (map word_of xs)" by (rule is_int_map_I64)
  let ?ws = "map word_of xs"
  from assms(1) have "gsum (map I64 ?ws) = I64 (sum_list ?ws)" by (intro gsum_I64) simp
  then have "to_float (gsum (map I64 ?ws)) = Fin (of_int (sum_list (map sint ?ws)))"
    using int_safe_sint [OF int_safe_words [OF assms(2)]] by simp
  also have "\<dots> = Fin (sum_list (map rat_of (map I64 ?ws)))"
    by (simp only: rat_of_I64_sum)
  also have "\<dots> = arith_sum (map I64 ?ws)"
    by (rule arith_sum_exact [symmetric]) (simp add: list_all_iff)
  finally show ?thesis using xs by simp
qed

lemma valid_to_float: "valid (map to_float xs) = map to_float (valid xs)"
proof (induction xs)
  case Nil
  then show ?case by (simp add: valid_def)
next
  case (Cons x xs)
  then show ?case by (cases x) (simp_all add: valid_def isna_def)
qed

lemma foldl_fadd_to_float: "foldl fadd a (map to_float xs) = foldl fadd a xs"
  by (induction xs arbitrary: a) (simp_all add: fadd_def)

lemma gmean_exact:
  assumes "float_safe xs"
  shows "gmean xs = (if valid xs = [] then NaN else arith_mean (valid xs))"
proof -
  from assms have "\<bar>rat_of (Fin 0)\<bar> + sum_list (map (\<lambda>x. \<bar>rat_of x\<bar>) (valid xs)) < overflow_bound"
    by (simp add: float_safe_def abs_rat_of_valid)
  from float_sum_exact [OF this]
  have "foldl fadd (Fin 0) (valid xs) = arith_sum (valid xs)"
    by (simp add: arith_sum_def)
  moreover have "gmean xs =
     (if valid xs = [] then NaN
      else fdiv (foldl fadd (Fin 0) (valid xs)) (Fin (of_nat (length (valid xs)))))"
    using valid_to_float [of xs]
    by (simp add: gmean_def Let_def valid_def [symmetric] foldl_fadd_to_float del: fdiv_simps)
  ultimately show ?thesis by (simp add: arith_mean_def)
qed

text \<open>The sums of the groups add up to the sum of the keyed rows.\<close>

lemma members_all:
  "list_all Q (keyed ks vs) \<Longrightarrow> list_all Q (members ks vs k)"
  using set_members_keyed [of ks vs k] by (auto simp: list_all_iff)

lemma members_nonempty:
  assumes "k \<in> set (group_keys ks)" and "length vs = length ks"
  shows "members ks vs k \<noteq> []"
  using assms by (simp add: members_nth group_rows_nonempty)

lemma keyed_nonempty:
  assumes "group_keys ks \<noteq> []" and "length vs = length ks"
  shows "keyed ks vs \<noteq> []"
proof -
  from assms(1) obtain k where k: "k \<in> set (group_keys ks)" by (cases "group_keys ks") auto
  from members_nonempty [OF k assms(2)] set_members_keyed [of ks vs k]
  show ?thesis by (cases "members ks vs k") auto
qed

lemma group_sums_int:
  assumes "list_all is_int (keyed ks vs)" and "length vs = length ks"
  shows "gsum (map (\<lambda>k. gsum (members ks vs k)) (group_keys ks)) = gsum (keyed ks vs)"
proof (cases "group_keys ks = []")
  case True
  then show ?thesis by (simp add: keyed_empty)
next
  case False
  have g: "gsum (members ks vs k) = I64 (sum_list (map word_of (members ks vs k)))"
    if "k \<in> set (group_keys ks)" for k
  proof -
    have "members ks vs k = map I64 (map word_of (members ks vs k))"
      by (intro is_int_map_I64 members_all assms(1))
    moreover have "gsum (map I64 (map word_of (members ks vs k))) =
        I64 (sum_list (map word_of (members ks vs k)))"
      using members_nonempty [OF that assms(2)] by (intro gsum_I64) simp
    ultimately show ?thesis by simp
  qed
  have "map (\<lambda>k. gsum (members ks vs k)) (group_keys ks) =
        map I64 (map (\<lambda>k. sum_list (map word_of (members ks vs k))) (group_keys ks))"
    using g by simp
  moreover have "gsum (map I64 (map (\<lambda>k. sum_list (map word_of (members ks vs k))) (group_keys ks))) =
        I64 (sum_list (map (\<lambda>k. sum_list (map word_of (members ks vs k))) (group_keys ks)))"
    using False by (intro gsum_I64) simp
  ultimately have "gsum (map (\<lambda>k. gsum (members ks vs k)) (group_keys ks)) =
        I64 (sum_list (map word_of (keyed ks vs)))"
    by (simp only: sum_members)
  moreover have "keyed ks vs = map I64 (map word_of (keyed ks vs))"
    by (intro is_int_map_I64 assms(1))
  moreover have "gsum (map I64 (map word_of (keyed ks vs))) =
        I64 (sum_list (map word_of (keyed ks vs)))"
    using keyed_nonempty [OF False assms(2)] by (intro gsum_I64) simp
  ultimately show ?thesis by simp
qed

lemma rat_of_to_float: "to_float x = Fin q \<Longrightarrow> rat_of x = q"
  by (cases x) simp_all

lemma is_int_gsum: "xs \<noteq> [] \<Longrightarrow> list_all is_int xs \<Longrightarrow> is_int (gsum xs)"
  by (simp add: gsum_def)

lemma members_int_safe:
  assumes "int_safe (keyed ks vs)"
  shows "int_safe (members ks vs k)"
proof -
  have "sum_list (map (\<lambda>x. \<bar>rat_of x\<bar>) (members ks vs k)) \<le>
        sum_list (map (\<lambda>x. \<bar>rat_of x\<bar>) (keyed ks vs))"
    by (rule sum_members_le) simp
  with assms show ?thesis by (simp add: int_safe_def members_all)
qed

lemma members_float_safe:
  assumes "float_safe (keyed ks vs)"
  shows "float_safe (members ks vs k)"
proof -
  have "sum_list (map (\<lambda>x. \<bar>rat_of x\<bar>) (members ks vs k)) \<le>
        sum_list (map (\<lambda>x. \<bar>rat_of x\<bar>) (keyed ks vs))"
    by (rule sum_members_le) simp
  with assms show ?thesis by (simp add: float_safe_def)
qed

lemma group_sums_int_safe:
  assumes "int_safe (keyed ks vs)" and "length vs = length ks"
  shows "arith_sum (map (\<lambda>k. gsum (members ks vs k)) (group_keys ks)) = arith_sum (keyed ks vs)"
proof -
  from assms(1) have int: "list_all is_int (keyed ks vs)" by (simp add: int_safe_def)
  have g: "is_int (gsum (members ks vs k)) \<and>
           rat_of (gsum (members ks vs k)) = sum_list (map rat_of (members ks vs k))"
    if "k \<in> set (group_keys ks)" for k
  proof -
    have ne: "members ks vs k \<noteq> []" by (rule members_nonempty [OF that assms(2)])
    have "to_float (gsum (members ks vs k)) = arith_sum (members ks vs k)"
      by (rule gsum_int_safe [OF ne members_int_safe [OF assms(1)]])
    also have "\<dots> = Fin (sum_list (map rat_of (members ks vs k)))"
      using members_all [OF int, of k] by (intro arith_sum_exact) (simp add: list_all_iff)
    finally have "rat_of (gsum (members ks vs k)) = sum_list (map rat_of (members ks vs k))"
      by (rule rat_of_to_float)
    with is_int_gsum [OF ne members_all [OF int]] show ?thesis by simp
  qed
  have "arith_sum (map (\<lambda>k. gsum (members ks vs k)) (group_keys ks)) =
        Fin (sum_list (map rat_of (map (\<lambda>k. gsum (members ks vs k)) (group_keys ks))))"
    using g by (intro arith_sum_exact) (simp add: list_all_iff)
  also have "map rat_of (map (\<lambda>k. gsum (members ks vs k)) (group_keys ks)) =
        map (\<lambda>k. sum_list (map rat_of (members ks vs k))) (group_keys ks)"
    using g by simp
  also have "sum_list \<dots> = sum_list (map rat_of (keyed ks vs))"
    by (rule sum_members)
  also have "Fin \<dots> = arith_sum (keyed ks vs)"
    using int by (intro arith_sum_exact [symmetric]) (simp add: list_all_iff)
  finally show ?thesis .
qed

lemma finite_floats_not_int: "xs \<noteq> [] \<Longrightarrow> finite_floats xs \<Longrightarrow> \<not> list_all is_int xs"
proof -
  assume "xs \<noteq> []" and f: "finite_floats xs"
  then obtain x ys where xs: "xs = x # ys" by (cases xs) auto
  with f have "is_fin x \<or> isna x" by (simp add: finite_floats_def)
  then have "\<not> is_int x" by (cases x) (simp_all add: isna_def)
  with xs show ?thesis by simp
qed

lemma finite_floats_valid: "finite_floats xs \<Longrightarrow> list_all (\<lambda>x. is_fin x \<or> is_int x) (valid xs)"
  by (auto simp: finite_floats_def valid_def list_all_iff)

lemma gsum_finite:
  assumes "finite_floats xs" and "float_safe xs"
  shows "gsum xs = Fin (sum_list (map rat_of xs))"
proof (cases "xs = []")
  case True
  then show ?thesis by (simp add: gsum_nil)
next
  case False
  from gsum_float [OF finite_floats_not_int [OF False assms(1)] assms(2)]
  have "gsum xs = arith_sum (valid xs)" .
  also have "\<dots> = Fin (sum_list (map rat_of (valid xs)))"
    by (rule arith_sum_exact [OF finite_floats_valid [OF assms(1)]])
  finally show ?thesis by (simp only: rat_of_valid)
qed

lemma group_sums_float:
  assumes "finite_floats (keyed ks vs)" and "float_safe (keyed ks vs)"
  shows "arith_sum (map (\<lambda>k. gsum (members ks vs k)) (group_keys ks)) =
           arith_sum (valid (keyed ks vs))"
    and "gsum (map (\<lambda>k. gsum (members ks vs k)) (group_keys ks)) = gsum (keyed ks vs)"
proof -
  let ?r = "\<lambda>k. sum_list (map rat_of (members ks vs k))"
  have g: "gsum (members ks vs k) = Fin (?r k)" for k
    using assms(1) by (intro gsum_finite members_float_safe [OF assms(2)])
      (simp add: finite_floats_def members_all)
  have m: "(\<lambda>k. gsum (members ks vs k)) = (\<lambda>k. Fin (?r k))"
    by (rule ext) (rule g)
  have total: "sum_list (map ?r (group_keys ks)) = sum_list (map rat_of (keyed ks vs))"
    by (rule sum_members)
  have k: "Fin (sum_list (map rat_of (keyed ks vs))) = arith_sum (valid (keyed ks vs))"
    using arith_sum_exact [OF finite_floats_valid [OF assms(1)]] by (simp only: rat_of_valid)
  have "arith_sum (map (\<lambda>k. Fin (?r k)) (group_keys ks)) =
        Fin (sum_list (map rat_of (map (\<lambda>k. Fin (?r k)) (group_keys ks))))"
    by (intro arith_sum_exact) (simp add: list_all_iff)
  also have "map rat_of (map (\<lambda>k. Fin (?r k)) (group_keys ks)) = map ?r (group_keys ks)"
    by simp
  finally show "arith_sum (map (\<lambda>k. gsum (members ks vs k)) (group_keys ks)) =
           arith_sum (valid (keyed ks vs))"
    unfolding m using total k by simp
  have "sum_list (map (\<lambda>k. \<bar>?r k\<bar>) (group_keys ks)) \<le>
        sum_list (map (\<lambda>k. sum_list (map (\<lambda>x. \<bar>rat_of x\<bar>) (members ks vs k))) (group_keys ks))"
    by (intro sum_list_mono abs_sum_list_le)
  also have "\<dots> = sum_list (map (\<lambda>x. \<bar>rat_of x\<bar>) (keyed ks vs))"
    by (rule sum_members)
  finally have "float_safe (map (\<lambda>k. Fin (?r k)) (group_keys ks))"
    using assms(2) by (simp add: float_safe_def comp_def)
  moreover have "finite_floats (map (\<lambda>k. Fin (?r k)) (group_keys ks))"
    by (simp add: finite_floats_def list_all_iff)
  ultimately have "gsum (map (\<lambda>k. Fin (?r k)) (group_keys ks)) =
        Fin (sum_list (map rat_of (map (\<lambda>k. Fin (?r k)) (group_keys ks))))"
    by (intro gsum_finite)
  also have "map rat_of (map (\<lambda>k. Fin (?r k)) (group_keys ks)) = map ?r (group_keys ks)"
    by simp
  finally show "gsum (map (\<lambda>k. gsum (members ks vs k)) (group_keys ks)) = gsum (keyed ks vs)"
    unfolding m using total gsum_finite [OF assms] by simp
qed

lemma gmean_single: "x \<in> {PInf, NInf, NaN} \<Longrightarrow> gmean [x] = x"
  by (auto simp: gmean_def isna_def)

subsection \<open>Running a script\<close>

lemma exec_keeps:
  assumes "\<And>f t t'. f \<in> set fs \<Longrightarrow> f t = Inr t' \<Longrightarrow> g t' = g t"
    and "exec fs s = (r, s')"
  shows "g s' = g s"
  using assms
proof (induction fs arbitrary: s)
  case Nil
  then show ?case by simp
next
  case (Cons f fs)
  show ?case
  proof (cases "f s")
    case (Inl e)
    with Cons.prems(2) show ?thesis by simp
  next
    case (Inr t)
    with Cons.prems(2) have "exec fs t = (r, s')" by simp
    moreover have "\<And>f t t'. f \<in> set fs \<Longrightarrow> f t = Inr t' \<Longrightarrow> g t' = g t"
      using Cons.prems(1) by (meson list.set_intros(2))
    ultimately have "g s' = g t" by (rule Cons.IH [rotated])
    moreover from Cons.prems(1) [of f s t] Inr have "g t = g s" by simp
    ultimately show ?thesis by simp
  qed
qed

lemma assign_keeps_shown:
  "assign_order_date P s = Inr s' \<Longrightarrow> shown s' = shown s"
  "assign_sales P s = Inr s' \<Longrightarrow> shown s' = shown s"
  "assign_profit P s = Inr s' \<Longrightarrow> shown s' = shown s"
  "assign_profit_margin s = Inr s' \<Longrightarrow> shown s' = shown s"
  "assign_absolute_profit s = Inr s' \<Longrightarrow> shown s' = shown s"
  by (auto simp: assign_order_date_def assign_sales_def assign_profit_def
      assign_profit_margin_def assign_absolute_profit_def and_then_Inr)

lemma preprocessing_keeps_shown:
  assumes "exec (preprocessing v P) s = (r, s')"
  shows "shown s' = shown s"
proof (rule exec_keeps [OF _ assms])
  fix f t t'
  assume "f \<in> set (preprocessing v P)" and "f t = Inr t'"
  then show "shown t' = shown t"
    by (cases v) (auto simp: preprocessing_def assign_keeps_shown)
qed

lemma plotly_Inr: "plotly s fig = Inr s' \<longleftrightarrow> s' = s\<lparr>shown := shown s @ [fig]\<rparr>"
  by (auto simp: plotly_def)

lemma chart_keeps_df:
  "chart_sales s = Inr s' \<Longrightarrow> df s' = df s"
  "chart_profit s = Inr s' \<Longrightarrow> df s' = df s"
  "chart_category s = Inr s' \<Longrightarrow> df s' = df s"
  "chart_sales_profit v s = Inr s' \<Longrightarrow> df s' = df s"
  "chart_region s = Inr s' \<Longrightarrow> df s' = df s"
  "chart_category_performance v s = Inr s' \<Longrightarrow> df s' = df s"
  "chart_temporal v s = Inr s' \<Longrightarrow> df s' = df s"
  "chart_matrix v s = Inr s' \<Longrightarrow> df s' = df s"
  "show_table s = Inr s' \<Longrightarrow> df s' = df s"
  by (cases v; auto simp: chart_sales_def chart_profit_def chart_category_def chart_region_def
      chart_category_performance_def chart_temporal_def show_table_def and_then_Inr plotly_Inr)+

lemma charts_keep_df:
  assumes "exec (charts v) s = (r, s')"
  shows "df s' = df s"
proof (rule exec_keeps [OF _ assms])
  fix f t t'
  assume "f \<in> set (charts v)" and "f t = Inr t'"
  then show "df t' = df t"
    by (cases v)
      (auto simp: charts_def dest: chart_keeps_df
        simp del: chart_sales_profit.simps chart_matrix.simps)
qed

lemma exec_append_None:
  "exec (fs @ gs) s = (None, s') \<longleftrightarrow> (\<exists>t. exec fs s = (None, t) \<and> exec gs t = (None, s'))"
  by (cases "exec fs s") (auto simp: exec_append split: option.splits)

lemma exec_append_Some:
  "exec fs s = (Some e, t) \<Longrightarrow> exec (fs @ gs) s = (Some e, t)"
  by (simp add: exec_append)

lemma exec_snoc_None:
  "exec (fs @ [f]) s = (None, s') \<longleftrightarrow> (\<exists>t. exec fs s = (None, t) \<and> f t = Inr s')"
  by (auto simp: exec_append_None exec_Cons_None exec_Nil_None simp del: exec.simps)

lemma numeric_column_NVal: "numeric_column (Some (map NVal vs))"
  by (simp add: numeric_column_def list_all_iff)

lemma datetime_column_DVal: "datetime_column (Some (map DVal ts))"
  by (simp add: datetime_column_def list_all_iff)

lemma coercion_Hello:
  assumes "exec (coercion Hello P) s = (None, s')"
  shows "\<exists>od sa pr ts ss ps.
     Order_Date (df s) = Some od \<and> to_datetime P od = Inr (map DVal ts) \<and>
     Sales (df s) = Some sa \<and> to_numeric P sa = Inr (map NVal ss) \<and>
     Profit (df s) = Some pr \<and> to_numeric P pr = Inr (map NVal ps) \<and>
     length ts = length od \<and> length ss = length sa \<and> length ps = length pr \<and>
     s' = s\<lparr>df := (df s)\<lparr>Order_Date := Some (map DVal ts), Sales := Some (map NVal ss),
                Profit := Some (map NVal ps)\<rparr>\<rparr>"
proof -
  from assms obtain s1 s2 where
    1: "assign_order_date P s = Inr s1" and 2: "assign_sales P s1 = Inr s2" and
    3: "assign_profit P s2 = Inr s'"
    by (auto simp: exec_Cons_None exec_Nil_None simp del: exec.simps)
  from assign_order_date_Inr [OF 1] obtain od ts where od: "Order_Date (df s) = Some od"
    "to_datetime P od = Inr (map DVal ts)" "length ts = length od"
    "s1 = s\<lparr>df := (df s)\<lparr>Order_Date := Some (map DVal ts)\<rparr>\<rparr>" by blast
  from assign_sales_Inr [OF 2] obtain sa ss where sa: "Sales (df s1) = Some sa"
    "to_numeric P sa = Inr (map NVal ss)" "length ss = length sa"
    "s2 = s1\<lparr>df := (df s1)\<lparr>Sales := Some (map NVal ss)\<rparr>\<rparr>" by blast
  from assign_profit_Inr [OF 3] obtain pr ps where pr: "Profit (df s2) = Some pr"
    "to_numeric P pr = Inr (map NVal ps)" "length ps = length pr"
    "s' = s2\<lparr>df := (df s2)\<lparr>Profit := Some (map NVal ps)\<rparr>\<rparr>" by blast
  from od sa pr show ?thesis
    by (intro exI [of _ od] exI [of _ sa] exI [of _ pr] exI [of _ ts] exI [of _ ss]
          exI [of _ ps]) simp
qed

lemma coercion_Analysis:
  assumes "exec (coercion Analysis P) s = (None, s')"
  shows "\<exists>od ts. Order_Date (df s) = Some od \<and> to_datetime P od = Inr (map DVal ts) \<and>
     length ts = length od \<and> s' = s\<lparr>df := (df s)\<lparr>Order_Date := Some (map DVal ts)\<rparr>\<rparr>"
proof -
  from assms have "assign_order_date P s = Inr s'"
    by (auto simp: exec_Cons_None exec_Nil_None simp del: exec.simps)
  from assign_order_date_Inr [OF this] show ?thesis .
qed

lemma derive_Hello:
  "exec (derive Hello) s = (None, s') \<longleftrightarrow>
     (\<exists>ps ss. Profit (df s) = Some (map NVal ps) \<and> Sales (df s) = Some (map NVal ss) \<and>
        s' = s\<lparr>df := (df s)\<lparr>Profit_Margin := Some (map2 fdiv ps ss),
                   Absolute_Profit := Some (map fabs ps)\<rparr>\<rparr>)"
  by (auto simp: exec_Cons_None exec_Nil_None assign_profit_margin_Inr
      assign_absolute_profit_Inr simp del: exec.simps)

lemma charts_Hello_table:
  assumes "exec (charts Hello) s = (None, s')"
  shows "df s' = df s \<and> (\<exists>figs. shown s' = figs @ [Table (df s)])"
proof -
  from assms obtain t where t: "exec [chart_sales, chart_profit, chart_category,
      chart_sales_profit Hello, chart_region, chart_category_performance Hello,
      chart_temporal Hello, chart_matrix Hello] s = (None, t)" and
    tab: "show_table t = Inr s'"
    unfolding charts_def closing.simps exec_snoc_None by blast
  have "df t = df s"
  proof (rule exec_keeps [OF _ t])
    fix f u u'
    assume "f \<in> set [chart_sales, chart_profit, chart_category,
      chart_sales_profit Hello, chart_region, chart_category_performance Hello,
      chart_temporal Hello, chart_matrix Hello]" and "f u = Inr u'"
    then show "df u' = df u"
      by (auto dest: chart_keeps_df simp del: chart_sales_profit.simps chart_matrix.simps)
  qed
  with tab show ?thesis
    by (auto simp: show_table_def plotly_Inr)
qed

lemma to_datetime_parses:
  assumes "to_datetime P od = Inr ys"
  shows "\<not> list_ex (unparseable_date P) od"
proof -
  from assms have "list_all2 (\<lambda>x y. to_datetime_cell P x = Inr y) od ys"
    by (simp add: to_datetime_def traverse_Inr)
  then have "\<forall>x\<in>set od. \<exists>y. to_datetime_cell P x = Inr y"
    by (auto simp: list_all2_conv_all_nth in_set_conv_nth)
  moreover have "\<not> unparseable_date P x" if "to_datetime_cell P x = Inr y" for x y
    using that by (cases x) (auto split: option.splits)
  ultimately show ?thesis by (auto simp: list_ex_iff)
qed

lemma to_numeric_parses:
  assumes "to_numeric P col = Inr ys"
  shows "\<not> list_ex (non_numeric Hello P) col"
proof -
  from assms obtain ys where "list_all2 (\<lambda>x y. to_numeric_cell P x = Inr y) col ys"
    by (auto simp: to_numeric_def and_then_Inr traverse_Inr)
  then have "\<forall>x\<in>set col. \<exists>y. to_numeric_cell P x = Inr y"
    by (auto simp: list_all2_conv_all_nth in_set_conv_nth)
  moreover have "\<not> non_numeric Hello P x" if "to_numeric_cell P x = Inr y" for x y
    using that by (cases x) (auto split: option.splits)
  ultimately show ?thesis by (auto simp: list_ex_iff)
qed

lemma floats_numeric: "\<not> list_ex (non_numeric v P) (map NVal vs)"
  by (simp add: list_ex_iff)

lemma prepared_no_fault:
  assumes "exec (preprocessing v P) (loaded d) = (None, s)"
  shows "\<not> preparation_fault v P d"
proof (cases v)
  case Hello
  with assms obtain od sa pr ts ss ps where
    "Order_Date (df (loaded d)) = Some od" "to_datetime P od = Inr (map DVal ts)"
    "Sales (df (loaded d)) = Some sa" "to_numeric P sa = Inr (map NVal ss)"
    "Profit (df (loaded d)) = Some pr" "to_numeric P pr = Inr (map NVal ps)"
    using preprocessing_Hello [of P "loaded d" s] by blast
  with Hello show ?thesis
    by (simp add: preparation_fault_def column_has_def loaded_def to_datetime_parses
        to_numeric_parses)
next
  case Analysis
  with assms obtain od ts ss ps where
    "Order_Date (df (loaded d)) = Some od" "to_datetime P od = Inr (map DVal ts)"
    "Sales (df (loaded d)) = Some (map NVal ss)" "Profit (df (loaded d)) = Some (map NVal ps)"
    using preprocessing_Analysis [of P "loaded d" s] by blast
  then show ?thesis
    by (simp add: preparation_fault_def column_has_def loaded_def to_datetime_parses
        floats_numeric)
qed

subsection \<open>The aggregate views\<close>

lemma category_metrics_Inr:
  assumes "category_metrics v d = Inr out"
  shows "\<exists>cat ss ps ms. Category d = Some cat \<and> Sales d = Some (map NVal ss) \<and>
     Profit d = Some (map NVal ps) \<and> Profit_Margin d = Some ms \<and>
     map m_category out = group_keys cat \<and>
     (\<forall>r\<in>set out. m_sales r = gsum (members cat ss (m_category r)) \<and>
        m_profit r = gsum (members cat ps (m_category r)) \<and>
        m_margin r = gmean (members cat ms (m_category r)))"
proof -
  from assms obtain cat ss ps ms where
    cols: "Category d = Some cat" "Sales d = Some (map NVal ss)"
      "Profit d = Some (map NVal ps)" "Profit_Margin d = Some ms"
    by (auto simp: category_metrics_def and_then_Inr getcol_Inr floats_Inr)
  show ?thesis
  proof (cases v)
    case Hello
    with assms cols obtain as where
      "out = map (\<lambda>k. \<lparr>m_category = k, m_sales = gsum (members cat ss k),
                         m_profit = gsum (members cat ps k),
                         m_margin = gmean (members cat ms k),
                         m_abs = Some (gmean (members cat as k))\<rparr>) (group_keys cat)"
      by (auto simp: category_metrics_def and_then_Inr getcol_Inr floats_Inr)
    with cols show ?thesis
      by (intro exI [of _ cat] exI [of _ ss] exI [of _ ps] exI [of _ ms])
        (auto simp: comp_def)
  next
    case Analysis
    with assms cols have
      "out = map (\<lambda>k. \<lparr>m_category = k, m_sales = gsum (members cat ss k),
                         m_profit = gsum (members cat ps k),
                         m_margin = gmean (members cat ms k),
                         m_abs = None\<rparr>) (group_keys cat)"
      by (auto simp: category_metrics_def and_then_Inr getcol_Inr floats_Inr)
    with cols show ?thesis
      by (intro exI [of _ cat] exI [of _ ss] exI [of _ ps] exI [of _ ms])
        (auto simp: comp_def)
  qed
qed

lemma valid_id: "\<forall>x\<in>set xs. \<not> isna x \<Longrightarrow> valid xs = xs"
  by (simp add: valid_def filter_id_conv)

lemma stamps_Inr: "stamps col = Inr ts \<longleftrightarrow> col = map DVal ts"
proof -
  have "list_all2 (\<lambda>x y. stamp_cell x = Inr y) col ts \<longleftrightarrow> col = map DVal ts"
  proof (induction col arbitrary: ts)
    case Nil
    then show ?case by auto
  next
    case (Cons c col)
    show ?case
    proof (cases ts)
      case Nil
      then show ?thesis by simp
    next
      case (Cons w ws)
      then show ?thesis using Cons.IH [of ws] by (cases c) auto
    qed
  qed
  then show ?thesis by (simp add: stamps_def traverse_Inr)
qed

lemma temporal_Inr:
  "temporal v d = Inr out \<longleftrightarrow>
     (\<exists>ts cat ss. Order_Date d = Some (map DVal ts) \<and> Category d = Some cat \<and>
        Sales d = Some (map NVal ss) \<and>
        out = map (\<lambda>k. \<lparr>t_bucket = fst k, t_category = snd k,
                    t_sales = gsum (members (row_keys v ts cat) ss k)\<rparr>)
            (group_keys (row_keys v ts cat)))"
  by (auto simp: temporal_def and_then_Inr getcol_Inr floats_Inr stamps_Inr)

lemma pair_key_None: "pair_key v t c = None \<longleftrightarrow> t = None \<or> c = None"
  by (cases t; cases c) simp_all

lemma category_metrics_total:
  assumes "Category d = Some cat" and "Sales d = Some (map NVal ss)"
    and "Profit d = Some (map NVal ps)" and "Profit_Margin d = Some ms"
    and "v = Hello \<longrightarrow> Absolute_Profit d \<noteq> None"
  shows "\<exists>out. category_metrics v d = Inr out"
proof (cases v)
  case Hello
  with assms(5) obtain as where "Absolute_Profit d = Some as" by auto
  with Hello assms(1-4) show ?thesis
    by (simp add: category_metrics_def and_then_def getcol_def floats_map_NVal)
next
  case Analysis
  with assms(1-4) show ?thesis
    by (simp add: category_metrics_def and_then_def getcol_def floats_map_NVal)
qed

lemma preprocessing_absolute:
  assumes "exec (preprocessing Hello P) s = (None, s')"
  shows "Absolute_Profit (df s') \<noteq> None"
proof -
  from preprocessing_Hello [OF assms] obtain ts ss ps where
    "s' = s\<lparr>df := (df s)\<lparr>Order_Date := Some (map DVal ts), Sales := Some (map NVal ss),
                Profit := Some (map NVal ps), Profit_Margin := Some (map2 fdiv ps ss),
                Absolute_Profit := Some (map fabs ps)\<rparr>\<rparr>"
    by blast
  then show ?thesis by simp
qed

lemma pair_key_Hello: "pair_key Hello t c = map_option month_key (pair_key Analysis t c)"
  by (cases t; cases c) (simp_all add: month_key_def)

lemma row_keys_Hello:
  "row_keys Hello ts cat = map (map_option month_key) (row_keys Analysis ts cat)"
  by (auto simp: row_keys_def pair_key_Hello)

lemma same_month_end: "same_month t1 t2 \<Longrightarrow> month_end t1 = month_end t2"
  by (cases t1; cases t2) simp

subsection \<open>Evaluating the samples\<close>

lemmas run_defs = loaded_def preprocessing_def and_then_def getcol_def to_datetime_def
  to_numeric_def assign_order_date_def assign_sales_def assign_profit_def
  assign_profit_margin_def assign_absolute_profit_def series_div_def np_abs_def floats_def as_dtype_def

lemmas sample_defs = sample_parsers_def store_def store_ready_def store_zero_def
  store_zero_ready_def store_gaps_loaded_def store_gaps_def january_def
  store_extreme_def store_extreme_ready_def store_no_profit_def store_bad_sales_def
  store_no_category_def

lemma store_prepared:
  "exec (preprocessing Hello sample_parsers) (loaded store) =
     (None, \<lparr>df = store_ready, shown = []\<rparr>)"
  by (simp add: run_defs sample_defs)

lemma store_zero_prepared:
  "exec (preprocessing Analysis sample_parsers) (loaded store_zero) =
     (None, \<lparr>df = store_zero_ready, shown = []\<rparr>)"
  by (simp add: run_defs sample_defs)

lemma store_gaps_prepared:
  "exec (preprocessing Hello sample_parsers) (loaded store_gaps_loaded) =
     (None, \<lparr>df = store_gaps, shown = []\<rparr>)"
  by (simp add: run_defs sample_defs)

lemma store_extreme_prepared:
  "exec (preprocessing Hello sample_parsers) (loaded store_extreme) =
     (None, \<lparr>df = store_extreme_ready, shown = []\<rparr>)"
  by (simp add: run_defs sample_defs int64_min_def)

lemma store_no_profit_prepared:
  "exec (preprocessing Hello sample_parsers) (loaded store_no_profit) =
     (None, \<lparr>df = store_ready\<lparr>Profit := Some [NVal (Fin 20), NVal NaN, NVal (Fin 40)],
                 Profit_Margin := Some [Fin (1 / 5), NaN, Fin (1 / 5)],
                 Absolute_Profit := Some [Fin 20, NaN, Fin 40]\<rparr>, shown = []\<rparr>)"
  by (simp add: run_defs sample_defs)

lemma aligned_extreme: "aligned store_extreme 2" "aligned store_extreme_ready 2"
  by (simp_all add: aligned_def col_rows_def sample_defs)

lemma aligned_samples:
  "aligned store 3" "aligned store_ready 3" "aligned store_zero 3"
  "aligned store_zero_ready 3" "aligned store_gaps 3"
  by (simp_all add: aligned_def col_rows_def sample_defs)

lemmas chart_defs = run_def script_def charts_def chart_sales_def chart_profit_def
  chart_category_def chart_region_def chart_category_performance_def chart_temporal_def
  show_table_def px_def plotly_def category_counts_def category_metrics_def temporal_def
  stamps_def row_keys_def

lemmas group_defs = group_keys_def present_def members_def gsum_def gmean_def isna_def
  overflow_bound_def
  days_in_month_def leap_year_def

lemma store_run:
  "run Hello sample_parsers store =
    (None,
     \<lparr>df = store_ready,
      shown =
       [Chart ''Distribution of Sales'' (Whole store_ready),
        Chart ''Distribution of Profits'' (Whole store_ready),
        Chart ''Product Distribution Across Categories'' (Counts [(''Office'', 1), (''Tech'', 2)]),
        Chart ''Sales vs Profit Relationship'' (Whole store_ready),
        Chart ''Profit Margins by Region'' (Whole store_ready),
        Chart ''Category Performance Overview''
          (Metrics
            [\<lparr>m_category = ''Office'', m_sales = I64 200, m_profit = Fin 40,
               m_margin = Fin (1 / 5), m_abs = Some (Fin 40)\<rparr>,
             \<lparr>m_category = ''Tech'', m_sales = I64 150, m_profit = Fin 10,
               m_margin = Fin 0, m_abs = Some (Fin 15)\<rparr>]),
        Chart ''Monthly Sales Trends by Category''
          (Trend
            [\<lparr>t_bucket = (2023, 1, 31, 0), t_category = ''Tech'', t_sales = I64 150\<rparr>,
             \<lparr>t_bucket = (2023, 2, 28, 0), t_category = ''Office'', t_sales = I64 200\<rparr>]),
        Chart ''Strategic Performance Matrix'' (Whole store_ready),
        Table store_ready]\<rparr>)"
  by (simp add: chart_defs run_defs sample_defs group_defs)

lemma store_zero_metrics:
  "category_metrics Analysis store_zero_ready =
     Inr [\<lparr>m_category = ''Office'', m_sales = Fin 0, m_profit = Fin 5, m_margin = PInf,
            m_abs = None\<rparr>,
          \<lparr>m_category = ''Tech'', m_sales = Fin 2, m_profit = Fin 1, m_margin = Fin (1 / 2),
            m_abs = None\<rparr>]"
  by (simp add: category_metrics_def and_then_def getcol_def floats_def sample_defs group_defs)

lemma store_gaps_temporal:
  "temporal Hello store_gaps =
     Inr [\<lparr>t_bucket = (2023, 1, 31, 0), t_category = ''Tech'', t_sales = I64 100\<rparr>]"
  by (simp add: temporal_def stamps_def row_keys_def and_then_def getcol_def floats_def
      sample_defs group_defs)

lemma store_gaps_keys:
  "row_keys Hello [Some (2023, 1, 5, 0), None, Some (2023, 2, 1, 0)]
      [Some ''Tech'', Some ''Tech'', None] =
     [Some ((2023, 1, 31, 0), ''Tech''), None, None]"
  by (simp add: row_keys_def group_defs)

lemma store_ready_metrics:
  "category_metrics Hello store_ready =
     Inr [\<lparr>m_category = ''Office'', m_sales = I64 200, m_profit = Fin 40,
            m_margin = Fin (1 / 5), m_abs = Some (Fin 40)\<rparr>,
          \<lparr>m_category = ''Tech'', m_sales = I64 150, m_profit = Fin 10,
            m_margin = Fin 0, m_abs = Some (Fin 15)\<rparr>]"
  by (simp add: category_metrics_def and_then_def getcol_def floats_def sample_defs group_defs)

lemma store_gaps_metrics:
  "category_metrics Hello store_gaps =
     Inr [\<lparr>m_category = ''Tech'', m_sales = I64 150, m_profit = Fin 10,
            m_margin = Fin 0, m_abs = Some (Fin 15)\<rparr>]"
  by (simp add: category_metrics_def and_then_def getcol_def floats_def sample_defs group_defs)

lemma store_ready_temporal:
  "temporal Hello store_ready =
     Inr [\<lparr>t_bucket = (2023, 1, 31, 0), t_category = ''Tech'', t_sales = I64 150\<rparr>,
          \<lparr>t_bucket = (2023, 2, 28, 0), t_category = ''Office'', t_sales = I64 200\<rparr>]"
  "temporal Analysis store_ready =
     Inr [\<lparr>t_bucket = (2023, 1, 5, 0), t_category = ''Tech'', t_sales = I64 100\<rparr>,
          \<lparr>t_bucket = (2023, 1, 20, 0), t_category = ''Tech'', t_sales = I64 50\<rparr>,
          \<lparr>t_bucket = (2023, 2, 1, 0), t_category = ''Office'', t_sales = I64 200\<rparr>]"
  by (simp_all add: temporal_def stamps_def row_keys_def and_then_def getcol_def floats_def
      sample_defs group_defs)

lemma store_extreme_metrics:
  "category_metrics Hello store_extreme_ready =
     Inr [\<lparr>m_category = ''Tech'', m_sales = I64 int64_min, m_profit = I64 (int64_min + 1),
            m_margin = Fin (- 1 / 18446744073709551614),
            m_abs = Some (Fin (- 9223372036854775807 / 2))\<rparr>]"
  by (simp add: category_metrics_def and_then_def getcol_def floats_def sample_defs group_defs
      int64_min_def)

section \<open>The properties\<close>

text \<open>
  C1. After the preprocessing block of either script, on a table of \<open>n\<close> rows, the
  Profit Margin column has \<open>n\<close> rows and its value in every row is the quotient of
  that row's Profit by its Sales. The division is not guarded: where Sales is zero the
  value is an infinity or NaN, and no error is raised. Where Profit is a number and
  Sales a number other than zero, the value is exactly their quotient. Integer
  columns are divided as floats.
\<close>

theorem profit_margin_is_quotient:
  assumes "exec (preprocessing v P) (loaded d) = (None, s)" and "aligned d n"
  shows "\<exists>ps ss ms.
     Profit (df s) = Some (map NVal ps) \<and> Sales (df s) = Some (map NVal ss) \<and>
     Profit_Margin (df s) = Some ms \<and> length ps = n \<and> length ss = n \<and> length ms = n \<and>
     (\<forall>i<n. ms ! i = fdiv (ps ! i) (ss ! i) \<and>
        (ss ! i = Fin 0 \<longrightarrow> ms ! i \<in> {PInf, NInf, NaN}) \<and>
        (\<forall>p q. ps ! i = Fin p \<and> ss ! i = Fin q \<and> q \<noteq> 0 \<longrightarrow> ms ! i = Fin (p / q)) \<and>
        (ss ! i = I64 0 \<longrightarrow> ms ! i \<in> {PInf, NInf, NaN}) \<and>
        (\<forall>p q. to_float (ps ! i) = Fin p \<and> to_float (ss ! i) = Fin q \<and> q \<noteq> 0 \<longrightarrow>
           ms ! i = Fin (p / q)))"
proof -
  from aligned_prepared [OF assms] obtain ps ss where
    h: "Profit (df s) = Some (map NVal ps)" "Sales (df s) = Some (map NVal ss)"
       "Profit_Margin (df s) = Some (map2 fdiv ps ss)" "length ps = n" "length ss = n"
    by blast
  have "map2 fdiv ps ss ! i = fdiv (ps ! i) (ss ! i)" if "i < n" for i
    using that h(4,5) by simp
  moreover have "fdiv (ps ! i) (ss ! i) \<in> {PInf, NInf, NaN}" if "ss ! i = Fin 0" for i
    using that fdiv_zero_sales [of "ps ! i"] by simp
  moreover have "fdiv (ps ! i) (ss ! i) = Fin (p / q)"
    if "ps ! i = Fin p" "ss ! i = Fin q" "q \<noteq> 0" for i p q
    using that by simp
  moreover have "fdiv (ps ! i) (ss ! i) \<in> {PInf, NInf, NaN}" if "ss ! i = I64 0" for i
    using that fdiv_zero_int_sales [of "ps ! i"] by simp
  moreover have "fdiv (ps ! i) (ss ! i) = Fin (p / q)"
    if "to_float (ps ! i) = Fin p" "to_float (ss ! i) = Fin q" "q \<noteq> 0" for i p q
  proof -
    have "fdiv (ps ! i) (ss ! i) = fdiv (to_float (ps ! i)) (to_float (ss ! i))" by simp
    with that show ?thesis by (simp del: fdiv_to_float)
  qed
  ultimately have "\<forall>i<n. map2 fdiv ps ss ! i = fdiv (ps ! i) (ss ! i) \<and>
        (ss ! i = Fin 0 \<longrightarrow> map2 fdiv ps ss ! i \<in> {PInf, NInf, NaN}) \<and>
        (\<forall>p q. ps ! i = Fin p \<and> ss ! i = Fin q \<and> q \<noteq> 0 \<longrightarrow> map2 fdiv ps ss ! i = Fin (p / q)) \<and>
        (ss ! i = I64 0 \<longrightarrow> map2 fdiv ps ss ! i \<in> {PInf, NInf, NaN}) \<and>
        (\<forall>p q. to_float (ps ! i) = Fin p \<and> to_float (ss ! i) = Fin q \<and> q \<noteq> 0 \<longrightarrow>
           map2 fdiv ps ss ! i = Fin (p / q))"
    by simp
  with h show ?thesis
    by (intro exI [of _ ps] exI [of _ ss] exI [of _ "map2 fdiv ps ss"]) simp
qed

theorem profit_margin_is_quotient_witness:
  "exec (preprocessing Analysis sample_parsers) (loaded store_zero) =
     (None, \<lparr>df = store_zero_ready, shown = []\<rparr>) \<and>
   aligned store_zero 3 \<and>
   Profit_Margin store_zero_ready = Some [NaN, Fin (1 / 2), PInf] \<and>
   (\<exists>ps ss ms.
     Profit store_zero_ready = Some (map NVal ps) \<and>
     Sales store_zero_ready = Some (map NVal ss) \<and>
     Profit_Margin store_zero_ready = Some ms \<and>
     length ps = 3 \<and> length ss = 3 \<and> length ms = 3 \<and>
     (\<forall>i<3. ms ! i = fdiv (ps ! i) (ss ! i) \<and>
        (ss ! i = Fin 0 \<longrightarrow> ms ! i \<in> {PInf, NInf, NaN}) \<and>
        (\<forall>p q. ps ! i = Fin p \<and> ss ! i = Fin q \<and> q \<noteq> 0 \<longrightarrow> ms ! i = Fin (p / q)) \<and>
        (ss ! i = I64 0 \<longrightarrow> ms ! i \<in> {PInf, NInf, NaN}) \<and>
        (\<forall>p q. to_float (ps ! i) = Fin p \<and> to_float (ss ! i) = Fin q \<and> q \<noteq> 0 \<longrightarrow>
           ms ! i = Fin (p / q))))"
proof -
  have m: "Profit_Margin store_zero_ready = Some [NaN, Fin (1 / 2), PInf]"
    by (simp add: store_zero_ready_def)
  from profit_margin_is_quotient [OF store_zero_prepared aligned_samples(3)]
    store_zero_prepared aligned_samples(3) m
  show ?thesis by simp
qed

text \<open>
  C2 (as amended). The category aggregate of a table of \<open>n\<close> rows has exactly one row
  per distinct Category value that occurs in the table. In each of its rows the Sales
  and Profit fields are the library's sums of the values of that category's rows. Of
  integers that is their 64-bit sum: the arithmetic sum reduced modulo \<^verbatim>\<open>2^64\<close>, which is
  the arithmetic sum itself when the magnitudes of the values add up to less than
  \<^verbatim>\<open>2^63\<close>. Otherwise it is the float sum of the values that are not missing: their
  arithmetic sum, rounding aside, when the magnitudes of the finite values add up to
  less than the bound at which a float overflows. The Profit Margin field is the
  library's mean of the category's Profit Margin values: under the same bound the
  arithmetic mean of the values that are not missing, NaN when all are missing, and so
  the arithmetic mean of all the values of a category in which none is missing.
\<close>

theorem category_aggregate:
  assumes "category_metrics v d = Inr out" and "aligned d n"
  shows "\<exists>cat ss ps ms.
     Category d = Some cat \<and> Sales d = Some (map NVal ss) \<and>
     Profit d = Some (map NVal ps) \<and> Profit_Margin d = Some ms \<and>
     distinct (map m_category out) \<and>
     set (map m_category out) = {c. Some c \<in> set cat} \<and>
     length out = card {c. Some c \<in> set cat} \<and>
     (\<forall>r\<in>set out.
        (let rows = group_rows cat (m_category r);
             xs = map (nth ss) rows; ys = map (nth ps) rows; zs = map (nth ms) rows
         in rows \<noteq> [] \<and>
            m_sales r = gsum xs \<and> m_profit r = gsum ys \<and> m_margin r = gmean zs \<and>
            (list_all is_int xs \<longrightarrow> m_sales r = I64 (word_of_int (sum_list (map int_of xs)))) \<and>
            (int_safe xs \<longrightarrow> to_float (m_sales r) = arith_sum xs) \<and>
            (\<not> list_all is_int xs \<and> float_safe xs \<longrightarrow> m_sales r = arith_sum (valid xs)) \<and>
            (list_all is_int ys \<longrightarrow> m_profit r = I64 (word_of_int (sum_list (map int_of ys)))) \<and>
            (int_safe ys \<longrightarrow> to_float (m_profit r) = arith_sum ys) \<and>
            (\<not> list_all is_int ys \<and> float_safe ys \<longrightarrow> m_profit r = arith_sum (valid ys)) \<and>
            (float_safe zs \<longrightarrow>
               m_margin r = (if valid zs = [] then NaN else arith_mean (valid zs))) \<and>
            (float_safe zs \<and> (\<forall>z\<in>set zs. \<not> isna z) \<longrightarrow> m_margin r = arith_mean zs)))"
proof -
  from category_metrics_Inr [OF assms(1)] obtain cat ss ps ms where
    cols: "Category d = Some cat" "Sales d = Some (map NVal ss)"
      "Profit d = Some (map NVal ps)" "Profit_Margin d = Some ms" and
    keys: "map m_category out = group_keys cat" and
    rows: "\<And>r. r \<in> set out \<Longrightarrow> m_sales r = gsum (members cat ss (m_category r)) \<and>
        m_profit r = gsum (members cat ps (m_category r)) \<and>
        m_margin r = gmean (members cat ms (m_category r))"
    by blast
  from cols assms(2) have len: "length ss = length cat" "length ps = length cat"
    "length ms = length cat"
    by (simp_all add: aligned_def col_rows_def)
  have d: "distinct (map m_category out)"
    by (simp add: keys distinct_group_keys)
  have s: "set (map m_category out) = {c. Some c \<in> set cat}"
    by (simp only: keys set_group_keys)
  have "length out = length (map m_category out)" by simp
  also have "\<dots> = card {c. Some c \<in> set cat}"
    by (simp only: keys length_group_keys)
  finally have l: "length out = card {c. Some c \<in> set cat}" .
  have r: "(let rows = group_rows cat (m_category r);
             xs = map (nth ss) rows; ys = map (nth ps) rows; zs = map (nth ms) rows
         in rows \<noteq> [] \<and>
            m_sales r = gsum xs \<and> m_profit r = gsum ys \<and> m_margin r = gmean zs \<and>
            (list_all is_int xs \<longrightarrow> m_sales r = I64 (word_of_int (sum_list (map int_of xs)))) \<and>
            (int_safe xs \<longrightarrow> to_float (m_sales r) = arith_sum xs) \<and>
            (\<not> list_all is_int xs \<and> float_safe xs \<longrightarrow> m_sales r = arith_sum (valid xs)) \<and>
            (list_all is_int ys \<longrightarrow> m_profit r = I64 (word_of_int (sum_list (map int_of ys)))) \<and>
            (int_safe ys \<longrightarrow> to_float (m_profit r) = arith_sum ys) \<and>
            (\<not> list_all is_int ys \<and> float_safe ys \<longrightarrow> m_profit r = arith_sum (valid ys)) \<and>
            (float_safe zs \<longrightarrow>
               m_margin r = (if valid zs = [] then NaN else arith_mean (valid zs))) \<and>
            (float_safe zs \<and> (\<forall>z\<in>set zs. \<not> isna z) \<longrightarrow> m_margin r = arith_mean zs))"
    if "r \<in> set out" for r
  proof -
    define xs where "xs = map (nth ss) (group_rows cat (m_category r))"
    define ys where "ys = map (nth ps) (group_rows cat (m_category r))"
    define zs where "zs = map (nth ms) (group_rows cat (m_category r))"
    from that have "m_category r \<in> set (map m_category out)" by simp
    then have "m_category r \<in> set (group_keys cat)" by (simp only: keys)
    then have ne: "group_rows cat (m_category r) \<noteq> []" by (rule group_rows_nonempty)
    then have nes: "xs \<noteq> []" "ys \<noteq> []" by (simp_all add: xs_def ys_def)
    from rows [OF that] len have f: "m_sales r = gsum xs" "m_profit r = gsum ys"
      "m_margin r = gmean zs"
      by (simp_all add: members_nth xs_def ys_def zs_def)
    have "m_sales r = I64 (word_of_int (sum_list (map int_of xs)))" if "list_all is_int xs"
      using gsum_int [OF nes(1) that] f(1) by simp
    moreover have "to_float (m_sales r) = arith_sum xs" if "int_safe xs"
      using gsum_int_safe [OF nes(1) that] f(1) by simp
    moreover have "m_sales r = arith_sum (valid xs)" if "\<not> list_all is_int xs \<and> float_safe xs"
      using gsum_float [of xs] that f(1) by simp
    moreover have "m_profit r = I64 (word_of_int (sum_list (map int_of ys)))" if "list_all is_int ys"
      using gsum_int [OF nes(2) that] f(2) by simp
    moreover have "to_float (m_profit r) = arith_sum ys" if "int_safe ys"
      using gsum_int_safe [OF nes(2) that] f(2) by simp
    moreover have "m_profit r = arith_sum (valid ys)" if "\<not> list_all is_int ys \<and> float_safe ys"
      using gsum_float [of ys] that f(2) by simp
    moreover have m: "m_margin r = (if valid zs = [] then NaN else arith_mean (valid zs))"
      if "float_safe zs"
      using gmean_exact [OF that] f(3) by simp
    moreover have "m_margin r = arith_mean zs" if "float_safe zs \<and> (\<forall>z\<in>set zs. \<not> isna z)"
    proof -
      from that have v: "valid zs = zs" by (simp add: valid_id)
      from ne len have "zs \<noteq> []" by (simp add: zs_def)
      with m that v show ?thesis by simp
    qed
    ultimately have "group_rows cat (m_category r) \<noteq> [] \<and>
            m_sales r = gsum xs \<and> m_profit r = gsum ys \<and> m_margin r = gmean zs \<and>
            (list_all is_int xs \<longrightarrow> m_sales r = I64 (word_of_int (sum_list (map int_of xs)))) \<and>
            (int_safe xs \<longrightarrow> to_float (m_sales r) = arith_sum xs) \<and>
            (\<not> list_all is_int xs \<and> float_safe xs \<longrightarrow> m_sales r = arith_sum (valid xs)) \<and>
            (list_all is_int ys \<longrightarrow> m_profit r = I64 (word_of_int (sum_list (map int_of ys)))) \<and>
            (int_safe ys \<longrightarrow> to_float (m_profit r) = arith_sum ys) \<and>
            (\<not> list_all is_int ys \<and> float_safe ys \<longrightarrow> m_profit r = arith_sum (valid ys)) \<and>
            (float_safe zs \<longrightarrow>
               m_margin r = (if valid zs = [] then NaN else arith_mean (valid zs))) \<and>
            (float_safe zs \<and> (\<forall>z\<in>set zs. \<not> isna z) \<longrightarrow> m_margin r = arith_mean zs)"
      using ne f by blast
    then show ?thesis unfolding Let_def xs_def ys_def zs_def .
  qed
  from cols d s l r show ?thesis
    by (intro exI [of _ cat] exI [of _ ss] exI [of _ ps] exI [of _ ms]) blast
qed

theorem category_aggregate_witness:
  "category_metrics Hello store_ready =
     Inr [\<lparr>m_category = ''Office'', m_sales = I64 200, m_profit = Fin 40,
            m_margin = Fin (1 / 5), m_abs = Some (Fin 40)\<rparr>,
          \<lparr>m_category = ''Tech'', m_sales = I64 150, m_profit = Fin 10,
            m_margin = Fin 0, m_abs = Some (Fin 15)\<rparr>] \<and>
   aligned store_ready 3 \<and>
   card {c. Some c \<in> set [Some ''Tech'', Some ''Tech'', Some ''Office'']} = 2 \<and>
   group_rows [Some ''Tech'', Some ''Tech'', Some ''Office''] ''Tech'' = [0, 1] \<and>
   int_safe [I64 100, I64 50] \<and>
   to_float (I64 150) = arith_sum [I64 100, I64 50] \<and>
   \<not> list_all is_int [Fin 20, Fin (- 10)] \<and> float_safe [Fin 20, Fin (- 10)] \<and>
   Fin 10 = arith_sum (valid [Fin 20, Fin (- 10)]) \<and>
   float_safe [Fin (1 / 5), Fin (- (1 / 5))] \<and>
   Fin 0 = arith_mean [Fin (1 / 5), Fin (- (1 / 5))]"
proof -
  from category_aggregate [OF store_ready_metrics aligned_samples(2)]
  have "length [\<lparr>m_category = ''Office'', m_sales = I64 200, m_profit = Fin 40,
            m_margin = Fin (1 / 5), m_abs = Some (Fin 40)\<rparr>,
          \<lparr>m_category = ''Tech'', m_sales = I64 150, m_profit = Fin 10,
            m_margin = Fin 0, m_abs = Some (Fin 15)\<rparr>] =
        card {c. Some c \<in> set [Some ''Tech'', Some ''Tech'', Some ''Office'']}"
    by (auto simp: sample_defs)
  then have "card {c. Some c \<in> set [Some ''Tech'', Some ''Tech'', Some ''Office'']} = 2"
    by simp
  moreover have "group_rows [Some ''Tech'', Some ''Tech'', Some ''Office''] ''Tech'' = [0, 1]"
    by (simp add: group_rows_def upt_rec)
  moreover have "int_safe [I64 100, I64 50]" "float_safe [Fin 20, Fin (- 10)]"
    "float_safe [Fin (1 / 5), Fin (- (1 / 5))]"
    by (simp_all add: int_safe_def float_safe_def overflow_bound_def)
  moreover have "to_float (I64 150) = arith_sum [I64 100, I64 50]"
    "Fin 10 = arith_sum (valid [Fin 20, Fin (- 10)])"
    "Fin 0 = arith_mean [Fin (1 / 5), Fin (- (1 / 5))]"
    by (simp_all add: arith_mean_def arith_sum_def valid_def isna_def)
  ultimately show ?thesis
    using store_ready_metrics aligned_samples(2) by simp
qed

text \<open>
  As stated, C2 fails in two ways. Where a value is missing, the mean of the library
  skips it: in the Tech category of the first sample the per-row margins are NaN (no
  sales, no profit) and 1/2; the aggregate holds 1/2, their arithmetic mean is NaN.
  And the sum of an integer column wraps around: in the second sample the Sales of the
  Tech category are the greatest 64-bit integer and 1; the aggregate holds the least
  64-bit integer, \<^verbatim>\<open>-2^63\<close>, their arithmetic sum is \<^verbatim>\<open>2^63\<close>.
\<close>

theorem category_aggregate_counterexample:
  "exec (preprocessing Analysis sample_parsers) (loaded store_zero) =
     (None, \<lparr>df = store_zero_ready, shown = []\<rparr>) \<and>
   category_metrics Analysis store_zero_ready =
     Inr [\<lparr>m_category = ''Office'', m_sales = Fin 0, m_profit = Fin 5, m_margin = PInf,
            m_abs = None\<rparr>,
          \<lparr>m_category = ''Tech'', m_sales = Fin 2, m_profit = Fin 1, m_margin = Fin (1 / 2),
            m_abs = None\<rparr>] \<and>
   Category store_zero_ready = Some [Some ''Tech'', Some ''Tech'', Some ''Office''] \<and>
   Profit_Margin store_zero_ready = Some [NaN, Fin (1 / 2), PInf] \<and>
   members [Some ''Tech'', Some ''Tech'', Some ''Office''] [NaN, Fin (1 / 2), PInf] ''Tech'' =
     [NaN, Fin (1 / 2)] \<and>
   arith_mean [NaN, Fin (1 / 2)] = NaN \<and>
   Fin (1 / 2) \<noteq> arith_mean [NaN, Fin (1 / 2)] \<and>
   exec (preprocessing Hello sample_parsers) (loaded store_extreme) =
     (None, \<lparr>df = store_extreme_ready, shown = []\<rparr>) \<and>
   category_metrics Hello store_extreme_ready =
     Inr [\<lparr>m_category = ''Tech'', m_sales = I64 int64_min, m_profit = I64 (int64_min + 1),
            m_margin = Fin (- 1 / 18446744073709551614),
            m_abs = Some (Fin (- 9223372036854775807 / 2))\<rparr>] \<and>
   Category store_extreme_ready = Some [Some ''Tech'', Some ''Tech''] \<and>
   Sales store_extreme_ready = Some [NVal (I64 9223372036854775807), NVal (I64 1)] \<and>
   arith_sum [I64 9223372036854775807, I64 1] = Fin 9223372036854775808 \<and>
   to_float (I64 int64_min) = Fin (- 9223372036854775808) \<and>
   to_float (I64 int64_min) \<noteq> arith_sum [I64 9223372036854775807, I64 1]"
proof -
  have "Category store_zero_ready = Some [Some ''Tech'', Some ''Tech'', Some ''Office'']"
    "Profit_Margin store_zero_ready = Some [NaN, Fin (1 / 2), PInf]"
    "Category store_extreme_ready = Some [Some ''Tech'', Some ''Tech'']"
    "Sales store_extreme_ready = Some [NVal (I64 9223372036854775807), NVal (I64 1)]"
    by (simp_all add: sample_defs)
  moreover have
    "members [Some ''Tech'', Some ''Tech'', Some ''Office''] [NaN, Fin (1 / 2), PInf] ''Tech'' =
       [NaN, Fin (1 / 2)]"
    by (simp add: members_def)
  moreover have "arith_mean [NaN, Fin (1 / 2)] = NaN"
    by (simp add: arith_mean_def arith_sum_def)
  moreover have "arith_sum [I64 9223372036854775807, I64 1] = Fin 9223372036854775808"
    "to_float (I64 int64_min) = Fin (- 9223372036854775808)"
    by (simp_all add: arith_sum_def int64_min_def del: of_int_sint)
  ultimately show ?thesis
    using store_zero_prepared store_zero_metrics store_extreme_prepared store_extreme_metrics
    by simp
qed

text \<open>
  C3 (as amended). The temporal-category aggregate of a table of \<open>n\<close> rows has one row
  per pair of time bucket and Category that is the key of at least one table row, and
  no other. The Sales field of a pair is the sum over exactly the rows with that key.
  A row with an order date and a Category belongs to exactly one group, the one of its
  own key; a row whose order date is NaT or whose Category is missing has no key and
  belongs to no group.
\<close>

theorem temporal_aggregate:
  assumes "temporal v d = Inr out" and "aligned d n"
  shows "\<exists>ts cat ss ks.
     Order_Date d = Some (map DVal ts) \<and> Category d = Some cat \<and>
     Sales d = Some (map NVal ss) \<and> ks = row_keys v ts cat \<and> length ks = n \<and>
     (\<forall>i<n. ks ! i = pair_key v (ts ! i) (cat ! i)) \<and>
     map (\<lambda>r. (t_bucket r, t_category r)) out = group_keys ks \<and>
     distinct (map (\<lambda>r. (t_bucket r, t_category r)) out) \<and>
     (\<forall>r\<in>set out. \<exists>i<n. ks ! i = Some (t_bucket r, t_category r)) \<and>
     (\<forall>r\<in>set out.
        t_sales r = gsum (map (nth ss) (group_rows ks (t_bucket r, t_category r)))) \<and>
     (\<forall>i<n. \<forall>k. ks ! i = Some k \<longrightarrow> groups_of_row ks i = [k]) \<and>
     (\<forall>i<n. ks ! i = None \<longrightarrow> groups_of_row ks i = []) \<and>
     (\<forall>i<n. ks ! i = None \<longleftrightarrow> ts ! i = None \<or> cat ! i = None)"
proof -
  from assms(1) obtain ts cat ss where
    cols: "Order_Date d = Some (map DVal ts)" "Category d = Some cat"
      "Sales d = Some (map NVal ss)" and
    out: "out = map (\<lambda>k. \<lparr>t_bucket = fst k, t_category = snd k,
                    t_sales = gsum (members (row_keys v ts cat) ss k)\<rparr>)
            (group_keys (row_keys v ts cat))"
    unfolding temporal_Inr by blast
  define ks where "ks = row_keys v ts cat"
  from cols assms(2) have len: "length ts = n" "length cat = n" "length ss = n"
    by (simp_all add: aligned_def col_rows_def)
  then have lk: "length ks = n" by (simp add: ks_def row_keys_def)
  have nth: "ks ! i = pair_key v (ts ! i) (cat ! i)" if "i < n" for i
    using that len by (simp add: ks_def row_keys_def)
  have keys: "map (\<lambda>r. (t_bucket r, t_category r)) out = group_keys ks"
    by (simp add: out ks_def comp_def)
  then have dist: "distinct (map (\<lambda>r. (t_bucket r, t_category r)) out)"
    by (simp add: distinct_group_keys)
  have row: "(\<exists>i<n. ks ! i = Some (t_bucket r, t_category r)) \<and>
      t_sales r = gsum (map (nth ss) (group_rows ks (t_bucket r, t_category r)))"
    if "r \<in> set out" for r
  proof -
    from that obtain k where k: "k \<in> set (group_keys ks)"
      "r = \<lparr>t_bucket = fst k, t_category = snd k, t_sales = gsum (members ks ss k)\<rparr>"
      by (auto simp: out ks_def)
    from k(1) have "Some k \<in> set ks" by (simp add: set_group_keys)
    then obtain i where "i < length ks" "ks ! i = Some k" by (auto simp: in_set_conv_nth)
    with lk k(2) have "\<exists>i<n. ks ! i = Some (t_bucket r, t_category r)" by auto
    moreover from k(2) lk len have
      "t_sales r = gsum (map (nth ss) (group_rows ks (t_bucket r, t_category r)))"
      by (simp add: members_nth)
    ultimately show ?thesis by simp
  qed
  have one: "groups_of_row ks i = [k]" if "i < n" "ks ! i = Some k" for i k
    using that lk by (simp add: groups_of_row_Some)
  have none: "groups_of_row ks i = []" if "ks ! i = None" for i
    using that by (rule groups_of_row_None)
  have miss: "ks ! i = None \<longleftrightarrow> ts ! i = None \<or> cat ! i = None" if "i < n" for i
    using that by (simp add: nth pair_key_None)
  from cols lk nth keys dist row one none miss show ?thesis
    by (intro exI [of _ ts] exI [of _ cat] exI [of _ ss] exI [of _ ks])
      (simp add: ks_def [symmetric])
qed

theorem temporal_aggregate_witness:
  "temporal Hello store_gaps =
     Inr [\<lparr>t_bucket = (2023, 1, 31, 0), t_category = ''Tech'', t_sales = I64 100\<rparr>] \<and>
   aligned store_gaps 3 \<and>
   groups_of_row [Some ((2023 :: int, 1 :: nat, 31 :: nat, 0 :: nat), ''Tech''), None, None] 0 = [((2023, 1, 31, 0), ''Tech'')]"
proof -
  from temporal_aggregate [OF store_gaps_temporal aligned_samples(5)]
  have "\<forall>i<3. \<forall>k. row_keys Hello [Some (2023, 1, 5, 0), None, Some (2023, 2, 1, 0)]
      [Some ''Tech'', Some ''Tech'', None] ! i = Some k \<longrightarrow>
      groups_of_row (row_keys Hello [Some (2023, 1, 5, 0), None, Some (2023, 2, 1, 0)]
      [Some ''Tech'', Some ''Tech'', None]) i = [k]"
    by (auto simp: sample_defs)
  then have "groups_of_row [Some ((2023 :: int, 1 :: nat, 31 :: nat, 0 :: nat), ''Tech''), None, None] 0 =
     [((2023, 1, 31, 0), ''Tech'')]"
    unfolding store_gaps_keys by simp
  with store_gaps_temporal aligned_samples(5) show ?thesis by simp
qed

text \<open>
  As stated, C3 fails for rows with gaps: grouping drops a row whose key is missing.
  In the sample the second row has no order date and the third no Category; neither
  belongs to a group, and of the Sales 100, 50 and 200 only the 100 reaches a sum.
\<close>

theorem temporal_partition_counterexample:
  "exec (preprocessing Hello sample_parsers) (loaded store_gaps_loaded) =
     (None, \<lparr>df = store_gaps, shown = []\<rparr>) \<and>
   temporal Hello store_gaps =
     Inr [\<lparr>t_bucket = (2023, 1, 31, 0), t_category = ''Tech'', t_sales = I64 100\<rparr>] \<and>
   Order_Date store_gaps = Some (map DVal [Some (2023, 1, 5, 0), None, Some (2023, 2, 1, 0)]) \<and>
   Category store_gaps = Some [Some ''Tech'', Some ''Tech'', None] \<and>
   Sales store_gaps = Some (map NVal [I64 100, I64 50, I64 200]) \<and>
   row_keys Hello [Some (2023, 1, 5, 0), None, Some (2023, 2, 1, 0)]
      [Some ''Tech'', Some ''Tech'', None] =
     [Some ((2023, 1, 31, 0), ''Tech''), None, None] \<and>
   groups_of_row [Some ((2023 :: int, 1 :: nat, 31 :: nat, 0 :: nat), ''Tech''), None, None] 1 = [] \<and>
   groups_of_row [Some ((2023 :: int, 1 :: nat, 31 :: nat, 0 :: nat), ''Tech''), None, None] 2 = []"
proof -
  have "Order_Date store_gaps = Some (map DVal [Some (2023, 1, 5, 0), None, Some (2023, 2, 1, 0)])"
    "Category store_gaps = Some [Some ''Tech'', Some ''Tech'', None]"
    "Sales store_gaps = Some (map NVal [I64 100, I64 50, I64 200])"
    by (simp_all add: sample_defs)
  moreover have "groups_of_row [Some ((2023 :: int, 1 :: nat, 31 :: nat, 0 :: nat), ''Tech''), None, None] 1 = []"
    "groups_of_row [Some ((2023 :: int, 1 :: nat, 31 :: nat, 0 :: nat), ''Tech''), None, None] 2 = []"
    by (simp_all add: groups_of_row_None)
  ultimately show ?thesis
    using store_gaps_prepared store_gaps_temporal store_gaps_keys by simp
qed

text \<open>
  C4 (as amended). The type coercion comes first in the preprocessing block of both
  scripts and leaves the derived columns as they were. In both it turns the order dates
  into datetime values. Only \<^verbatim>\<open>hello.py\<close> parses Sales and Profit into numbers;
  \<^verbatim>\<open>superstore_analysis.py\<close> has no such step and leaves the two columns as loaded.
\<close>

theorem coercion_by_script:
  assumes "exec (coercion v P) (loaded d) = (None, s)"
  shows "preprocessing v P = coercion v P @ derive v \<and>
         datetime_column (Order_Date (df s)) \<and>
         Profit_Margin (df s) = Profit_Margin d \<and>
         Absolute_Profit (df s) = Absolute_Profit d \<and>
         (v = Hello \<longrightarrow> numeric_column (Sales (df s)) \<and> numeric_column (Profit (df s))) \<and>
         (v = Analysis \<longrightarrow> Sales (df s) = Sales d \<and> Profit (df s) = Profit d)"
proof (cases v)
  case Hello
  with assms obtain ts ss ps where
    "s = (loaded d)\<lparr>df := (df (loaded d))\<lparr>Order_Date := Some (map DVal ts),
           Sales := Some (map NVal ss), Profit := Some (map NVal ps)\<rparr>\<rparr>"
    using coercion_Hello [of P "loaded d" s] by blast
  with Hello show ?thesis
    by (simp add: preprocessing_def loaded_def numeric_column_NVal datetime_column_DVal)
next
  case Analysis
  with assms obtain ts where
    "s = (loaded d)\<lparr>df := (df (loaded d))\<lparr>Order_Date := Some (map DVal ts)\<rparr>\<rparr>"
    using coercion_Analysis [of P "loaded d" s] by blast
  with Analysis show ?thesis
    by (simp add: preprocessing_def loaded_def datetime_column_DVal)
qed

theorem coercion_by_script_witness:
  "exec (coercion Hello sample_parsers) (loaded store) =
     (None, \<lparr>df = store_ready\<lparr>Profit_Margin := None, Absolute_Profit := None\<rparr>,
             shown = []\<rparr>) \<and>
   datetime_column (Order_Date store_ready) \<and>
   numeric_column (Sales store_ready) \<and> numeric_column (Profit store_ready) \<and>
   exec (coercion Analysis sample_parsers) (loaded store_bad_sales) =
     (None, \<lparr>df = store_bad_sales\<lparr>Order_Date := Some (map DVal january)\<rparr>, shown = []\<rparr>) \<and>
   Sales (store_bad_sales\<lparr>Order_Date := Some (map DVal january)\<rparr>) = Sales store_bad_sales"
proof -
  have h: "exec (coercion Hello sample_parsers) (loaded store) =
     (None, \<lparr>df = store_ready\<lparr>Profit_Margin := None, Absolute_Profit := None\<rparr>,
             shown = []\<rparr>)"
    by (simp add: run_defs sample_defs)
  have a: "exec (coercion Analysis sample_parsers) (loaded store_bad_sales) =
     (None, \<lparr>df = store_bad_sales\<lparr>Order_Date := Some (map DVal january)\<rparr>, shown = []\<rparr>)"
    by (simp add: run_defs sample_defs)
  from coercion_by_script [OF h] coercion_by_script [OF a] h a show ?thesis by simp
qed

text \<open>
  As stated, C4 fails for \<^verbatim>\<open>superstore_analysis.py\<close>: on a table whose Sales column
  holds text, its coercion step ends without an error and Sales is still text; the
  division of the derive step then raises a TypeError.
\<close>

theorem coercion_counterexample:
  "exec (coercion Analysis sample_parsers) (loaded store_bad_sales) =
     (None, \<lparr>df = store_bad_sales\<lparr>Order_Date := Some (map DVal january)\<rparr>, shown = []\<rparr>) \<and>
   \<not> numeric_column (Sales (store_bad_sales\<lparr>Order_Date := Some (map DVal january)\<rparr>)) \<and>
   fst (exec (preprocessing Analysis sample_parsers) (loaded store_bad_sales)) = Some TypeError"
  by (simp add: run_defs sample_defs numeric_column_def)

text \<open>
  C5. The two scripts bucket time differently: \<^verbatim>\<open>hello.py\<close> groups by the month
  end of the order date, \<^verbatim>\<open>superstore_analysis.py\<close> by the order date itself. On
  every table that has two rows of the same Category with distinct order dates in the
  same calendar month, the aggregate of \<^verbatim>\<open>hello.py\<close> has fewer rows than that of
  \<^verbatim>\<open>superstore_analysis.py\<close>, so the two are not equal.
\<close>

theorem bucketing_differs:
  assumes "temporal Hello d = Inr h" and "temporal Analysis d = Inr a" and "aligned d n"
    and "Order_Date d = Some (map DVal ts)" and "Category d = Some cat"
    and "i < n" and "j < n"
    and "ts ! i = Some t1" and "ts ! j = Some t2" and "t1 \<noteq> t2" and "same_month t1 t2"
    and "cat ! i = Some c" and "cat ! j = Some c"
  shows "length h < length a \<and> h \<noteq> a"
proof -
  define ka where "ka = row_keys Analysis ts cat"
  define A where "A = {k. Some k \<in> set ka}"
  from assms(1,4,5) have "length h = length (group_keys (row_keys Hello ts cat))"
    by (auto simp: temporal_Inr)
  then have h: "length h = card (month_key ` A)"
    by (simp add: length_group_keys row_keys_Hello keys_image A_def ka_def)
  from assms(2,4,5) have "length a = length (group_keys ka)"
    by (auto simp: temporal_Inr ka_def)
  then have a: "length a = card A"
    by (simp add: length_group_keys A_def)
  from assms(3,4,5) have len: "length ts = n" "length cat = n"
    by (simp_all add: aligned_def col_rows_def)
  then have lk: "length ka = n" by (simp add: ka_def row_keys_def)
  have "ka ! i = Some (t1, c)" "ka ! j = Some (t2, c)"
    using assms(6-9,12,13) len by (simp_all add: ka_def row_keys_def)
  with assms(6,7) lk have mem: "(t1, c) \<in> A" "(t2, c) \<in> A"
    unfolding A_def by (metis mem_Collect_eq nth_mem)+
  have fin: "finite A"
  proof -
    have "A \<subseteq> the ` set ka" by (force simp: A_def image_iff)
    then show ?thesis by (rule finite_subset) simp
  qed
  have "month_key (t1, c) = month_key (t2, c)"
    using assms(11) by (simp add: month_key_def same_month_end)
  with fin mem assms(10) have "card (month_key ` A) < card A"
    by (intro card_image_less [of A "(t1, c)" "(t2, c)"]) simp_all
  with h a show ?thesis by auto
qed

theorem bucketing_differs_witness:
  "temporal Hello store_ready =
     Inr [\<lparr>t_bucket = (2023, 1, 31, 0), t_category = ''Tech'', t_sales = I64 150\<rparr>,
          \<lparr>t_bucket = (2023, 2, 28, 0), t_category = ''Office'', t_sales = I64 200\<rparr>] \<and>
   temporal Analysis store_ready =
     Inr [\<lparr>t_bucket = (2023, 1, 5, 0), t_category = ''Tech'', t_sales = I64 100\<rparr>,
          \<lparr>t_bucket = (2023, 1, 20, 0), t_category = ''Tech'', t_sales = I64 50\<rparr>,
          \<lparr>t_bucket = (2023, 2, 1, 0), t_category = ''Office'', t_sales = I64 200\<rparr>] \<and>
   aligned store_ready 3 \<and>
   Order_Date store_ready = Some (map DVal january) \<and>
   Category store_ready = Some [Some ''Tech'', Some ''Tech'', Some ''Office''] \<and>
   january ! 0 = Some (2023, 1, 5, 0) \<and> january ! 1 = Some (2023, 1, 20, 0) \<and>
   (2023 :: int, 1 :: nat, 5 :: nat, 0 :: nat) \<noteq> (2023, 1, 20, 0) \<and>
   same_month (2023, 1, 5, 0) (2023, 1, 20, 0) \<and>
   [Some ''Tech'', Some ''Tech'', Some ''Office''] ! 0 = Some ''Tech'' \<and>
   [Some ''Tech'', Some ''Tech'', Some ''Office''] ! 1 = Some ''Tech'' \<and>
   length [\<lparr>t_bucket = (2023, 1, 31, 0), t_category = ''Tech'', t_sales = I64 150\<rparr>,
          \<lparr>t_bucket = (2023, 2, 28, 0), t_category = ''Office'', t_sales = I64 200\<rparr>] <
   length [\<lparr>t_bucket = (2023, 1, 5, 0), t_category = ''Tech'', t_sales = I64 100\<rparr>,
          \<lparr>t_bucket = (2023, 1, 20, 0), t_category = ''Tech'', t_sales = I64 50\<rparr>,
          \<lparr>t_bucket = (2023, 2, 1, 0), t_category = ''Office'', t_sales = I64 200\<rparr>]"
proof -
  have od: "Order_Date store_ready = Some (map DVal january)"
    and cat: "Category store_ready = Some [Some ''Tech'', Some ''Tech'', Some ''Office'']"
    by (simp_all add: sample_defs)
  have i: "(0::nat) < 3" and j: "(1::nat) < 3" by simp_all
  have t1: "january ! 0 = Some (2023, 1, 5, 0)" and t2: "january ! 1 = Some (2023, 1, 20, 0)"
    by (simp_all add: january_def)
  have ne: "(2023 :: int, 1 :: nat, 5 :: nat, 0 :: nat) \<noteq> (2023, 1, 20, 0)" by simp
  have sm: "same_month (2023, 1, 5, 0) (2023, 1, 20, 0)" by simp
  have c1: "[Some ''Tech'', Some ''Tech'', Some ''Office''] ! 0 = Some ''Tech''"
    and c2: "[Some ''Tech'', Some ''Tech'', Some ''Office''] ! 1 = Some ''Tech''"
    by simp_all
  from bucketing_differs [OF store_ready_temporal(1) store_ready_temporal(2)
      aligned_samples(2) od cat i j t1 t2 ne sm c1 c2]
  have r: "length [\<lparr>t_bucket = (2023, 1, 31, 0), t_category = ''Tech'', t_sales = I64 150\<rparr>,
          \<lparr>t_bucket = (2023, 2, 28, 0), t_category = ''Office'', t_sales = I64 200\<rparr>] <
   length [\<lparr>t_bucket = (2023, 1, 5, 0), t_category = ''Tech'', t_sales = I64 100\<rparr>,
          \<lparr>t_bucket = (2023, 1, 20, 0), t_category = ''Tech'', t_sales = I64 50\<rparr>,
          \<lparr>t_bucket = (2023, 2, 1, 0), t_category = ''Office'', t_sales = I64 200\<rparr>]"
    by (rule conjunct1)
  show ?thesis
    by (intro conjI)
      (fact store_ready_temporal aligned_samples(2) od cat t1 t2 ne sm c1 c2 r)+
qed

text \<open>
  C6 (as amended). When the loaded table lacks the Order Date, Sales or Profit column,
  or holds an order date that does not parse or a Sales or Profit value that is not a
  number, the run ends with an error raised inside the preprocessing block, and nothing
  has been shown: no row is skipped, nothing is retried, no chart is produced.
\<close>

theorem preparation_fault_aborts:
  assumes "preparation_fault v P d"
  shows "\<exists>e s. run v P d = (Some e, s) \<and> shown s = [] \<and>
           exec (preprocessing v P) (loaded d) = (Some e, s)"
proof -
  obtain r s where rs: "exec (preprocessing v P) (loaded d) = (r, s)"
    by (cases "exec (preprocessing v P) (loaded d)") auto
  with assms prepared_no_fault [of v P d s] obtain e where e: "r = Some e"
    by (cases r) auto
  from rs have "shown s = shown (loaded d)" by (rule preprocessing_keeps_shown)
  then have sh: "shown s = []" by (simp add: loaded_def)
  from rs e have "run v P d = (Some e, s)"
    unfolding run_def script_def by (simp add: exec_append_Some)
  with rs e sh show ?thesis by blast
qed

theorem preparation_fault_aborts_witness:
  "preparation_fault Hello sample_parsers store_bad_sales \<and>
   run Hello sample_parsers store_bad_sales =
     (Some ValueError,
      \<lparr>df = store_bad_sales\<lparr>Order_Date := Some (map DVal january)\<rparr>, shown = []\<rparr>) \<and>
   (\<exists>e s. run Hello sample_parsers store_bad_sales = (Some e, s) \<and> shown s = [] \<and>
      exec (preprocessing Hello sample_parsers) (loaded store_bad_sales) = (Some e, s))"
proof -
  have f: "preparation_fault Hello sample_parsers store_bad_sales"
    by (simp add: preparation_fault_def column_has_def sample_defs)
  have "exec (preprocessing Hello sample_parsers) (loaded store_bad_sales) =
     (Some ValueError,
      \<lparr>df = store_bad_sales\<lparr>Order_Date := Some (map DVal january)\<rparr>, shown = []\<rparr>)"
    by (simp add: run_defs sample_defs)
  with preparation_fault_aborts [OF f] f show ?thesis by auto
qed

text \<open>
  As stated, C6 fails for the other expected columns: the preprocessing block does not
  read Category. Without that column \<^verbatim>\<open>hello.py\<close> shows its first two charts and
  only then fails with a KeyError, at the first \<^verbatim>\<open>groupby("Category")\<close>.
\<close>

theorem missing_category_counterexample:
  "''Category'' \<in> set expected_columns \<and>
   \<not> has_column store_no_category ''Category'' \<and>
   \<not> preparation_fault Hello sample_parsers store_no_category \<and>
   run Hello sample_parsers store_no_category =
     (Some (KeyError ''Category''),
      \<lparr>df = store_ready\<lparr>Category := None\<rparr>,
       shown = [Chart ''Distribution of Sales'' (Whole (store_ready\<lparr>Category := None\<rparr>)),
                Chart ''Distribution of Profits'' (Whole (store_ready\<lparr>Category := None\<rparr>))]\<rparr>)"
  by (simp add: expected_columns_def preparation_fault_def column_has_def chart_defs run_defs
      sample_defs)

text \<open>
  C7 (as amended). In a run of \<^verbatim>\<open>hello.py\<close> that completes on a table of \<open>n\<close> rows,
  the coercion step overwrites three columns of the loaded table in place: Order Date
  with the result of \<^verbatim>\<open>pd.to_datetime\<close>, Sales and Profit with the results of
  \<^verbatim>\<open>pd.to_numeric\<close>; it changes nothing else. The derive step changes the coerced
  table only by setting the two columns Profit Margin and Absolute Profit, computed row
  by row from Profit and Sales, so that the table keeps its \<open>n\<close> rows in their order and
  every other column; Category, Region and Discount are still those of the loaded
  table. The charts and aggregates that follow leave the table as it is, and the last
  thing shown is that table.
\<close>

theorem derive_adds_columns:
  assumes "run Hello P d = (None, s)" and "aligned d n"
  shows "\<exists>s1 s2 od sa pr ts ps ss figs.
     exec (coercion Hello P) (loaded d) = (None, s1) \<and>
     exec (derive Hello) s1 = (None, s2) \<and>
     exec (charts Hello) s2 = (None, s) \<and>
     Order_Date d = Some od \<and> to_datetime P od = Inr (map DVal ts) \<and>
     Sales d = Some sa \<and> to_numeric P sa = Inr (map NVal ss) \<and>
     Profit d = Some pr \<and> to_numeric P pr = Inr (map NVal ps) \<and>
     df s1 = d\<lparr>Order_Date := Some (map DVal ts), Sales := Some (map NVal ss),
                Profit := Some (map NVal ps)\<rparr> \<and>
     Profit (df s1) = Some (map NVal ps) \<and> Sales (df s1) = Some (map NVal ss) \<and>
     length ts = n \<and> length ps = n \<and> length ss = n \<and>
     Category (df s1) = Category d \<and> Region (df s1) = Region d \<and>
     Discount (df s1) = Discount d \<and>
     df s2 = (df s1)\<lparr>Profit_Margin := Some (map2 fdiv ps ss),
                      Absolute_Profit := Some (map fabs ps)\<rparr> \<and>
     aligned (df s2) n \<and>
     df s = df s2 \<and> shown s = figs @ [Table (df s2)]"
proof -
  from assms(1) obtain s1 s2 where
    c: "exec (coercion Hello P) (loaded d) = (None, s1)" and
    dv: "exec (derive Hello) s1 = (None, s2)" and
    ch: "exec (charts Hello) s2 = (None, s)"
    unfolding run_def script_def preprocessing_def exec_append_None by blast
  from coercion_Hello [OF c] obtain od sa pr ts ss ps where
    h: "Order_Date (df (loaded d)) = Some od" "Sales (df (loaded d)) = Some sa"
       "Profit (df (loaded d)) = Some pr"
       "length ts = length od" "length ss = length sa" "length ps = length pr"
       "s1 = (loaded d)\<lparr>df := (df (loaded d))\<lparr>Order_Date := Some (map DVal ts),
           Sales := Some (map NVal ss), Profit := Some (map NVal ps)\<rparr>\<rparr>" and
    p: "to_datetime P od = Inr (map DVal ts)" "to_numeric P sa = Inr (map NVal ss)"
       "to_numeric P pr = Inr (map NVal ps)"
    by blast
  from h(1-3) have ld: "Order_Date d = Some od" "Sales d = Some sa" "Profit d = Some pr"
    by (simp_all add: loaded_def)
  from h(1-3) assms(2) have len: "length od = n" "length sa = n" "length pr = n"
    by (simp_all add: loaded_def aligned_def col_rows_def)
  from h(7) have s1: "df s1 = d\<lparr>Order_Date := Some (map DVal ts), Sales := Some (map NVal ss),
                Profit := Some (map NVal ps)\<rparr>"
    by (simp add: loaded_def)
  from h(7) have cols: "Profit (df s1) = Some (map NVal ps)" "Sales (df s1) = Some (map NVal ss)"
    "Category (df s1) = Category d" "Region (df s1) = Region d"
    "Discount (df s1) = Discount d"
    by (simp_all add: loaded_def)
  from dv obtain ps' ss' where "Profit (df s1) = Some (map NVal ps')"
    "Sales (df s1) = Some (map NVal ss')"
    "s2 = s1\<lparr>df := (df s1)\<lparr>Profit_Margin := Some (map2 fdiv ps' ss'),
                   Absolute_Profit := Some (map fabs ps')\<rparr>\<rparr>"
    unfolding derive_Hello by blast
  with cols(1,2) have s2: "df s2 = (df s1)\<lparr>Profit_Margin := Some (map2 fdiv ps ss),
                      Absolute_Profit := Some (map fabs ps)\<rparr>"
    by simp
  from h(7) s2 assms(2) h(4-6) len have al: "aligned (df s2) n"
    by (simp add: loaded_def aligned_def col_rows_def)
  from charts_Hello_table [OF ch] obtain figs where
    t: "df s = df s2" "shown s = figs @ [Table (df s2)]" by blast
  from h(4-6) len have lens: "length ts = n" "length ps = n" "length ss = n" by simp_all
  show ?thesis
    apply (rule exI [of _ s1], rule exI [of _ s2], rule exI [of _ od], rule exI [of _ sa])
    apply (rule exI [of _ pr], rule exI [of _ ts], rule exI [of _ ps], rule exI [of _ ss])
    apply (rule exI [of _ figs])
    using c dv ch ld p s1 cols lens s2 al t by (intro conjI) assumption+
qed

theorem derive_adds_columns_witness:
  "run Hello sample_parsers store = (None, snd (run Hello sample_parsers store)) \<and>
   aligned store 3 \<and>
   df (snd (run Hello sample_parsers store)) = store_ready \<and>
   last (shown (snd (run Hello sample_parsers store))) = Table store_ready \<and>
   Category store_ready = Category store \<and>
   (\<exists>s1 s2 od sa pr ts ps ss figs.
     exec (coercion Hello sample_parsers) (loaded store) = (None, s1) \<and>
     exec (derive Hello) s1 = (None, s2) \<and>
     exec (charts Hello) s2 = (None, snd (run Hello sample_parsers store)) \<and>
     Order_Date store = Some od \<and> to_datetime sample_parsers od = Inr (map DVal ts) \<and>
     Sales store = Some sa \<and> to_numeric sample_parsers sa = Inr (map NVal ss) \<and>
     Profit store = Some pr \<and> to_numeric sample_parsers pr = Inr (map NVal ps) \<and>
     df s1 = store\<lparr>Order_Date := Some (map DVal ts), Sales := Some (map NVal ss),
                Profit := Some (map NVal ps)\<rparr> \<and>
     Profit (df s1) = Some (map NVal ps) \<and> Sales (df s1) = Some (map NVal ss) \<and>
     length ts = 3 \<and> length ps = 3 \<and> length ss = 3 \<and>
     Category (df s1) = Category store \<and> Region (df s1) = Region store \<and>
     Discount (df s1) = Discount store \<and>
     df s2 = (df s1)\<lparr>Profit_Margin := Some (map2 fdiv ps ss),
                      Absolute_Profit := Some (map fabs ps)\<rparr> \<and>
     aligned (df s2) 3 \<and>
     df (snd (run Hello sample_parsers store)) = df s2 \<and>
     shown (snd (run Hello sample_parsers store)) = figs @ [Table (df s2)])"
proof -
  have r: "run Hello sample_parsers store = (None, snd (run Hello sample_parsers store))"
    by (simp add: store_run)
  have c: "df (snd (run Hello sample_parsers store)) = store_ready"
    "last (shown (snd (run Hello sample_parsers store))) = Table store_ready"
    "Category store_ready = Category store"
    by (simp_all add: store_run) (simp add: sample_defs)
  from derive_adds_columns [OF r aligned_samples(1)] r aligned_samples(1) c
  show ?thesis by blast
qed

text \<open>
  As stated, C7 fails: the original columns do not all remain unchanged. In the sample
  run the loaded Order Date column holds text and the loaded Sales column holds text;
  after the run, and in the table shown last, Order Date holds timestamps and Sales
  holds integers. The two columns were overwritten by the coercion step.
\<close>

theorem coercion_overwrites_counterexample:
  "run Hello sample_parsers store = (None, snd (run Hello sample_parsers store)) \<and>
   last (shown (snd (run Hello sample_parsers store))) =
     Table (df (snd (run Hello sample_parsers store))) \<and>
   Order_Date store =
     Some [DText ''2023-01-05'', DText ''2023-01-20'', DText ''2023-02-01''] \<and>
   Order_Date (df (snd (run Hello sample_parsers store))) =
     Some [DVal (Some (2023, 1, 5, 0)), DVal (Some (2023, 1, 20, 0)),
           DVal (Some (2023, 2, 1, 0))] \<and>
   Order_Date (df (snd (run Hello sample_parsers store))) \<noteq> Order_Date store \<and>
   Sales store = Some [NText ''100'', NText ''50'', NText ''200''] \<and>
   Sales (df (snd (run Hello sample_parsers store))) =
     Some [NVal (I64 100), NVal (I64 50), NVal (I64 200)] \<and>
   Sales (df (snd (run Hello sample_parsers store))) \<noteq> Sales store"
proof -
  have "Order_Date store =
     Some [DText ''2023-01-05'', DText ''2023-01-20'', DText ''2023-02-01'']"
    "Sales store = Some [NText ''100'', NText ''50'', NText ''200'']"
    "Order_Date store_ready =
     Some [DVal (Some (2023, 1, 5, 0)), DVal (Some (2023, 1, 20, 0)),
           DVal (Some (2023, 2, 1, 0))]"
    "Sales store_ready = Some [NVal (I64 100), NVal (I64 50), NVal (I64 200)]"
    by (simp_all add: sample_defs)
  then show ?thesis by (simp add: store_run)
qed

text \<open>
  C8. Let \<open>k\<close> be a category whose only row, row \<open>i\<close>, has zero Sales (as a float or
  as an integer) after the preprocessing of either script. Then the Profit Margin of
  row \<open>i\<close> is an infinity or NaN, the category aggregate is computed without an error,
  and its row for \<open>k\<close> holds that same value as mean Profit Margin.
\<close>

theorem zero_sales_category:
  assumes "exec (preprocessing v P) (loaded d) = (None, s)" and "aligned d n"
    and "Category d = Some cat" and "i < n" and "cat ! i = Some k"
    and "\<forall>j<n. cat ! j = Some k \<longrightarrow> j = i"
    and "Sales (df s) = Some (map NVal ss)" and "ss ! i = Fin 0 \<or> ss ! i = I64 0"
  shows "\<exists>ms out r. Profit_Margin (df s) = Some ms \<and> ms ! i \<in> {PInf, NInf, NaN} \<and>
           category_metrics v (df s) = Inr out \<and> r \<in> set out \<and>
           m_category r = k \<and> m_margin r = ms ! i"
proof -
  from aligned_prepared [OF assms(1,2)] assms(7) obtain ps where
    cols: "Profit (df s) = Some (map NVal ps)" "Profit_Margin (df s) = Some (map2 fdiv ps ss)"
    and len: "length ps = n" "length ss = n"
    by auto
  define ms where "ms = map2 fdiv ps ss"
  from len have lms: "length ms = n" by (simp add: ms_def)
  from preprocessing_columns [OF assms(1)] assms(3) have cat: "Category (df s) = Some cat"
    by (auto simp: loaded_def)
  from assms(2,3) have lcat: "length cat = n" by (simp add: aligned_def col_rows_def)
  from assms(4) len have "ms ! i = fdiv (ps ! i) (ss ! i)" by (simp add: ms_def)
  with assms(8) have "ms ! i = fdiv (ps ! i) (Fin 0)" by auto
  then have inf: "ms ! i \<in> {PInf, NInf, NaN}" using fdiv_zero_sales [of "ps ! i"] by simp
  have "v = Hello \<longrightarrow> Absolute_Profit (df s) \<noteq> None"
    using assms(1) preprocessing_absolute by blast
  from category_metrics_total [OF cat assms(7) cols(1) cols(2) this]
  obtain out where out: "category_metrics v (df s) = Inr out" by blast
  from category_metrics_Inr [OF out] cat cols(2) have
    keys: "map m_category out = group_keys cat" and
    rows: "\<forall>r\<in>set out. m_margin r = gmean (members cat ms (m_category r))"
    by (auto simp: ms_def)
  from assms(4,5) lcat have "k \<in> set (group_keys cat)"
    by (auto simp: set_group_keys dest: nth_mem)
  then have "k \<in> set (map m_category out)" by (simp only: keys)
  then obtain r where r: "r \<in> set out" "m_category r = k" by auto
  have "group_rows cat k = [i]"
  proof (rule group_rows_single)
    show "i < length cat" using assms(4) lcat by simp
    show "cat ! i = Some k" by (rule assms(5))
    show "\<forall>j<length cat. cat ! j = Some k \<longrightarrow> j = i"
      using assms(6) unfolding lcat .
  qed
  with lms lcat have "members cat ms k = [ms ! i]" by (simp add: members_nth)
  with rows r inf have "m_margin r = ms ! i" by (simp add: gmean_single)
  with cols(2) inf out r show ?thesis
    by (intro exI [of _ ms] exI [of _ out] exI [of _ r]) (simp add: ms_def)
qed

theorem zero_sales_category_witness:
  "exec (preprocessing Analysis sample_parsers) (loaded store_zero) =
     (None, \<lparr>df = store_zero_ready, shown = []\<rparr>) \<and>
   aligned store_zero 3 \<and>
   Category store_zero = Some [Some ''Tech'', Some ''Tech'', Some ''Office''] \<and>
   [Some ''Tech'', Some ''Tech'', Some ''Office''] ! 2 = Some ''Office'' \<and>
   group_rows [Some ''Tech'', Some ''Tech'', Some ''Office''] ''Office'' = [2] \<and>
   Sales store_zero_ready = Some (map NVal [Fin 0, Fin 2, Fin 0]) \<and>
   [Fin 0, Fin 2, Fin 0 :: num] ! 2 = Fin 0 \<and>
   (\<exists>ms out r. Profit_Margin store_zero_ready = Some ms \<and> ms ! 2 \<in> {PInf, NInf, NaN} \<and>
      category_metrics Analysis store_zero_ready = Inr out \<and> r \<in> set out \<and>
      m_category r = ''Office'' \<and> m_margin r = ms ! 2)"
proof -
  have c: "Category store_zero = Some [Some ''Tech'', Some ''Tech'', Some ''Office'']"
    and s: "Sales store_zero_ready = Some (map NVal [Fin 0, Fin 2, Fin 0])"
    by (simp_all add: sample_defs)
  from s have s': "Sales (df \<lparr>df = store_zero_ready, shown = []\<rparr>) =
      Some (map NVal [Fin 0, Fin 2, Fin 0])"
    by simp
  have i: "(2::nat) < 3" by simp
  have k: "[Some ''Tech'', Some ''Tech'', Some ''Office''] ! 2 = Some ''Office''" by simp
  have u: "\<forall>j<3. [Some ''Tech'', Some ''Tech'', Some ''Office''] ! j = Some ''Office'' \<longrightarrow> j = 2"
    by (auto simp: less_Suc_eq numeral_3_eq_3)
  have z0: "[Fin 0, Fin 2, Fin 0 :: num] ! 2 = Fin 0" by simp
  then have z: "[Fin 0, Fin 2, Fin 0 :: num] ! 2 = Fin 0 \<or> [Fin 0, Fin 2, Fin 0 :: num] ! 2 = I64 0"
    by (rule disjI1)
  from zero_sales_category [OF store_zero_prepared aligned_samples(3) c i k u s' z]
  have r: "\<exists>ms out r. Profit_Margin store_zero_ready = Some ms \<and> ms ! 2 \<in> {PInf, NInf, NaN} \<and>
      category_metrics Analysis store_zero_ready = Inr out \<and> r \<in> set out \<and>
      m_category r = ''Office'' \<and> m_margin r = ms ! 2"
    by simp
  have g: "group_rows [Some ''Tech'', Some ''Tech'', Some ''Office''] ''Office'' = [2]"
    by (simp add: group_rows_def upt_rec)
  show ?thesis
    by (intro conjI) (fact store_zero_prepared aligned_samples(3) c k g s z0 r)+
qed

text \<open>
  C9 (as amended). After the preprocessing block of \<^verbatim>\<open>hello.py\<close>, on a table of \<open>n\<close>
  rows, the Absolute Profit column has \<open>n\<close> rows and its value in every row is
  \<^verbatim>\<open>np.abs\<close> of that row's Profit. For a Profit that is not the least 64-bit integer
  this is the absolute value of the Profit, and it is non-negative unless the Profit is
  missing. A missing Profit (NaN) gives a missing Absolute Profit, which is not
  non-negative; it is missing in no other row. In an integer Profit column the least
  integer, \<^verbatim>\<open>-2^63\<close>, gives \<^verbatim>\<open>-2^63\<close> again, which is negative.
\<close>

theorem absolute_profit_is_np_abs:
  assumes "exec (preprocessing Hello P) (loaded d) = (None, s)" and "aligned d n"
  shows "\<exists>ps as.
     Profit (df s) = Some (map NVal ps) \<and> Absolute_Profit (df s) = Some as \<and>
     length ps = n \<and> length as = n \<and>
     (\<forall>i<n. as ! i = fabs (ps ! i) \<and>
        (isna (as ! i) \<longleftrightarrow> isna (ps ! i)) \<and>
        (ps ! i \<noteq> I64 int64_min \<longrightarrow> to_float (as ! i) = magnitude (ps ! i)) \<and>
        (ps ! i \<noteq> I64 int64_min \<and> \<not> isna (ps ! i) \<longrightarrow> nonneg (as ! i)) \<and>
        (isna (ps ! i) \<longrightarrow> \<not> nonneg (as ! i)) \<and>
        (ps ! i = I64 int64_min \<longrightarrow> as ! i = I64 int64_min \<and> negative (as ! i)) \<and>
        (\<forall>p. ps ! i = Fin p \<longrightarrow> as ! i = Fin \<bar>p\<bar>))"
proof -
  from preprocessing_Hello [OF assms(1)] obtain od sa pr ts ss ps where
    h: "Profit (df (loaded d)) = Some pr" "length ps = length pr"
     "s = (loaded d)\<lparr>df := (df (loaded d))\<lparr>Order_Date := Some (map DVal ts),
          Sales := Some (map NVal ss), Profit := Some (map NVal ps),
          Profit_Margin := Some (map2 fdiv ps ss),
          Absolute_Profit := Some (map fabs ps)\<rparr>\<rparr>"
    by blast
  from h(1) assms(2) have "length pr = n"
    by (simp add: loaded_def aligned_def col_rows_def)
  with h(2) have n: "length ps = n" by simp
  from h(3) have cols: "Profit (df s) = Some (map NVal ps)"
    "Absolute_Profit (df s) = Some (map fabs ps)" by simp_all
  have row: "fabs x = fabs x \<and>
        (isna (fabs x) \<longleftrightarrow> isna x) \<and>
        (x \<noteq> I64 int64_min \<longrightarrow> to_float (fabs x) = magnitude x) \<and>
        (x \<noteq> I64 int64_min \<and> \<not> isna x \<longrightarrow> nonneg (fabs x)) \<and>
        (isna x \<longrightarrow> \<not> nonneg (fabs x)) \<and>
        (x = I64 int64_min \<longrightarrow> fabs x = I64 int64_min \<and> negative (fabs x)) \<and>
        (\<forall>p. x = Fin p \<longrightarrow> fabs x = Fin \<bar>p\<bar>)" for x
  proof -
    have "isna (fabs x) \<longleftrightarrow> isna x" by (rule fabs_isna)
    moreover have "to_float (fabs x) = magnitude x" if "x \<noteq> I64 int64_min"
      using that by (rule fabs_magnitude)
    moreover have "nonneg (fabs x)" if "x \<noteq> I64 int64_min \<and> \<not> isna x"
      using that by (simp add: fabs_nonneg)
    moreover have "\<not> nonneg (fabs x)" if "isna x"
      using that by (intro not_nonneg_isna) (simp only: fabs_isna)
    moreover have "fabs x = I64 int64_min \<and> negative (fabs x)" if "x = I64 int64_min"
      using that by (simp only: fabs_int64_min negative_int64_min)
    moreover have "fabs x = Fin \<bar>p\<bar>" if "x = Fin p" for p
      using that by simp
    ultimately show ?thesis by blast
  qed
  have len: "length (map fabs ps) = n" using n by simp
  have "\<forall>i<n. map fabs ps ! i = fabs (ps ! i) \<and>
        (isna (map fabs ps ! i) \<longleftrightarrow> isna (ps ! i)) \<and>
        (ps ! i \<noteq> I64 int64_min \<longrightarrow> to_float (map fabs ps ! i) = magnitude (ps ! i)) \<and>
        (ps ! i \<noteq> I64 int64_min \<and> \<not> isna (ps ! i) \<longrightarrow> nonneg (map fabs ps ! i)) \<and>
        (isna (ps ! i) \<longrightarrow> \<not> nonneg (map fabs ps ! i)) \<and>
        (ps ! i = I64 int64_min \<longrightarrow>
           map fabs ps ! i = I64 int64_min \<and> negative (map fabs ps ! i)) \<and>
        (\<forall>p. ps ! i = Fin p \<longrightarrow> map fabs ps ! i = Fin \<bar>p\<bar>)"
  proof (intro allI impI)
    fix i assume "i < n"
    with n have e: "map fabs ps ! i = fabs (ps ! i)" by simp
    show "map fabs ps ! i = fabs (ps ! i) \<and>
        (isna (map fabs ps ! i) \<longleftrightarrow> isna (ps ! i)) \<and>
        (ps ! i \<noteq> I64 int64_min \<longrightarrow> to_float (map fabs ps ! i) = magnitude (ps ! i)) \<and>
        (ps ! i \<noteq> I64 int64_min \<and> \<not> isna (ps ! i) \<longrightarrow> nonneg (map fabs ps ! i)) \<and>
        (isna (ps ! i) \<longrightarrow> \<not> nonneg (map fabs ps ! i)) \<and>
        (ps ! i = I64 int64_min \<longrightarrow>
           map fabs ps ! i = I64 int64_min \<and> negative (map fabs ps ! i)) \<and>
        (\<forall>p. ps ! i = Fin p \<longrightarrow> map fabs ps ! i = Fin \<bar>p\<bar>)"
      unfolding e by (rule row)
  qed
  with cols n len show ?thesis by blast
qed

theorem absolute_profit_is_np_abs_witness:
  "exec (preprocessing Hello sample_parsers) (loaded store) =
     (None, \<lparr>df = store_ready, shown = []\<rparr>) \<and>
   aligned store 3 \<and>
   Profit store_ready = Some (map NVal [Fin 20, Fin (- 10), Fin 40]) \<and>
   Absolute_Profit store_ready = Some [Fin 20, Fin 10, Fin 40] \<and>
   (\<exists>ps as.
     Profit store_ready = Some (map NVal ps) \<and> Absolute_Profit store_ready = Some as \<and>
     length ps = 3 \<and> length as = 3 \<and>
     (\<forall>i<3. as ! i = fabs (ps ! i) \<and>
        (isna (as ! i) \<longleftrightarrow> isna (ps ! i)) \<and>
        (ps ! i \<noteq> I64 int64_min \<longrightarrow> to_float (as ! i) = magnitude (ps ! i)) \<and>
        (ps ! i \<noteq> I64 int64_min \<and> \<not> isna (ps ! i) \<longrightarrow> nonneg (as ! i)) \<and>
        (isna (ps ! i) \<longrightarrow> \<not> nonneg (as ! i)) \<and>
        (ps ! i = I64 int64_min \<longrightarrow> as ! i = I64 int64_min \<and> negative (as ! i)) \<and>
        (\<forall>p. ps ! i = Fin p \<longrightarrow> as ! i = Fin \<bar>p\<bar>)))"
proof -
  have c: "Profit store_ready = Some (map NVal [Fin 20, Fin (- 10), Fin 40])"
    "Absolute_Profit store_ready = Some [Fin 20, Fin 10, Fin 40]"
    by (simp_all add: store_ready_def)
  from absolute_profit_is_np_abs [OF store_prepared aligned_samples(1)]
    store_prepared aligned_samples(1) c
  show ?thesis by simp
qed

text \<open>
  As stated, C9 fails in two ways. In the first table the Profit column is an integer
  column whose first value is the least 64-bit integer: its Absolute Profit is that
  integer again, a negative number, while its absolute value is \<^verbatim>\<open>2^63\<close>. In the
  second the Profit of the second row is missing: its Absolute Profit is NaN, which is
  not non-negative.
\<close>

theorem absolute_profit_counterexample:
  "exec (preprocessing Hello sample_parsers) (loaded store_extreme) =
     (None, \<lparr>df = store_extreme_ready, shown = []\<rparr>) \<and>
   Profit store_extreme_ready = Some [NVal (I64 int64_min), NVal (I64 1)] \<and>
   Absolute_Profit store_extreme_ready = Some [I64 int64_min, I64 1] \<and>
   sint int64_min = - 9223372036854775808 \<and>
   negative (I64 int64_min) \<and> \<not> nonneg (I64 int64_min) \<and>
   magnitude (I64 int64_min) = Fin 9223372036854775808 \<and>
   to_float (I64 int64_min) \<noteq> magnitude (I64 int64_min) \<and>
   Absolute_Profit (df (snd (exec (preprocessing Hello sample_parsers) (loaded store_no_profit)))) =
     Some [Fin 20, NaN, Fin 40] \<and>
   \<not> nonneg NaN"
proof -
  have "Profit store_extreme_ready = Some [NVal (I64 int64_min), NVal (I64 1)]"
    "Absolute_Profit store_extreme_ready = Some [I64 int64_min, I64 1]"
    by (simp_all add: store_extreme_ready_def)
  moreover have "sint int64_min = - 9223372036854775808"
    "negative (I64 int64_min)" "\<not> nonneg (I64 int64_min)"
    "magnitude (I64 int64_min) = Fin 9223372036854775808"
    "to_float (I64 int64_min) \<noteq> magnitude (I64 int64_min)"
    by (simp_all add: int64_min_def del: of_int_sint)
  moreover have
    "Absolute_Profit (df (snd (exec (preprocessing Hello sample_parsers) (loaded store_no_profit)))) =
       Some [Fin 20, NaN, Fin 40]"
    by (simp add: store_no_profit_prepared)
  ultimately show ?thesis using store_extreme_prepared by simp
qed

text \<open>
  C10 (as amended). In the category aggregate of a table of \<open>n\<close> rows, a row of the
  table without a Category is in no group and a row with a Category is in exactly one,
  that of its category; each Sales (Profit) field is the library's sum over the rows of
  its group. So the Sales fields add up to the total Sales of the rows that have a
  Category, which for a table in which every row has one is the whole Sales column:
  for an integer column as 64-bit integers, that is modulo \<^verbatim>\<open>2^64\<close>, and
  arithmetically when the magnitudes of those values add up to less than \<^verbatim>\<open>2^63\<close>; for a
  float column of finite or missing values whose magnitudes add up to less than the
  bound at which a float overflows, as the library's sum and arithmetically, rounding
  aside, missing values left out. Likewise for Profit.
\<close>

theorem category_sums_total:
  assumes "category_metrics v d = Inr out" and "aligned d n"
    and "Category d = Some cat"
    and "Sales d = Some (map NVal ss)" and "Profit d = Some (map NVal ps)"
  shows "(\<forall>i<n. cat ! i = None \<longrightarrow> groups_of_row cat i = []) \<and>
         (\<forall>i<n. \<forall>k. cat ! i = Some k \<longrightarrow>
            groups_of_row cat i = [k] \<and> k \<in> set (map m_category out)) \<and>
         (\<forall>r\<in>set out. m_sales r = gsum (members cat ss (m_category r)) \<and>
            m_profit r = gsum (members cat ps (m_category r))) \<and>
         (list_all is_int (keyed cat ss) \<longrightarrow> gsum (map m_sales out) = gsum (keyed cat ss)) \<and>
         (int_safe (keyed cat ss) \<longrightarrow> arith_sum (map m_sales out) = arith_sum (keyed cat ss)) \<and>
         (finite_floats (keyed cat ss) \<and> float_safe (keyed cat ss) \<longrightarrow>
            gsum (map m_sales out) = gsum (keyed cat ss) \<and>
            arith_sum (map m_sales out) = arith_sum (valid (keyed cat ss))) \<and>
         (list_all is_int (keyed cat ps) \<longrightarrow> gsum (map m_profit out) = gsum (keyed cat ps)) \<and>
         (int_safe (keyed cat ps) \<longrightarrow> arith_sum (map m_profit out) = arith_sum (keyed cat ps)) \<and>
         (finite_floats (keyed cat ps) \<and> float_safe (keyed cat ps) \<longrightarrow>
            gsum (map m_profit out) = gsum (keyed cat ps) \<and>
            arith_sum (map m_profit out) = arith_sum (valid (keyed cat ps))) \<and>
         (None \<notin> set cat \<longrightarrow> keyed cat ss = ss \<and> keyed cat ps = ps)"
proof -
  from category_metrics_Inr [OF assms(1)] assms(3,4,5) have
    keys: "map m_category out = group_keys cat" and
    rows: "\<forall>r\<in>set out. m_sales r = gsum (members cat ss (m_category r)) \<and>
        m_profit r = gsum (members cat ps (m_category r))"
    by auto
  from assms(2-5) have len: "length ss = length cat" "length ps = length cat" "length cat = n"
    by (simp_all add: aligned_def col_rows_def)
  have none: "groups_of_row cat i = []" if "cat ! i = None" for i
    using that by (rule groups_of_row_None)
  have some: "groups_of_row cat i = [k] \<and> k \<in> set (map m_category out)"
    if "i < n" "cat ! i = Some k" for i k
  proof -
    from that len(3) have i: "i < length cat" by simp
    then have "Some k \<in> set cat" using that(2) nth_mem [of i cat] by simp
    then have "k \<in> set (group_keys cat)" by (simp add: set_group_keys)
    with groups_of_row_Some [OF i that(2)] show ?thesis by (simp add: keys)
  qed
  have "map m_sales out = map (\<lambda>k. gsum (members cat ss k)) (map m_category out)"
    using rows by (simp add: comp_def)
  then have s: "map m_sales out = map (\<lambda>k. gsum (members cat ss k)) (group_keys cat)"
    by (simp only: keys)
  have "map m_profit out = map (\<lambda>k. gsum (members cat ps k)) (map m_category out)"
    using rows by (simp add: comp_def)
  then have p: "map m_profit out = map (\<lambda>k. gsum (members cat ps k)) (group_keys cat)"
    by (simp only: keys)
  have s1: "gsum (map m_sales out) = gsum (keyed cat ss)" if "list_all is_int (keyed cat ss)"
    unfolding s using that len(1) by (rule group_sums_int)
  have s2: "arith_sum (map m_sales out) = arith_sum (keyed cat ss)" if "int_safe (keyed cat ss)"
    unfolding s using that len(1) by (rule group_sums_int_safe)
  have s3: "gsum (map m_sales out) = gsum (keyed cat ss) \<and>
            arith_sum (map m_sales out) = arith_sum (valid (keyed cat ss))"
    if "finite_floats (keyed cat ss) \<and> float_safe (keyed cat ss)"
    unfolding s using that group_sums_float [of cat ss] by simp
  have p1: "gsum (map m_profit out) = gsum (keyed cat ps)" if "list_all is_int (keyed cat ps)"
    unfolding p using that len(2) by (rule group_sums_int)
  have p2: "arith_sum (map m_profit out) = arith_sum (keyed cat ps)" if "int_safe (keyed cat ps)"
    unfolding p using that len(2) by (rule group_sums_int_safe)
  have p3: "gsum (map m_profit out) = gsum (keyed cat ps) \<and>
            arith_sum (map m_profit out) = arith_sum (valid (keyed cat ps))"
    if "finite_floats (keyed cat ps) \<and> float_safe (keyed cat ps)"
    unfolding p using that group_sums_float [of cat ps] by simp
  have all: "keyed cat ss = ss \<and> keyed cat ps = ps" if "None \<notin> set cat"
    using that len by (simp add: keyed_all)
  from none some rows s1 s2 s3 p1 p2 p3 all show ?thesis by blast
qed

theorem category_sums_total_witness:
  "category_metrics Hello store_ready =
     Inr [\<lparr>m_category = ''Office'', m_sales = I64 200, m_profit = Fin 40,
            m_margin = Fin (1 / 5), m_abs = Some (Fin 40)\<rparr>,
          \<lparr>m_category = ''Tech'', m_sales = I64 150, m_profit = Fin 10,
            m_margin = Fin 0, m_abs = Some (Fin 15)\<rparr>] \<and>
   aligned store_ready 3 \<and>
   Category store_ready = Some [Some ''Tech'', Some ''Tech'', Some ''Office''] \<and>
   Sales store_ready = Some (map NVal [I64 100, I64 50, I64 200]) \<and>
   Profit store_ready = Some (map NVal [Fin 20, Fin (- 10), Fin 40]) \<and>
   None \<notin> set [Some ''Tech'', Some ''Tech'', Some ''Office''] \<and>
   int_safe [I64 100, I64 50, I64 200] \<and>
   finite_floats [Fin 20, Fin (- 10), Fin 40] \<and> float_safe [Fin 20, Fin (- 10), Fin 40] \<and>
   gsum [I64 200, I64 150] = gsum [I64 100, I64 50, I64 200] \<and>
   arith_sum [I64 200, I64 150] = arith_sum [I64 100, I64 50, I64 200] \<and>
   gsum [Fin 40, Fin 10] = gsum [Fin 20, Fin (- 10), Fin 40] \<and>
   arith_sum [Fin 40, Fin 10] = arith_sum (valid [Fin 20, Fin (- 10), Fin 40]) \<and>
   arith_sum [I64 100, I64 50, I64 200] = Fin 350 \<and>
   arith_sum (valid [Fin 20, Fin (- 10), Fin 40]) = Fin 50"
proof -
  have c: "Category store_ready = Some [Some ''Tech'', Some ''Tech'', Some ''Office'']"
    and s: "Sales store_ready = Some (map NVal [I64 100, I64 50, I64 200])"
    and p: "Profit store_ready = Some (map NVal [Fin 20, Fin (- 10), Fin 40])"
    by (simp_all add: sample_defs)
  have n: "None \<notin> set [Some ''Tech'', Some ''Tech'', Some ''Office'']" by simp
  have k: "keyed [Some ''Tech'', Some ''Tech'', Some ''Office''] [I64 100, I64 50, I64 200] =
             [I64 100, I64 50, I64 200]"
    "keyed [Some ''Tech'', Some ''Tech'', Some ''Office''] [Fin 20, Fin (- 10), Fin 40] =
             [Fin 20, Fin (- 10), Fin 40]"
    by (simp_all add: keyed_def)
  have safe: "int_safe [I64 100, I64 50, I64 200]" "list_all is_int [I64 100, I64 50, I64 200]"
    "finite_floats [Fin 20, Fin (- 10), Fin 40]" "float_safe [Fin 20, Fin (- 10), Fin 40]"
    by (simp_all add: int_safe_def float_safe_def finite_floats_def overflow_bound_def)
  have v: "arith_sum [I64 100, I64 50, I64 200] = Fin 350"
    "arith_sum (valid [Fin 20, Fin (- 10), Fin 40]) = Fin 50"
    by (simp_all add: arith_sum_def valid_def isna_def)
  define out where "out =
       [\<lparr>m_category = ''Office'', m_sales = I64 200, m_profit = Fin 40,
            m_margin = Fin (1 / 5), m_abs = Some (Fin 40)\<rparr>,
          \<lparr>m_category = ''Tech'', m_sales = I64 150, m_profit = Fin 10,
            m_margin = Fin 0, m_abs = Some (Fin 15)\<rparr>]"
  have m: "category_metrics Hello store_ready = Inr out"
    unfolding out_def by (rule store_ready_metrics)
  from category_sums_total [OF m aligned_samples(2) c s p] safe
  have "gsum (map m_sales out) = gsum [I64 100, I64 50, I64 200] \<and>
        arith_sum (map m_sales out) = arith_sum [I64 100, I64 50, I64 200] \<and>
        gsum (map m_profit out) = gsum [Fin 20, Fin (- 10), Fin 40] \<and>
        arith_sum (map m_profit out) = arith_sum (valid [Fin 20, Fin (- 10), Fin 40])"
    unfolding k by blast
  then have "gsum [I64 200, I64 150] = gsum [I64 100, I64 50, I64 200] \<and>
        arith_sum [I64 200, I64 150] = arith_sum [I64 100, I64 50, I64 200] \<and>
        gsum [Fin 40, Fin 10] = gsum [Fin 20, Fin (- 10), Fin 40] \<and>
        arith_sum [Fin 40, Fin 10] = arith_sum (valid [Fin 20, Fin (- 10), Fin 40])"
    by (simp add: out_def)
  with store_ready_metrics aligned_samples(2) c s p n safe v show ?thesis by simp
qed

text \<open>
  As stated, for every table, C10 fails: a row without a Category is in no group. In
  the sample the per-category Sales sums add up to 150, the Sales column to 350.
\<close>

theorem category_sums_counterexample:
  "exec (preprocessing Hello sample_parsers) (loaded store_gaps_loaded) =
     (None, \<lparr>df = store_gaps, shown = []\<rparr>) \<and>
   category_metrics Hello store_gaps =
     Inr [\<lparr>m_category = ''Tech'', m_sales = I64 150, m_profit = Fin 10,
            m_margin = Fin 0, m_abs = Some (Fin 15)\<rparr>] \<and>
   Sales store_gaps = Some (map NVal [I64 100, I64 50, I64 200]) \<and>
   Category store_gaps = Some [Some ''Tech'', Some ''Tech'', None] \<and>
   arith_sum [I64 150] = Fin 150 \<and>
   arith_sum [I64 100, I64 50, I64 200] = Fin 350 \<and>
   gsum [I64 150] = I64 150 \<and>
   gsum [I64 100, I64 50, I64 200] = I64 350"
proof -
  have "Sales store_gaps = Some (map NVal [I64 100, I64 50, I64 200])"
    "Category store_gaps = Some [Some ''Tech'', Some ''Tech'', None]"
    by (simp_all add: sample_defs)
  moreover have "arith_sum [I64 150] = Fin 150"
    "arith_sum [I64 100, I64 50, I64 200] = Fin 350"
    "gsum [I64 150] = I64 150"
    "gsum [I64 100, I64 50, I64 200] = I64 350"
    by (simp_all add: arith_sum_def gsum_def isna_def)
  ultimately show ?thesis using store_gaps_prepared store_gaps_metrics by simp
qed

end
